(* ===== verification/Go_Base.thy ===== *)
theory Go_Base
  imports Main "HOL-Library.Word" "HOL-Library.Monad_Syntax" "HOL-Library.Multiset"
begin

text \<open>
  The part of Go's language and standard library that the program uses, and the lemmas the
  components share: machine integers (\<open>uint64\<close>), \<open>math/big\<close> integers, optional values
  (a pointer that may be nil), and the collections of hints.

  Conventions. A \<open>uint64\<close> is a 64-bit word, so \<open>+\<close>, \<open>-\<close>, \<open>*\<close> wrap around as in Go and
  \<open>div\<close>, \<open>mod\<close>, \<open><\<close> are unsigned. A \<open>*big.Int\<close> is an \<open>int\<close>; where the code may hold a
  nil pointer it is an \<open>int option\<close>. A computation that does not return a value to its
  caller (it panics, it ends the process, or it loops for ever) is \<open>None\<close>.
\<close>

type_synonym u64 = "64 word"
type_synonym byte = "8 word"
type_synonym address = "160 word"
type_synonym hash = "256 word"

named_theorems world_simps \<open>what each effectful operation does to the history of the world\<close>
named_theorems silent_intros \<open>which operations never broadcast a transaction\<close>
named_theorems adds_intros \<open>which events each effectful operation may append\<close>

section \<open>Error values\<close>

text \<open>
  An \<open>error\<close> of Go is compared by identity with the sentinels of the source, so each
  sentinel is a constructor. \<open>Errorf\<close> is an error made by \<open>fmt.Errorf\<close> or \<open>errors.New\<close>
  and keeps the format string, sometimes shortened (no branch depends on the text);
  \<open>ExtError\<close> is an error of a third-party library with its message; \<open>ErrDup\<close> and
  \<open>ErrNotFound\<close> are the two classes of errors of the database driver the code tests for.
\<close>

datatype error =
    Errorf string
  | ExtError string
  | ErrDup
  | ErrNotFound
  | errTotalRewardsIsZero
  | errCheckOptionFailed
  | errGetAccountListFailed
  | errGetAccountsRewardsFailed
  | errGetAccountsSharesFailed
  | errAccountsNotComplete
  | errSendTransactionFailed
  | errDustReward
  | errAccessDataOverflow

section \<open>Nil pointers\<close>

text \<open>Dereferencing every pointer of a slice: \<open>None\<close> as soon as one is nil.\<close>

fun deref_all :: "'a option list \<Rightarrow> 'a list option" where
  "deref_all [] = Some []"
| "deref_all (None # xs) = None"
| "deref_all (Some x # xs) = map_option (Cons x) (deref_all xs)"

lemma deref_all_map_Some [simp]: "deref_all (map Some xs) = Some xs"
  by (induction xs) auto

lemma deref_all_eq_Some: "deref_all xs = Some ys \<longleftrightarrow> xs = map Some ys"
  by (induction xs arbitrary: ys rule: deref_all.induct) (auto simp: Cons_eq_map_conv map_eq_Cons_conv)

lemma deref_all_map_Some_if:
  "(\<And>x. x \<in> set xs \<Longrightarrow> f x = Some (g x)) \<Longrightarrow> deref_all (map f xs) = Some (map g xs)"
  by (induction xs) auto

lemma bind_pair_Some:
  "f \<bind> (\<lambda>(a, b). g a b) = Some r \<Longrightarrow> \<exists>a b. f = Some (a, b) \<and> g a b = Some r"
  by (auto split: Option.bind_splits)

section \<open>math/big\<close>

text \<open>
  \<open>big.Int.Div\<close> is Euclidean division: the remainder is never negative. For a positive
  divisor it is HOL's \<open>div\<close>. Division by zero panics.
\<close>

definition big_Div :: "int \<Rightarrow> int \<Rightarrow> int option" where
  "big_Div x y = (if y = 0 then None else if 0 < y then Some (x div y) else Some (- (x div (- y))))"

lemma big_Div_pos [simp]: "0 < y \<Longrightarrow> big_Div x y = Some (x div y)"
  by (simp add: big_Div_def)

lemma big_Div_0 [simp]: "big_Div x 0 = None"
  by (simp add: big_Div_def)

lemma big_Div_euclidean:
  assumes "big_Div x y = Some q"
  shows "0 \<le> x - y * q \<and> x - y * q < \<bar>y\<bar>"
proof (cases "0 < y")
  case True
  with assms have "x - y * q = x mod y"
    by (auto simp: minus_mult_div_eq_mod)
  with True show ?thesis by simp
next
  case False
  with assms have "0 < - y" and "q = - (x div (- y))"
    by (auto simp: big_Div_def split: if_splits)
  moreover from this have "x - y * q = x mod (- y)"
    by (simp add: minus_mult_div_eq_mod [of x "- y", symmetric])
  ultimately show ?thesis by (simp add: pos_mod_bound)
qed

text \<open>\<open>SetUint64\<close> and \<open>Uint64\<close> (the low 64 bits of the magnitude), \<open>Int64\<close>.\<close>

abbreviation SetUint64 :: "u64 \<Rightarrow> int" where
  "SetUint64 n \<equiv> uint n"

definition big_Uint64 :: "int \<Rightarrow> u64" where
  "big_Uint64 x = word_of_int \<bar>x\<bar>"

lemma big_Uint64_SetUint64 [simp]: "big_Uint64 (SetUint64 n) = n"
  by (simp add: big_Uint64_def)

section \<open>Sums of integer lists\<close>

lemma sum_list_nonneg_int: "(\<And>x. x \<in> set xs \<Longrightarrow> (0::int) \<le> x) \<Longrightarrow> 0 \<le> sum_list xs"
  by (rule sum_list_nonneg) auto

lemma member_le_sum_list_int:
  assumes "x \<in> set xs" and "\<And>y. y \<in> set xs \<Longrightarrow> (0::int) \<le> y"
  shows "x \<le> sum_list xs"
  using assms
proof (induction xs)
  case (Cons y ys)
  then have "0 \<le> sum_list ys" by (intro sum_list_nonneg_int) auto
  with Cons show ?case by (cases "x = y") fastforce+
qed simp

lemma sum_list_const_mult_int: "sum_list (map (\<lambda>x. c * f x) xs) = (c::int) * sum_list (map f xs)"
  by (induction xs) (auto simp: algebra_simps)

section \<open>Words\<close>

lemma word_diff_less_self: "b \<le> a \<Longrightarrow> uint (a - b) = uint a - uint (b :: 'a::len word)"
  by (simp only: word_le_def uint_sub_lem)

lemma uint_add_no_wrap: "uint a + uint b < 2 ^ 64 \<Longrightarrow> uint (a + b :: u64) = uint a + uint b"
  by (simp add: uint_word_ariths)

lemma uint_mult_no_wrap: "uint a * uint b < 2 ^ 64 \<Longrightarrow> uint (a * b :: u64) = uint a * uint b"
  by (simp add: uint_word_ariths)

lemma u64_unat_bound: "unat (x :: u64) < 18446744073709551616"
proof -
  have "unat x < 2 ^ LENGTH(64)" by (rule unsigned_less)
  then show ?thesis by simp
qed

lemma u64_max_bound: "uint (x :: u64) < 18446744073709551616"
  using uint_lt2p [of x] by simp

end
