(* ===== verification/Go_Strings.thy ===== *)
theory Go_Strings
  imports Go_Base
begin

text \<open>
  The functions of Go's \<open>strings\<close>, \<open>strconv\<close>, \<open>regexp\<close>, \<open>bufio\<close> and \<open>math/big\<close> packages
  that the program applies to text, on byte strings (\<open>char list\<close>). Case conversion and white
  space are those of the ASCII range: the addresses, hashes, numbers and option words the
  program handles are ASCII.
\<close>

section \<open>Case and white space\<close>

definition lower_char :: "char \<Rightarrow> char" where
  "lower_char c = (let n = (of_char c :: nat) in if 65 \<le> n \<and> n \<le> 90 then char_of (n + 32) else c)"

definition ToLower :: "string \<Rightarrow> string" where
  "ToLower s = map lower_char s"

definition EqualFold :: "string \<Rightarrow> string \<Rightarrow> bool" where
  "EqualFold s t \<longleftrightarrow> ToLower s = ToLower t"

lemma lower_char_idem [simp]: "lower_char (lower_char c) = lower_char c"
proof (cases "65 \<le> (of_char c :: nat) \<and> (of_char c :: nat) \<le> 90")
  case True
  then have "(of_char (lower_char c) :: nat) = of_char c + 32"
    by (simp add: lower_char_def Let_def)
  with True show ?thesis by (simp add: lower_char_def [of "lower_char c"] Let_def)
next
  case False
  then have "lower_char c = c" by (auto simp: lower_char_def Let_def)
  then show ?thesis by simp
qed

lemma ToLower_idem [simp]: "ToLower (ToLower s) = ToLower s"
  by (simp add: ToLower_def)

lemma ToLower_append [simp]: "ToLower (s @ t) = ToLower s @ ToLower t"
  by (simp add: ToLower_def)

lemma ToLower_Nil [simp]: "ToLower [] = []"
  by (simp add: ToLower_def)

lemma ToLower_Cons: "ToLower (c # s) = lower_char c # ToLower s"
  by (simp add: ToLower_def)

lemma length_ToLower [simp]: "length (ToLower s) = length s"
  by (simp add: ToLower_def)

lemma ToLower_eq_Nil [simp]: "ToLower s = [] \<longleftrightarrow> s = []" "[] = ToLower s \<longleftrightarrow> s = []"
  by (auto simp: ToLower_def)

lemma EqualFold_refl [simp]: "EqualFold s s"
  by (simp add: EqualFold_def)

lemma EqualFold_ToLower [simp]:
  "EqualFold (ToLower s) t = EqualFold s t" "EqualFold s (ToLower t) = EqualFold s t"
  by (simp_all add: EqualFold_def)

lemma EqualFold_Nil [simp]: "EqualFold s [] \<longleftrightarrow> s = []" "EqualFold [] s \<longleftrightarrow> s = []"
  by (auto simp: EqualFold_def)

text \<open>White space of \<open>strings.TrimSpace\<close>, and the class \<open>[\s,]\<close> of the separators.\<close>

definition is_space :: "char \<Rightarrow> bool" where
  "is_space c \<longleftrightarrow> (of_char c :: nat) \<in> {9, 10, 11, 12, 13, 32}"

definition is_sep :: "char \<Rightarrow> bool" where
  "is_sep c \<longleftrightarrow> (of_char c :: nat) \<in> {9, 10, 12, 13, 32, 44}"

definition TrimSpace :: "string \<Rightarrow> string" where
  "TrimSpace s = rev (dropWhile is_space (rev (dropWhile is_space s)))"

definition HasPrefix :: "string \<Rightarrow> string \<Rightarrow> bool" where
  "HasPrefix s p \<longleftrightarrow> take (length p) s = p"

lemma TrimSpace_id:
  assumes "s = [] \<or> (\<not> is_space (hd s) \<and> \<not> is_space (last s))"
  shows "TrimSpace s = s"
proof -
  have "dropWhile is_space s = s" using assms by (cases s) auto
  moreover have "dropWhile is_space (rev s) = rev s"
    using assms by (cases s rule: rev_cases) auto
  ultimately show ?thesis by (simp add: TrimSpace_def)
qed

text \<open>
  \<open>regexp.MustCompile(`[\s,]+`).Split(s, -1)\<close>: the pieces between maximal runs of separators;
  a leading or a trailing run leaves an empty piece, and the empty string is one empty piece.
\<close>

function split_from :: "string \<Rightarrow> string \<Rightarrow> string list" where
  "split_from cur [] = [rev cur]"
| "split_from cur (c # cs) =
     (if is_sep c then rev cur # split_from [] (dropWhile is_sep cs) else split_from (c # cur) cs)"
  by pat_completeness auto
termination
  by (relation "measure (\<lambda>(cur, s). length s)") (auto simp: le_imp_less_Suc length_dropWhile_le)

declare split_from.simps(2) [simp del]

definition blankOrCommaSep_Split :: "string \<Rightarrow> string list" where
  "blankOrCommaSep_Split s = split_from [] s"

definition no_sep :: "string \<Rightarrow> bool" where
  "no_sep s \<longleftrightarrow> (\<forall>c \<in> set s. \<not> is_sep c)"

lemma no_sep_simps [simp]:
  "no_sep []" "no_sep (c # s) \<longleftrightarrow> \<not> is_sep c \<and> no_sep s" "no_sep (s @ t) \<longleftrightarrow> no_sep s \<and> no_sep t"
  by (auto simp: no_sep_def)

lemma split_from_no_sep: "no_sep s \<Longrightarrow> split_from cur s = [rev cur @ s]"
  by (induction s arbitrary: cur) (auto simp: split_from.simps(2))

lemma split_from_sep:
  assumes "no_sep s" and "is_sep c"
  shows "split_from cur (s @ c # t) = (rev cur @ s) # split_from [] (dropWhile is_sep t)"
  using assms by (induction s arbitrary: cur) (auto simp: split_from.simps(2))

lemma dropWhile_is_sep_id: "s \<noteq> [] \<Longrightarrow> no_sep s \<Longrightarrow> dropWhile is_sep (s @ t) = s @ t"
  by (cases s) auto

lemma is_sep_comma [simp]: "is_sep CHR '',''"
  by (simp add: is_sep_def)

text \<open>\<open>strings.Join(contents, ",")\<close>, and that the split undoes it.\<close>

fun Join :: "string list \<Rightarrow> string \<Rightarrow> string" where
  "Join [] sep = []"
| "Join [s] sep = s"
| "Join (s # t # ss) sep = s @ sep @ Join (t # ss) sep"

lemma hd_Join: "s \<noteq> [] \<Longrightarrow> hd (Join (s # ss) sep) = hd s"
  by (cases ss) auto

lemma Join_eq_append:
  assumes "s \<noteq> []"
  shows "\<exists>t. Join (s # ss) sep = s @ t"
  by (cases ss) auto

lemma Split_Join:
  assumes "ss \<noteq> []" and "\<And>s. s \<in> set ss \<Longrightarrow> s \<noteq> [] \<and> no_sep s"
  shows "blankOrCommaSep_Split (Join ss '','') = ss"
  unfolding blankOrCommaSep_Split_def using assms
proof (induction ss rule: induct_list012)
  case (2 s)
  then show ?case by (simp add: split_from_no_sep)
next
  case (3 s t ss)
  let ?j = "Join (t # ss) '',''"
  obtain u where u: "?j = t @ u" using Join_eq_append [of t] "3.prems"(2) [of t] by auto
  have "split_from [] (s @ CHR '','' # ?j) = s # split_from [] (dropWhile is_sep ?j)"
    using "3.prems"(2) [of s] by (simp add: split_from_sep)
  also have "dropWhile is_sep ?j = ?j"
    unfolding u using "3.prems"(2) [of t] by (intro dropWhile_is_sep_id) auto
  also have "split_from [] ?j = t # ss"
    using "3.IH"(2) "3.prems" by simp
  finally show ?case by simp
qed simp

section \<open>Decimal numerals\<close>

definition digit_char :: "nat \<Rightarrow> char" where
  "digit_char d = char_of (48 + d)"

fun nat_digits :: "nat \<Rightarrow> string" where
  "nat_digits n = (if n < 10 then [digit_char n] else nat_digits (n div 10) @ [digit_char (n mod 10)])"

declare nat_digits.simps [simp del]

text \<open>\<open>big.Int.String\<close>, and \<open>%d\<close> of an unsigned integer.\<close>

definition big_String :: "int \<Rightarrow> string" where
  "big_String x = (if x < 0 then CHR ''-'' # nat_digits (nat (- x)) else nat_digits (nat x))"

definition fmt_u64 :: "u64 \<Rightarrow> string" where
  "fmt_u64 n = nat_digits (unat n)"

lemma big_String_uint [simp]: "big_String (uint n) = fmt_u64 n"
  by (simp add: big_String_def fmt_u64_def)

end
