(* ===== verification/Tools.thy ===== *)
theory Tools
  imports Go_Strings
begin

text \<open>
  \<open>tools/common.go\<close>: \<open>GetBigIntFromString\<close>, with the \<open>big.Int.SetString\<close> of Go's standard
  library that it calls (the scanner of \<open>math/big\<close>: optional sign, for base 0 a prefix
  \<open>0b\<close>, \<open>0o\<close>, \<open>0x\<close> or \<open>0\<close> that selects the base and underscores between digits, and the whole
  string must be consumed). \<open>ToJSONString\<close> only formats log output and is not modelled.
\<close>

section \<open>big.Int.SetString\<close>

definition digit_val :: "char \<Rightarrow> nat option" where
  "digit_val c = (let n = (of_char c :: nat) in
     if 48 \<le> n \<and> n \<le> 57 then Some (n - 48)
     else if 97 \<le> n \<and> n \<le> 122 then Some (n - 87)
     else if 65 \<le> n \<and> n \<le> 90 then Some (n - 55)
     else None)"

text \<open>The previous character of the scan: anything, a digit, or a separator.\<close>

datatype prev_char = PAny | PDigit | PSep

text \<open>
  The digit loop: base, whether underscores are allowed, the previous character, whether a
  separator was misplaced, the value and the number of digits so far; it returns these with
  the unread rest.
\<close>

fun scan_digits ::
  "nat \<Rightarrow> bool \<Rightarrow> prev_char \<Rightarrow> bool \<Rightarrow> nat \<Rightarrow> nat \<Rightarrow> string \<Rightarrow> prev_char \<times> bool \<times> nat \<times> nat \<times> string" where
  "scan_digits b seps prev inval acc cnt [] = (prev, inval, acc, cnt, [])"
| "scan_digits b seps prev inval acc cnt (c # cs) =
     (if seps \<and> c = CHR ''_'' then scan_digits b seps PSep (inval \<or> prev \<noteq> PDigit) acc cnt cs
      else case digit_val c of
          Some d \<Rightarrow> if d < b then scan_digits b seps PDigit inval (acc * b + d) (Suc cnt) cs
                    else (prev, inval, acc, cnt, c # cs)
        | None \<Rightarrow> (prev, inval, acc, cnt, c # cs))"

text \<open>The base and what remains after the prefix: base, octal prefix, previous, cnt, rest.\<close>

definition scan_prefix :: "nat \<Rightarrow> string \<Rightarrow> nat \<times> bool \<times> prev_char \<times> nat \<times> string" where
  "scan_prefix base s =
     (if base \<noteq> 0 then (base, False, PAny, 0, s)
      else case s of
          [] \<Rightarrow> (10, False, PAny, 0, [])
        | z # s' \<Rightarrow>
            if z \<noteq> CHR ''0'' then (10, False, PAny, 0, s)
            else (case s' of
                [] \<Rightarrow> (10, False, PDigit, 1, [])
              | c # cs \<Rightarrow>
                  if c = CHR ''b'' \<or> c = CHR ''B'' then (2, False, PDigit, 0, cs)
                  else if c = CHR ''o'' \<or> c = CHR ''O'' then (8, False, PDigit, 0, cs)
                  else if c = CHR ''x'' \<or> c = CHR ''X'' then (16, False, PDigit, 0, cs)
                  else (8, True, PDigit, 0, c # cs)))"

definition nat_SetString :: "nat \<Rightarrow> string \<Rightarrow> nat option" where
  "nat_SetString base s =
     (let (b, octal, prev, cnt, cs) = scan_prefix base s;
          (prev', inval, acc, cnt', rest) = scan_digits b (base = 0) prev False 0 cnt cs
      in if inval \<or> prev' = PSep then None
         else if cnt' = 0 then (if octal \<and> rest = [] then Some 0 else None)
         else if rest = [] then Some acc else None)"

definition SetString :: "string \<Rightarrow> nat \<Rightarrow> int option" where
  "SetString s base =
     (case s of
        [] \<Rightarrow> None
      | c # cs \<Rightarrow>
          if c = CHR ''-'' then map_option (\<lambda>n. - int n) (nat_SetString base cs)
          else if c = CHR ''+'' then map_option int (nat_SetString base cs)
          else map_option int (nat_SetString base s))"

section \<open>tools/common.go\<close>

definition GetBigIntFromString :: "string \<Rightarrow> error + int" where
  "GetBigIntFromString str =
     (case SetString str 0 of
        None \<Rightarrow> Inl (Errorf ''wrong number %v'')
      | Some bi \<Rightarrow> Inr bi)"

section \<open>Decimal numerals and their value\<close>

definition is_dec :: "char \<Rightarrow> bool" where
  "is_dec c \<longleftrightarrow> 48 \<le> (of_char c :: nat) \<and> (of_char c :: nat) \<le> 57"

definition dec_val :: "nat \<Rightarrow> string \<Rightarrow> nat" where
  "dec_val acc s = foldl (\<lambda>a c. a * 10 + (of_char c - 48)) acc s"

lemma is_dec_digit_char [simp]: "d < 10 \<Longrightarrow> is_dec (digit_char d)"
  by (simp add: is_dec_def digit_char_def)

lemma of_char_digit_char [simp]: "d < 10 \<Longrightarrow> of_char (digit_char d) = 48 + d"
  by (simp add: digit_char_def)

lemma nat_digits_dec: "c \<in> set (nat_digits n) \<Longrightarrow> is_dec c"
  by (induction n rule: nat_digits.induct) (subst (asm) nat_digits.simps, auto split: if_splits)

lemma nat_digits_neq_Nil [simp]: "nat_digits n \<noteq> []"
  by (subst nat_digits.simps) simp

lemma dec_val_nat_digits: "dec_val 0 (nat_digits n) = n"
proof (induction n rule: nat_digits.induct)
  case (1 n)
  then show ?case by (subst nat_digits.simps) (auto simp: dec_val_def)
qed

lemma hd_nat_digits: "n \<noteq> 0 \<Longrightarrow> hd (nat_digits n) \<noteq> CHR ''0''"
proof (induction n rule: nat_digits.induct)
  case (1 n)
  show ?case
  proof (cases "n < 10")
    case True
    have "(of_char (digit_char n) :: nat) \<noteq> of_char (CHR ''0'')" using True 1(2) by simp
    then have "digit_char n \<noteq> CHR ''0''" by metis
    with True show ?thesis by (subst nat_digits.simps) simp
  next
    case False
    with 1 show ?thesis by (subst nat_digits.simps) (simp add: hd_append)
  qed
qed

lemma digit_val_dec: "is_dec c \<Longrightarrow> digit_val c = Some (of_char c - 48)"
  by (simp add: digit_val_def is_dec_def Let_def)

lemma is_dec_neq [simp]:
  "is_dec c \<Longrightarrow> c \<noteq> CHR ''_''" "is_dec c \<Longrightarrow> c \<noteq> CHR ''-''" "is_dec c \<Longrightarrow> c \<noteq> CHR ''+''"
  "is_dec c \<Longrightarrow> c \<noteq> CHR ''#''" "is_dec c \<Longrightarrow> c \<noteq> CHR ''/''" "is_dec c \<Longrightarrow> c \<noteq> CHR '':''"
  by (auto simp: is_dec_def)

lemma is_dec_lt_10: "is_dec c \<Longrightarrow> (of_char c :: nat) - 48 < 10"
  by (auto simp: is_dec_def)

lemma scan_digits_dec:
  assumes "\<forall>c \<in> set s. is_dec c"
  shows "scan_digits 10 seps prev inval acc cnt s =
    (if s = [] then prev else PDigit, inval, dec_val acc s, cnt + length s, [])"
  using assms
proof (induction s arbitrary: prev acc cnt)
  case (Cons c s)
  then have "is_dec c" by simp
  with Cons show ?case by (simp add: digit_val_dec is_dec_lt_10 dec_val_def)
qed (simp add: dec_val_def)

lemma nat_SetString_nat_digits: "nat_SetString 0 (nat_digits n) = Some n"
proof (cases "n = 0")
  case True
  have "nat_digits 0 = ''0''" by (subst nat_digits.simps) (simp add: digit_char_def char_of_eq_iff)
  with True show ?thesis by (simp add: nat_SetString_def scan_prefix_def)
next
  case False
  obtain c cs where s: "nat_digits n = c # cs" by (cases "nat_digits n") auto
  have dec: "\<forall>c \<in> set (nat_digits n). is_dec c" using nat_digits_dec by blast
  have "c \<noteq> CHR ''0''" using hd_nat_digits [OF False] s by simp
  then have "scan_prefix 0 (nat_digits n) = (10, False, PAny, 0, nat_digits n)"
    unfolding s scan_prefix_def by simp
  with dec show ?thesis
    by (simp add: nat_SetString_def scan_digits_dec dec_val_nat_digits)
qed

lemma hd_nat_digits_dec: "nat_digits n = c # cs \<Longrightarrow> is_dec c"
  using nat_digits_dec [of c n] by simp

lemma SetString_big_String: "SetString (big_String x) 0 = Some x"
proof (cases "x < 0")
  case True
  then show ?thesis by (simp add: SetString_def big_String_def nat_SetString_nat_digits)
next
  case False
  obtain c cs where s: "nat_digits (nat x) = c # cs" by (cases "nat_digits (nat x)") auto
  then have "c \<noteq> CHR ''-''" "c \<noteq> CHR ''+''"
    using hd_nat_digits_dec by (blast dest: is_dec_neq)+
  then have "SetString (c # cs) 0 = map_option int (nat_SetString 0 (c # cs))"
    by (simp add: SetString_def)
  with False s show ?thesis
    by (simp add: big_String_def flip: s) (simp add: nat_SetString_nat_digits)
qed

lemma GetBigIntFromString_big_String [simp]: "GetBigIntFromString (big_String x) = Inr x"
  by (simp add: GetBigIntFromString_def SetString_big_String)

lemma GetBigIntFromString_fmt_u64 [simp]: "GetBigIntFromString (fmt_u64 n) = Inr (SetUint64 n)"
  using GetBigIntFromString_big_String [of "uint n"] by simp

lemma no_sep_dec: "(\<And>c. c \<in> set s \<Longrightarrow> is_dec c) \<Longrightarrow> no_sep s"
  by (force simp: no_sep_def is_dec_def is_sep_def)

lemma no_sep_big_String [simp]: "no_sep (big_String x)"
  by (auto simp: big_String_def is_sep_def intro!: no_sep_dec nat_digits_dec)

lemma big_String_neq_Nil [simp]: "big_String x \<noteq> []"
  by (simp add: big_String_def)

lemma no_sep_fmt_u64 [simp]: "no_sep (fmt_u64 n)"
  by (auto simp: fmt_u64_def intro!: no_sep_dec nat_digits_dec)

lemma fmt_u64_neq_Nil [simp]: "fmt_u64 n \<noteq> []"
  by (simp add: fmt_u64_def)

lemma nat_digits_inject: "nat_digits m = nat_digits n \<longleftrightarrow> m = n"
  by (metis dec_val_nat_digits)

lemma fmt_u64_inject [simp]: "fmt_u64 m = fmt_u64 n \<longleftrightarrow> m = n"
  by (simp add: fmt_u64_def nat_digits_inject word_unat_eq_iff)

lemma big_String_inject [simp]: "big_String x = big_String y \<longleftrightarrow> x = y"
  by (metis SetString_big_String option.inject)

lemma lower_char_dec [simp]: "is_dec c \<Longrightarrow> lower_char c = c"
  by (auto simp: is_dec_def lower_char_def Let_def)

lemma ToLower_fmt_u64 [simp]: "ToLower (fmt_u64 n) = fmt_u64 n"
  by (auto simp: fmt_u64_def ToLower_def intro!: map_idI lower_char_dec nat_digits_dec)

lemma colon_notin_fmt_u64 [simp]: "CHR '':'' \<notin> set (fmt_u64 n)"
  using nat_digits_dec [of "CHR '':''" "unat n"] by (auto simp: fmt_u64_def dest: is_dec_neq(6))

end
