(* ===== verification/Tables.thy ===== *)
theory Tables
  imports Tools
begin

text \<open>
  \<open>mongodb/tables.go\<close>: the documents the program stores, one record per collection, and the
  functions that build their keys. Field names carry the prefix of the source's variables
  (\<open>mb\<close>, \<open>mt\<close>, \<open>ml\<close>, \<open>mv\<close>, \<open>ma\<close>, ...), because record fields are global names.
\<close>

section \<open>Documents\<close>

definition KeyOfLatestSyncInfo :: string where
  "KeyOfLatestSyncInfo = ''latest''"

record MgoSyncInfo =
  si_Key :: string
  si_Number :: u64
  si_Hash :: string
  si_Timestamp :: u64

record MgoBlock =
  mb_Key :: string
  mb_Number :: u64
  mb_Hash :: string
  mb_ParentHash :: string
  mb_Nonce :: string
  mb_Miner :: string
  mb_Difficulty :: string
  mb_GasLimit :: u64
  mb_GasUsed :: u64
  mb_Timestamp :: u64

record Erc20Receipt =
  er_LogType :: string
  er_LogIndex :: int
  er_Erc20 :: string
  er_From :: string
  er_To :: string
  er_Value :: string

record ExchangeReceipt =
  xr_LogType :: string
  xr_LogIndex :: int
  xr_Exchange :: string
  xr_Pairs :: string
  xr_Address :: string
  xr_TokenFromAmount :: string
  xr_TokenToAmount :: string

record ExchangeV2Receipt =
  v2_LogType :: string
  v2_LogIndex :: int
  v2_Exchange :: string
  v2_Sender :: string
  v2_To :: string
  v2_Amount0In :: string
  v2_Amount1In :: string
  v2_Amount0Out :: string
  v2_Amount1Out :: string

record MgoTransaction =
  mt_Key :: string
  mt_Hash :: string
  mt_BlockNumber :: u64
  mt_BlockHash :: string
  mt_TransactionIndex :: int
  mt_From :: string
  mt_To :: string
  mt_Value :: string
  mt_Nonce :: u64
  mt_GasLimit :: u64
  mt_GasUsed :: u64
  mt_GasPrice :: string
  mt_Status :: u64
  mt_Timestamp :: u64
  mt_Erc20Receipts :: "Erc20Receipt list"
  mt_ExchangeReceipts :: "ExchangeReceipt list"
  mt_ExchangeV2Receipts :: "ExchangeV2Receipt list"

record MgoLiquidity =
  ml_Key :: string
  ml_Exchange :: string
  ml_Pairs :: string
  ml_Coin :: string
  ml_Token :: string
  ml_Liquidity :: string
  ml_BlockNumber :: u64
  ml_BlockHash :: string
  ml_Timestamp :: u64

record MgoVolume =
  mv_Key :: string
  mv_Exchange :: string
  mv_Pairs :: string
  mv_CoinVolume24h :: string
  mv_TokenVolume24h :: string
  mv_BlockNumber :: u64
  mv_BlockHash :: string
  mv_Timestamp :: u64

record MgoAccount =
  ma_Key :: string
  ma_Exchange :: string
  ma_Pairs :: string
  ma_Account :: string

record MgoTokenAccount =
  ta_Key :: string
  ta_Token :: string
  ta_Account :: string

record MgoLiquidityBalance =
  lb_Key :: string
  lb_Exchange :: string
  lb_Pairs :: string
  lb_Account :: string
  lb_BlockNumber :: u64
  lb_Liquidity :: string

record MgoVolumeHistory =
  mh_Key :: string
  mh_Exchange :: string
  mh_Pairs :: string
  mh_Account :: string
  mh_CoinAmount :: string
  mh_TokenAmount :: string
  mh_BlockNumber :: u64
  mh_Timestamp :: u64
  mh_TxHash :: string
  mh_LogType :: string
  mh_LogIndex :: int

text \<open>
  The key of a distribution record is an object id made by the database driver when it is
  added, so it is not a field the program sets.
\<close>

record MgoDistributeInfo =
  di_Exchange :: string
  di_Pairs :: string
  di_ByWhat :: string
  di_Start :: u64
  di_End :: u64
  di_RewardToken :: string
  di_Rewards :: string
  di_SampleHeight :: u64
  di_Timestamp :: u64

record MgoVolumeRewardResult =
  vr_Key :: string
  vr_Exchange :: string
  vr_Pairs :: string
  vr_Start :: u64
  vr_End :: u64
  vr_RewardToken :: string
  vr_Account :: string
  vr_Reward :: string
  vr_Volume :: string
  vr_TxCount :: u64
  vr_RewardTx :: string
  vr_Timestamp :: u64

record MgoLiquidRewardResult =
  lr_Key :: string
  lr_Exchange :: string
  lr_Pairs :: string
  lr_Start :: u64
  lr_End :: u64
  lr_RewardToken :: string
  lr_Account :: string
  lr_Reward :: string
  lr_Liquidity :: string
  lr_Height :: u64
  lr_RewardTx :: string
  lr_Timestamp :: u64

section \<open>Keys\<close>

definition GetKeyOfRewardResult :: "string \<Rightarrow> string \<Rightarrow> u64 \<Rightarrow> string" where
  "GetKeyOfRewardResult exchange account start =
     ToLower (exchange @ '':'' @ account @ '':'' @ fmt_u64 start)"

definition GetKeyOfExchangeAndAccount :: "string \<Rightarrow> string \<Rightarrow> string" where
  "GetKeyOfExchangeAndAccount exchange account = ToLower (exchange @ '':'' @ account)"

definition GetKeyOfTokenAndAccount :: "string \<Rightarrow> string \<Rightarrow> string" where
  "GetKeyOfTokenAndAccount token account = ToLower (token @ '':'' @ account)"

definition GetKeyOfExchangeAndTimestamp :: "string \<Rightarrow> u64 \<Rightarrow> string" where
  "GetKeyOfExchangeAndTimestamp exchange timestamp = ToLower (exchange @ '':'' @ fmt_u64 timestamp)"

definition GetKeyOfLiquidityBalance :: "string \<Rightarrow> string \<Rightarrow> u64 \<Rightarrow> string" where
  "GetKeyOfLiquidityBalance exchange account blockNumber =
     ToLower (exchange @ '':'' @ account @ '':'' @ fmt_u64 blockNumber)"

definition GetKeyOfVolumeHistory :: "string \<Rightarrow> int \<Rightarrow> string" where
  "GetKeyOfVolumeHistory txhash logIndex = txhash @ '':'' @ big_String logIndex"

section \<open>Keys identify documents\<close>

text \<open>
  The contract every key function promises to the collections: on valid components, equal
  keys come from components that agree up to the case folding the keys apply.
\<close>

locale key_scheme =
  fixes key :: "'a \<Rightarrow> string"
    and valid :: "'a \<Rightarrow> bool"
    and norm :: "'a \<Rightarrow> 'b"
  assumes key_eq_norm: "valid x \<Longrightarrow> valid y \<Longrightarrow> key x = key y \<Longrightarrow> norm x = norm y"
    and norm_eq_key: "valid x \<Longrightarrow> valid y \<Longrightarrow> norm x = norm y \<Longrightarrow> key x = key y"
begin

lemma key_eq_iff: "valid x \<Longrightarrow> valid y \<Longrightarrow> key x = key y \<longleftrightarrow> norm x = norm y"
  using key_eq_norm norm_eq_key by blast

lemma distinct_keys:
  assumes "\<And>x. x \<in> set xs \<Longrightarrow> valid x" and "distinct (map norm xs)"
  shows "distinct (map key xs)"
proof -
  have "inj_on key (set xs)"
  proof (rule inj_onI)
    fix x y assume "x \<in> set xs" "y \<in> set xs" "key x = key y"
    with assms(1) have "norm x = norm y" by (blast intro: key_eq_norm)
    with \<open>x \<in> set xs\<close> \<open>y \<in> set xs\<close> assms(2) show "x = y"
      by (simp add: distinct_map inj_on_def)
  qed
  with assms(2) show ?thesis by (simp add: distinct_map)
qed

lemma no_overwrite:
  assumes "valid x" "valid y" "norm x \<noteq> norm y"
  shows "(m(key x \<mapsto> d)) (key y) = m (key y)"
proof -
  have "key x \<noteq> key y" using assms by (blast dest: key_eq_norm)
  then show ?thesis by simp
qed

end

text \<open>A component without the separator \<open>':'\<close>.\<close>

definition colon_free :: "string \<Rightarrow> bool" where
  "colon_free s \<longleftrightarrow> CHR '':'' \<notin> set s"

lemma lower_char_colon [simp]: "lower_char c = CHR '':'' \<longleftrightarrow> c = CHR '':''"
proof
  assume l: "lower_char c = CHR '':''"
  show "c = CHR '':''"
  proof (cases "65 \<le> (of_char c :: nat) \<and> (of_char c :: nat) \<le> 90")
    case True
    then have "(of_char (lower_char c) :: nat) = of_char c + 32"
      by (simp add: lower_char_def Let_def)
    with l True show ?thesis by simp
  next
    case False
    with l show ?thesis by (auto simp: lower_char_def Let_def split: if_splits)
  qed
qed (simp add: lower_char_def Let_def)

lemma colon_free_ToLower [simp]: "colon_free (ToLower s) \<longleftrightarrow> colon_free s"
  by (induction s) (auto simp: colon_free_def ToLower_Cons eq_commute [of "CHR '':''"])

lemma colon_free_append [simp]: "colon_free (s @ t) \<longleftrightarrow> colon_free s \<and> colon_free t"
  by (simp add: colon_free_def)

lemma colon_free_fmt_u64 [simp]: "colon_free (fmt_u64 n)"
  by (simp add: colon_free_def)

lemma append_colon_inject:
  assumes "colon_free s" "colon_free s'"
  shows "s @ CHR '':'' # t = s' @ CHR '':'' # t' \<longleftrightarrow> s = s' \<and> t = t'"
  using assms
proof (induction s arbitrary: s')
  case Nil
  then show ?case by (cases s') (auto simp: colon_free_def)
next
  case (Cons c s)
  then show ?case by (cases s') (auto simp: colon_free_def)
qed

lemma ToLower_colon [simp]: "ToLower (CHR '':'' # s) = CHR '':'' # ToLower s"
  by (simp add: ToLower_def)

interpretation reward_key: key_scheme
  "\<lambda>(exchange, account, start). GetKeyOfRewardResult exchange account start"
  "\<lambda>(exchange, account, start). colon_free exchange \<and> colon_free account"
  "\<lambda>(exchange, account, start). (ToLower exchange, ToLower account, start)"
  by unfold_locales (auto simp: GetKeyOfRewardResult_def append_colon_inject)

interpretation balance_key: key_scheme
  "\<lambda>(exchange, account, blockNumber). GetKeyOfLiquidityBalance exchange account blockNumber"
  "\<lambda>(exchange, account, blockNumber). colon_free exchange \<and> colon_free account"
  "\<lambda>(exchange, account, blockNumber). (ToLower exchange, ToLower account, blockNumber)"
  by unfold_locales (auto simp: GetKeyOfLiquidityBalance_def append_colon_inject)

interpretation account_key: key_scheme
  "\<lambda>(exchange, account). GetKeyOfExchangeAndAccount exchange account"
  "\<lambda>(exchange, account). colon_free exchange"
  "\<lambda>(exchange, account). (ToLower exchange, ToLower account)"
  by unfold_locales (auto simp: GetKeyOfExchangeAndAccount_def append_colon_inject)

interpretation token_key: key_scheme
  "\<lambda>(token, account). GetKeyOfTokenAndAccount token account"
  "\<lambda>(token, account). colon_free token"
  "\<lambda>(token, account). (ToLower token, ToLower account)"
  by unfold_locales (auto simp: GetKeyOfTokenAndAccount_def append_colon_inject)

interpretation day_key: key_scheme
  "\<lambda>(exchange, timestamp). GetKeyOfExchangeAndTimestamp exchange timestamp"
  "\<lambda>(exchange, timestamp). colon_free exchange"
  "\<lambda>(exchange, timestamp). (ToLower exchange, timestamp)"
  by unfold_locales (auto simp: GetKeyOfExchangeAndTimestamp_def append_colon_inject)

interpretation history_key: key_scheme
  "\<lambda>(txhash, logIndex). GetKeyOfVolumeHistory txhash logIndex"
  "\<lambda>(txhash, logIndex). colon_free txhash"
  "\<lambda>(txhash, logIndex). (txhash, logIndex)"
  by unfold_locales (auto simp: GetKeyOfVolumeHistory_def append_colon_inject)

end
