(* ===== verification/World.thy ===== *)
theory World
  imports Tables
begin

text \<open>
  Everything the program calls that is not under src/: the Ethereum client and the chain
  library (\<open>github.com/fsn-dev/fsn-go-sdk\<close>), the MongoDB driver (\<open>gopkg.in/mgo.v2\<close>), the key
  store, the files, the clock and the pseudo random generator. None of it is defined here. It
  is the record \<open>env\<close>, an argument of every definition that uses it; a property that relies on
  documented behaviour of this code states it as a hypothesis on \<open>env\<close>.

  The state of the outside world is its history: the list of the calls made so far, oldest
  first. A function of \<open>env\<close> that answers a call takes that history, so an answer may depend on
  anything that was done before, may differ between two equal calls, and may be an error.
  Every call, whatever it answers, is appended to the history; writes are recorded with their
  outcome. The properties about what the program does to the outside (which transactions it
  broadcasts, what it stores) are statements about the history.
\<close>

section \<open>Data of the chain library\<close>

text \<open>A block header: the fields the program reads, and the rest of its encoding.\<close>

record Header =
  h_Number :: int
  h_Time :: int
  h_Rest :: "byte list"

text \<open>The arguments of \<open>types.NewTransaction\<close>, and a transaction with its signature.\<close>

record RawTx =
  rt_Nonce :: u64
  rt_To :: address
  rt_Amount :: int
  rt_GasLimit :: u64
  rt_GasPrice :: int
  rt_Data :: "byte list"

datatype SignedTx = SignedTx (raw_of: RawTx) (signature_of: "byte list")

record SyncProgress =
  sp_CurrentBlock :: u64
  sp_HighestBlock :: u64

text \<open>Logs, receipts, transactions and blocks as the syncer reads them.\<close>

record Log =
  rl_Address :: address
  rl_Topics :: "hash list"
  rl_Data :: "byte list"
  rl_Removed :: bool

record Receipt =
  rc_Status :: u64
  rc_GasUsed :: u64
  rc_Logs :: "Log list"

record Transaction =
  tx_Hash :: hash
  tx_Nonce :: u64
  tx_To :: "address option"
  tx_Value :: int
  tx_Gas :: u64
  tx_GasPrice :: int
  tx_Sender :: address

record Block =
  bk_Hash :: hash
  bk_Number :: u64
  bk_ParentHash :: hash
  bk_Nonce :: u64
  bk_Coinbase :: address
  bk_Difficulty :: int
  bk_GasLimit :: u64
  bk_GasUsed :: u64
  bk_Time :: int
  bk_Transactions :: "Transaction list"

section \<open>Documents and events\<close>

text \<open>A pause (\<open>EvSleep\<close>) is in milliseconds.\<close>

datatype mgo_doc =
    DocSyncInfo MgoSyncInfo
  | DocBlock MgoBlock
  | DocTransaction MgoTransaction
  | DocLiquidity MgoLiquidity
  | DocVolume MgoVolume
  | DocVolumeHistory MgoVolumeHistory
  | DocAccount MgoAccount
  | DocTokenAccount MgoTokenAccount
  | DocLiquidityBalance MgoLiquidityBalance
  | DocDistributeInfo MgoDistributeInfo
  | DocVolumeRewardResult MgoVolumeRewardResult
  | DocLiquidRewardResult MgoLiquidRewardResult

datatype collection =
    tbSyncInfo | tbBlocks | tbTransactions | tbLiquidity | tbVolume | tbVolumeHistory
  | tbAccounts | tbTokenAccounts | tbLiquidityBalance | tbDistributeInfo
  | tbVolumeRewardResult | tbLiquidRewardResult

datatype bson = BStr string | BNum u64

type_synonym bson_M = "(string \<times> bson) list"

datatype event =
    EvHeaderByNumber "int option"
  | EvBalanceAt address "int option"
  | EvCallContract address "byte list" "int option"
  | EvPendingNonceAt address
  | EvSendTransaction SignedTx "error option"
  | EvNetworkID
  | EvSuggestGasPrice
  | EvSyncProgress
  | EvBlockByNumber int
  | EvTransactionReceipt hash
  | EvInsert mgo_doc "error option"
  | EvUpsertId string mgo_doc "error option"
  | EvUpdateId collection string bson_M "error option"
  | EvFind collection string
  | EvOpenFile string
  | EvCreateFile string "error option"
  | EvWrite string string "error option"
  | EvDialServer string "error option"
  | EvDialMongo "error option"
  | EvCloseSession nat
  | EvRefreshSession nat
  | EvPing
  | EvEnsureIndex collection "string list"
  | EvSleep nat
  | EvNow

type_synonym world = "event list"

section \<open>The functions of the libraries\<close>

text \<open>
  The pure ones. \<open>pkg_common\<close> functions keep their names; \<open>rand_Intn seed n\<close> is the value that
  \<open>rand.Intn(n)\<close> returns right after \<open>rand.Seed(seed)\<close>, for positive \<open>n\<close>.
\<close>

record extlib =
  IsHexAddress :: "string \<Rightarrow> bool"
  HexToAddress :: "string \<Rightarrow> address"
  Address_String :: "address \<Rightarrow> string"
  Address_Bytes :: "address \<Rightarrow> byte list"
  Address_Hash_Bytes :: "address \<Rightarrow> byte list"
  BytesToAddress :: "byte list \<Rightarrow> address"
  Hash_Hex :: "hash \<Rightarrow> string"
  Hash_Bytes :: "hash \<Rightarrow> byte list"
  HexToHash :: "string \<Rightarrow> hash"
  BigToHash :: "int \<Rightarrow> hash"
  FromHex :: "string \<Rightarrow> byte list"
  LeftPadBytes :: "byte list \<Rightarrow> nat \<Rightarrow> byte list"
  GetData :: "byte list \<Rightarrow> u64 \<Rightarrow> u64 \<Rightarrow> byte list"
  GetBigInt :: "byte list \<Rightarrow> u64 \<Rightarrow> u64 \<Rightarrow> int"
  GetUint64 :: "byte list \<Rightarrow> u64 \<Rightarrow> u64 \<Rightarrow> u64 \<times> bool"
  Keccak256Hash :: "byte list \<Rightarrow> hash"
  Header_Hash :: "Header \<Rightarrow> hash"
  SignTx :: "RawTx \<Rightarrow> int \<Rightarrow> byte list \<Rightarrow> error + byte list"
  SignedTx_Hash :: "SignedTx \<Rightarrow> hash"
  DecryptKey :: "string \<Rightarrow> string \<Rightarrow> error + (address \<times> byte list)"
  rand_Intn :: "64 word \<Rightarrow> nat \<Rightarrow> nat"

text \<open>
  The ones that act on the world. A \<open>Ping\<close> that panics is \<open>None\<close>. A file that is read is the list of the byte slices that
  successive \<open>bufio.Reader.ReadLine\<close> calls return before \<open>io.EOF\<close>.
\<close>

record DialInfo =
  dl_Addrs :: "string list"
  dl_Database :: string
  dl_Username :: string
  dl_Password :: string

record env = extlib +
  HeaderByNumber :: "world \<Rightarrow> int option \<Rightarrow> error + Header"
  BalanceAt :: "world \<Rightarrow> address \<Rightarrow> int option \<Rightarrow> error + int"
  CallContract_rpc :: "world \<Rightarrow> address \<Rightarrow> byte list \<Rightarrow> int option \<Rightarrow> error + byte list"
  PendingNonceAt :: "world \<Rightarrow> address \<Rightarrow> error + u64"
  SendTransaction_rpc :: "world \<Rightarrow> SignedTx \<Rightarrow> error option"
  NetworkID :: "world \<Rightarrow> error + int"
  SuggestGasPrice_rpc :: "world \<Rightarrow> error + int"
  SyncProgress_rpc :: "world \<Rightarrow> error + SyncProgress option"
  BlockByNumber :: "world \<Rightarrow> int \<Rightarrow> error + Block"
  TransactionReceipt :: "world \<Rightarrow> hash \<Rightarrow> error + Receipt option"
  Insert :: "world \<Rightarrow> mgo_doc \<Rightarrow> error option"
  UpsertId :: "world \<Rightarrow> string \<Rightarrow> mgo_doc \<Rightarrow> error option"
  UpdateId :: "world \<Rightarrow> collection \<Rightarrow> string \<Rightarrow> bson_M \<Rightarrow> error option"
  FindId_SyncInfo :: "world \<Rightarrow> string \<Rightarrow> error + MgoSyncInfo"
  FindId_Liquidity :: "world \<Rightarrow> string \<Rightarrow> error + MgoLiquidity"
  FindId_Volume :: "world \<Rightarrow> string \<Rightarrow> error + MgoVolume"
  FindId_LiquidityBalance :: "world \<Rightarrow> string \<Rightarrow> error + MgoLiquidityBalance"
  FindId_VolumeRewardResult :: "world \<Rightarrow> string \<Rightarrow> error + MgoVolumeRewardResult"
  FindId_LiquidRewardResult :: "world \<Rightarrow> string \<Rightarrow> error + MgoLiquidRewardResult"
  Find_Blocks :: "world \<Rightarrow> u64 \<Rightarrow> u64 \<Rightarrow> error + MgoBlock list"
  Find_LatestLiquidity :: "world \<Rightarrow> string \<Rightarrow> error + MgoLiquidity"
  Find_LatestVolume :: "world \<Rightarrow> string \<Rightarrow> error + MgoVolume"
  Find_Accounts :: "world \<Rightarrow> string \<Rightarrow> MgoAccount list"
  Find_TokenAccounts :: "world \<Rightarrow> string \<Rightarrow> MgoTokenAccount list"
  Find_VolumeHistory :: "world \<Rightarrow> string \<Rightarrow> bool \<Rightarrow> u64 \<Rightarrow> u64 \<Rightarrow> MgoVolumeHistory list"
  ReadFile_Lines :: "world \<Rightarrow> string \<Rightarrow> error + string list"
  CreateFile :: "world \<Rightarrow> string \<Rightarrow> error option"
  WriteFile :: "world \<Rightarrow> string \<Rightarrow> string \<Rightarrow> error option"
  Now_Unix :: "world \<Rightarrow> u64"
  ReadFile :: "world \<Rightarrow> string \<Rightarrow> error + string"
  DialServer_rpc :: "world \<Rightarrow> string \<Rightarrow> error option"
  DialWithInfo :: "world \<Rightarrow> DialInfo \<Rightarrow> error option"
  Ping :: "world \<Rightarrow> error option option"

section \<open>What a run appends to the history\<close>

text \<open>
  \<open>adds P w w'\<close>: the run from \<open>w\<close> to \<open>w'\<close> appended only events that satisfy \<open>P\<close>.
\<close>

definition adds :: "(event \<Rightarrow> bool) \<Rightarrow> world \<Rightarrow> world \<Rightarrow> bool" where
  "adds P w w' \<longleftrightarrow> (\<exists>es. w' = w @ es \<and> (\<forall>e \<in> set es. P e))"

lemma adds_refl [simp, intro]: "adds P w w"
  by (simp add: adds_def)

lemma adds_trans [trans]: "adds P w w' \<Longrightarrow> adds P w' w'' \<Longrightarrow> adds P w w''"
  by (auto simp: adds_def)

lemma adds_append [simp]: "adds P w (w @ es) \<longleftrightarrow> (\<forall>e \<in> set es. P e)"
  by (simp add: adds_def)

lemma adds_snoc: "adds P w w' \<Longrightarrow> P e \<Longrightarrow> adds P w (w' @ [e])"
  by (auto simp: adds_def)

lemma adds_mono: "adds P w w' \<Longrightarrow> (\<And>e. P e \<Longrightarrow> Q e) \<Longrightarrow> adds Q w w'"
  by (auto simp: adds_def)

lemma adds_filter: "adds P w w' \<Longrightarrow> (\<And>e. P e \<Longrightarrow> \<not> Q e) \<Longrightarrow> filter Q w' = filter Q w"
  by (auto simp: adds_def filter_empty_conv)

lemma adds_mapfilter:
  "adds P w w' \<Longrightarrow> (\<And>e. P e \<Longrightarrow> f e = None) \<Longrightarrow> List.map_filter f w' = List.map_filter f w"
  by (auto simp: adds_def map_filter_def filter_empty_conv)

text \<open>The transactions accepted by the network during a run, in order.\<close>

fun sent_tx :: "event \<Rightarrow> RawTx option" where
  "sent_tx (EvSendTransaction tx None) = Some (raw_of tx)"
| "sent_tx _ = None"

definition sent :: "world \<Rightarrow> RawTx list" where
  "sent w = List.map_filter sent_tx w"

lemma sent_append [simp]: "sent (w @ es) = sent w @ sent es"
  by (simp add: sent_def map_filter_def)

lemma sent_Nil [simp]: "sent [] = []"
  by (simp add: sent_def map_filter_def)

lemma sent_Cons [simp]: "sent (e # es) = (case sent_tx e of None \<Rightarrow> sent es | Some t \<Rightarrow> t # sent es)"
  by (simp add: sent_def map_filter_def split: option.split)

fun is_send :: "event \<Rightarrow> bool" where
  "is_send (EvSendTransaction _ _) = True"
| "is_send _ = False"

lemma sent_tx_not_send: "\<not> is_send e \<Longrightarrow> sent_tx e = None"
  by (cases e rule: is_send.cases) auto

lemma adds_sent: "adds (\<lambda>e. \<not> is_send e) w w' \<Longrightarrow> sent w' = sent w"
  unfolding sent_def by (erule adds_mapfilter) (rule sent_tx_not_send)


section \<open>Actions that append only certain events\<close>

text \<open>
  An action takes the history and returns a result with the extended history, or does not
  return. \<open>only P f\<close>: whenever \<open>f\<close> returns, it appended only events that satisfy \<open>P\<close>. The rules
  follow the constructs of the definitions; \<open>adds_intros\<close> collects the facts on operations.
\<close>

type_synonym 'a action = "world \<Rightarrow> ('a \<times> world) option"

definition only :: "(event \<Rightarrow> bool) \<Rightarrow> 'a action \<Rightarrow> bool" where
  "only P f \<longleftrightarrow> (\<forall>w r w'. f w = Some (r, w') \<longrightarrow> adds P w w')"

lemma onlyI: "(\<And>w r w'. f w = Some (r, w') \<Longrightarrow> adds P w w') \<Longrightarrow> only P f"
  by (simp add: only_def)

lemma onlyD: "only P f \<Longrightarrow> f w = Some (r, w') \<Longrightarrow> adds P w w'"
  by (simp add: only_def)

text \<open>For a loop: a run of its body appends what the body appends, if the recursive call does.\<close>

lemma only_body: "f w = Some y \<Longrightarrow> only P f \<Longrightarrow> adds P w (snd y)"
  by (cases y) (auto dest: onlyD)

lemma only_rec: "(\<And>w y. f w = Some y \<Longrightarrow> adds P w (snd y)) \<Longrightarrow> only P f"
  by (rule onlyI) force

lemma only_mono: "only P f \<Longrightarrow> (\<And>e. P e \<Longrightarrow> Q e) \<Longrightarrow> only Q f"
  unfolding only_def by (blast intro: adds_mono)

lemma only_return: "only P (\<lambda>w. Some (x w, w))"
  by (simp add: only_def)

lemma only_None: "only P (\<lambda>w. None)"
  by (simp add: only_def)

lemma only_event: "(\<And>w. P (e w)) \<Longrightarrow> only P (\<lambda>w. Some (x w, w @ [e w]))"
  by (simp add: only_def)

lemma only_bind: "only P f \<Longrightarrow> (\<And>x. only P (g x)) \<Longrightarrow> only P (\<lambda>w. f w \<bind> (\<lambda>(x, w). g x w))"
  unfolding only_def by (force split: Option.bind_splits intro: adds_trans)

lemma only_bind_pure: "(\<And>x. only P (g x)) \<Longrightarrow> only P (\<lambda>w. m w \<bind> (\<lambda>x. g x w))"
  unfolding only_def by (force split: Option.bind_splits)

lemma only_if: "only P f \<Longrightarrow> only P g \<Longrightarrow> only P (\<lambda>w. if b w then f w else g w)"
  by (simp add: only_def)

lemma only_let: "(\<And>x. only P (f x)) \<Longrightarrow> only P (\<lambda>w. let x = v w in f x w)"
  by (simp add: only_def Let_def)

lemma only_after: "(\<And>w. P (e w)) \<Longrightarrow> only P f \<Longrightarrow> only P (\<lambda>w. f (w @ [e w]))"
  unfolding only_def by (metis adds_append adds_trans list.set_intros(1) set_ConsD empty_iff empty_set)

lemma only_let_world: "(\<And>w. P (e w)) \<Longrightarrow> only P f \<Longrightarrow> only P (\<lambda>w. let w = w @ [e w] in f w)"
  unfolding Let_def by (rule only_after)

lemma only_case_option:
  "only P f \<Longrightarrow> (\<And>x. only P (g x)) \<Longrightarrow> only P (\<lambda>w. case m w of None \<Rightarrow> f w | Some x \<Rightarrow> g x w)"
  by (simp add: only_def split: option.split)

lemma only_case_sum:
  "(\<And>x. only P (f x)) \<Longrightarrow> (\<And>x. only P (g x)) \<Longrightarrow> only P (\<lambda>w. case m w of Inl x \<Rightarrow> f x w | Inr x \<Rightarrow> g x w)"
  by (simp add: only_def split: sum.split)

lemma only_case_prod: "(\<And>a b. only P (f a b)) \<Longrightarrow> only P (\<lambda>w. case p w of (a, b) \<Rightarrow> f a b w)"
  by (simp add: only_def split: prod.split)

lemma only_case_prod': "(\<And>a b. only P (f a b)) \<Longrightarrow> only P (case p of (a, b) \<Rightarrow> f a b)"
  by (simp split: prod.split)

lemma only_case_list:
  "only P f \<Longrightarrow> (\<And>x xs. only P (g x xs)) \<Longrightarrow> only P (\<lambda>w. case m w of [] \<Rightarrow> f w | x # xs \<Rightarrow> g x xs w)"
  by (simp add: only_def split: list.split)

lemmas only_rules = only_let_world only_return only_None only_event only_bind only_case_option
  only_case_sum only_if only_let only_case_prod only_case_prod' only_case_list

text \<open>An action that never broadcasts a transaction, not even an attempt.\<close>

abbreviation silent :: "'a action \<Rightarrow> bool" where
  "silent f \<equiv> only (\<lambda>e. \<not> is_send e) f"

lemma silent_sent: "silent f \<Longrightarrow> f w = Some (r, w') \<Longrightarrow> sent w' = sent w"
  by (blast dest: onlyD intro: adds_sent)

section \<open>Actions that always return\<close>

definition returning :: "'a action \<Rightarrow> bool" where
  "returning f \<longleftrightarrow> (\<forall>w. f w \<noteq> None)"

lemma returning_return: "returning (\<lambda>w. Some (x, w))"
  by (simp add: returning_def)

lemma returning_bind:
  "returning f \<Longrightarrow> (\<And>x. returning (g x)) \<Longrightarrow> returning (\<lambda>w. f w \<bind> (\<lambda>(x, w). g x w))"
  unfolding returning_def by (force split: Option.bind_splits)

lemma returning_bind_pure: "m \<noteq> None \<Longrightarrow> (\<And>x. returning (g x)) \<Longrightarrow> returning (\<lambda>w. m \<bind> (\<lambda>x. g x w))"
  unfolding returning_def by auto

lemma returning_if: "returning f \<Longrightarrow> returning g \<Longrightarrow> returning (\<lambda>w. if b then f w else g w)"
  by (simp add: returning_def)

lemma returning_case_option:
  "returning f \<Longrightarrow> (\<And>x. returning (g x)) \<Longrightarrow> returning (\<lambda>w. case m of None \<Rightarrow> f w | Some x \<Rightarrow> g x w)"
  by (simp add: returning_def split: option.split)

lemma returning_let: "(\<And>x. returning (g x)) \<Longrightarrow> returning (\<lambda>w. let x = v in g x w)"
  by (simp add: Let_def)

lemma returning_case_prod:
  "(\<And>a b. returning (f a b)) \<Longrightarrow> returning (\<lambda>w. case p of (a, b) \<Rightarrow> f a b w)"
  "(\<And>a b. returning (f a b)) \<Longrightarrow> returning (case p of (a, b) \<Rightarrow> f a b)"
  by (cases p; simp)+

lemma returning_cond:
  "(b \<Longrightarrow> returning f) \<Longrightarrow> (\<not> b \<Longrightarrow> returning g) \<Longrightarrow> returning (\<lambda>w. if b then f w else g w)"
  by (cases b) simp_all

lemmas returning_rules = returning_return returning_bind returning_bind_pure returning_if returning_case_option
  returning_let returning_case_prod

section \<open>A concrete world\<close>

text \<open>
  An instance of the parameters on which the hypotheses of properties can be evaluated: every
  write succeeds, every query finds nothing, the chain has one block per 13 seconds and height
  1000, and addresses are written in decimal.
\<close>

definition base_header :: "int option \<Rightarrow> Header" where
  "base_header n = (let k = (case n of None \<Rightarrow> 1000 | Some k \<Rightarrow> k)
     in \<lparr>h_Number = k, h_Time = 13 * k, h_Rest = []\<rparr>)"

definition decimal :: "string \<Rightarrow> int" where
  "decimal s = int (foldl (\<lambda>a c. a * 10 + ((of_char c :: nat) - 48)) 0 s)"

text \<open>Big-endian bytes of a number, and the number of bytes.\<close>

definition to_bytes :: "nat \<Rightarrow> int \<Rightarrow> byte list" where
  "to_bytes n x = map (\<lambda>i. word_of_int (x div 256 ^ i)) (rev [0..<n])"

definition of_bytes :: "byte list \<Rightarrow> int" where
  "of_bytes bs = foldl (\<lambda>a b. a * 256 + uint b) 0 bs"

definition base_env :: env where
  "base_env = \<lparr>
     IsHexAddress = (\<lambda>s. s \<noteq> []),
     HexToAddress = (\<lambda>s. word_of_int (decimal s)),
     Address_String = (\<lambda>a. nat_digits (unat a)),
     Address_Bytes = (\<lambda>a. to_bytes 20 (uint a)),
     Address_Hash_Bytes = (\<lambda>a. replicate 12 0 @ to_bytes 20 (uint a)),
     BytesToAddress = (\<lambda>bs. word_of_int (of_bytes bs)),
     Hash_Hex = (\<lambda>h. nat_digits (unat h)),
     Hash_Bytes = (\<lambda>h. to_bytes 32 (uint h)),
     HexToHash = (\<lambda>s. word_of_int (decimal s)),
     BigToHash = word_of_int,
     FromHex = (\<lambda>s. map of_char s),
     LeftPadBytes = (\<lambda>bs n. replicate (n - length bs) 0 @ bs),
     GetData = (\<lambda>bs start size. let bs' = take (unat size) (drop (unat start) bs)
        in bs' @ replicate (unat size - length bs') 0),
     GetBigInt = (\<lambda>bs start size. of_bytes (take (unat size) (drop (unat start) bs))),
     GetUint64 = (\<lambda>bs start size.
        let v = of_bytes (take (unat size) (drop (unat start) bs))
        in (word_of_int v, 18446744073709551616 \<le> v)),
     Keccak256Hash = (\<lambda>bs. word_of_int (of_bytes bs)),
     Header_Hash = (\<lambda>h. word_of_int (h_Number h)),
     SignTx = (\<lambda>tx chain key. Inr key),
     SignedTx_Hash = (\<lambda>tx. ucast (rt_Nonce (raw_of tx))),
     DecryptKey = (\<lambda>json passwd. Inr (1, [])),
     rand_Intn = (\<lambda>seed n. unat seed mod n),
     HeaderByNumber = (\<lambda>w n. case n of
        None \<Rightarrow> Inr (base_header n)
      | Some k \<Rightarrow> if k \<le> 1000 then Inr (base_header n) else Inl ErrNotFound),
     BalanceAt = (\<lambda>w a n. Inr 1000),
     CallContract_rpc = (\<lambda>w a d n. Inr (replicate 31 0 @ [100])),
     PendingNonceAt = (\<lambda>w a. Inr (of_nat (length (sent w)))),
     SendTransaction_rpc = (\<lambda>w tx. None),
     NetworkID = (\<lambda>w. Inr 32659),
     SuggestGasPrice_rpc = (\<lambda>w. Inr 1),
     SyncProgress_rpc = (\<lambda>w. Inr None),
     BlockByNumber = (\<lambda>w n. Inl ErrNotFound),
     TransactionReceipt = (\<lambda>w h. Inl ErrNotFound),
     Insert = (\<lambda>w d. None),
     UpsertId = (\<lambda>w k d. None),
     UpdateId = (\<lambda>w c k u. None),
     FindId_SyncInfo = (\<lambda>w k. Inl ErrNotFound),
     FindId_Liquidity = (\<lambda>w k. Inl ErrNotFound),
     FindId_Volume = (\<lambda>w k. Inl ErrNotFound),
     FindId_LiquidityBalance = (\<lambda>w k. Inl ErrNotFound),
     FindId_VolumeRewardResult = (\<lambda>w k. Inl ErrNotFound),
     FindId_LiquidRewardResult = (\<lambda>w k. Inl ErrNotFound),
     Find_Blocks = (\<lambda>w a b. Inr []),
     Find_LatestLiquidity = (\<lambda>w x. Inl ErrNotFound),
     Find_LatestVolume = (\<lambda>w x. Inl ErrNotFound),
     Find_Accounts = (\<lambda>w x. []),
     Find_TokenAccounts = (\<lambda>w x. []),
     Find_VolumeHistory = (\<lambda>w x t a b. []),
     ReadFile_Lines = (\<lambda>w f. Inr []),
     CreateFile = (\<lambda>w f. None),
     WriteFile = (\<lambda>w f t. None),
     Now_Unix = (\<lambda>w. 1600000000),
     ReadFile = (\<lambda>w f. Inr []),
     DialServer_rpc = (\<lambda>w url. None),
     DialWithInfo = (\<lambda>w info. None),
     Ping = (\<lambda>w. Some None)\<rparr>"

end
