(* ===== verification/Rewards.thy ===== *)
theory Rewards
  imports World "HOL-Library.Product_Lexorder"
begin

text \<open>
  \<open>mongodb/types.go\<close>: the account statistics and the division of a reward.

  \<^item> \<open>AccountStat\<close> with \<open>Less\<close> and \<open>ConvertToSortedSlice\<close>: the slice that every distribution
    starts from. Go iterates over the map in an arbitrary order and sorts with \<open>sort.Sort\<close>,
    which is not stable; the lemmas show that the result does not depend on either.
  \<^item> \<open>DivideRewards\<close>: shares a reward in proportion, rounding down, and hands the rest out in
    units from the front. The locale \<open>reward_divider\<close> is what its callers rely on.
  \<^item> \<open>CalcRewards\<close>, \<open>CalcRewardsInBatch\<close>, \<open>CalcWeightedRewards\<close>: the callers.
\<close>

section \<open>Statistics and their order\<close>

record AccountStat =
  Account :: address
  Reward :: "int option"
  Share :: "int option"
  Number :: u64

text \<open>
  \<open>Less\<close>: by reward, or by share where one of the two has no reward, in descending order; then
  by the bytes of the address, ascending. Comparing a nil share panics.
\<close>

definition Less :: "AccountStat \<Rightarrow> AccountStat \<Rightarrow> bool option" where
  "Less a b =
     (case (Reward a, Reward b) of
        (Some x, Some y) \<Rightarrow> Some (if x \<noteq> y then x > y else Account a < Account b)
      | _ \<Rightarrow> (case (Share a, Share b) of
               (Some x, Some y) \<Rightarrow> Some (if x \<noteq> y then x > y else Account a < Account b)
             | _ \<Rightarrow> None))"

text \<open>\<open>sort.Sort\<close>, as insertion; a comparison that panics panics the sort.\<close>

fun insert_by :: "('a \<Rightarrow> 'a \<Rightarrow> bool option) \<Rightarrow> 'a \<Rightarrow> 'a list \<Rightarrow> 'a list option" where
  "insert_by lessf x [] = Some [x]"
| "insert_by lessf x (y # ys) =
     (case lessf y x of
        None \<Rightarrow> None
      | Some lt \<Rightarrow> if lt then map_option (Cons y) (insert_by lessf x ys) else Some (x # y # ys))"

fun sort_Sort :: "('a \<Rightarrow> 'a \<Rightarrow> bool option) \<Rightarrow> 'a list \<Rightarrow> 'a list option" where
  "sort_Sort lessf [] = Some []"
| "sort_Sort lessf (x # xs) = do { ys \<leftarrow> sort_Sort lessf xs; insert_by lessf x ys }"

text \<open>The map is the list of its entries in the order of the iteration.\<close>

definition has_share :: "AccountStat \<Rightarrow> bool" where
  "has_share stat = (case Share stat of None \<Rightarrow> False | Some s \<Rightarrow> 0 < s)"

definition ConvertToSortedSlice :: "(address \<times> AccountStat) list \<Rightarrow> AccountStat list option" where
  "ConvertToSortedSlice statMap = sort_Sort Less (filter has_share (map snd statMap))"

section \<open>Sorting by a comparison that may panic\<close>

text \<open>
  The contract of a comparison on the elements the slice holds: it never panics, and it is a
  strict order that is total on elements with different keys.
\<close>

locale strict_sorter =
  fixes lessf :: "'a \<Rightarrow> 'a \<Rightarrow> bool option"
    and dom :: "'a \<Rightarrow> bool"
    and key :: "'a \<Rightarrow> 'k"
  assumes less_defined: "dom x \<Longrightarrow> dom y \<Longrightarrow> lessf x y \<noteq> None"
    and less_irrefl: "dom x \<Longrightarrow> lessf x x \<noteq> Some True"
    and less_trans: "dom x \<Longrightarrow> dom y \<Longrightarrow> dom z \<Longrightarrow> lessf x y = Some True \<Longrightarrow> lessf y z = Some True \<Longrightarrow> lessf x z = Some True"
    and less_total: "dom x \<Longrightarrow> dom y \<Longrightarrow> key x \<noteq> key y \<Longrightarrow> lessf x y = Some True \<or> lessf y x = Some True"
begin

abbreviation before :: "'a \<Rightarrow> 'a \<Rightarrow> bool" where
  "before x y \<equiv> lessf x y = Some True"

lemma insert_by_ok:
  assumes "dom x" "\<forall>y \<in> set ys. dom y \<and> key x \<noteq> key y" "sorted_wrt before ys"
  shows "\<exists>zs. insert_by lessf x ys = Some zs \<and> mset zs = add_mset x (mset ys) \<and> sorted_wrt before zs"
  using assms(2,3)
proof (induction ys)
  case (Cons y ys)
  then obtain zs where zs: "insert_by lessf x ys = Some zs" "mset zs = add_mset x (mset ys)"
      "sorted_wrt before zs" by auto
  have y: "dom y" "key x \<noteq> key y" using Cons.prems by auto
  have set_zs: "set zs = insert x (set ys)" using zs(2) by (metis set_mset_add_mset_insert set_mset_mset)
  show ?case
  proof (cases "before y x")
    case True
    with zs set_zs Cons.prems show ?thesis by auto
  next
    case False
    with y assms(1) have "before x y" "lessf y x = Some False"
      using less_total [of x y] less_defined [of y x] by auto
    moreover have "before x z" if "z \<in> set ys" for z
      using that Cons.prems y assms(1) \<open>before x y\<close> by (auto intro: less_trans [of x y z])
    ultimately show ?thesis using Cons.prems by auto
  qed
qed simp

lemma sort_Sort_ok:
  assumes "\<forall>x \<in> set xs. dom x" "distinct (map key xs)"
  shows "\<exists>ys. sort_Sort lessf xs = Some ys \<and> mset ys = mset xs \<and> sorted_wrt before ys"
  using assms
proof (induction xs)
  case (Cons x xs)
  then obtain ys where ys: "sort_Sort lessf xs = Some ys" "mset ys = mset xs" "sorted_wrt before ys"
    by auto
  have "\<forall>y \<in> set ys. dom y \<and> key x \<noteq> key y"
    using Cons.prems ys(2) by (metis distinct.simps(2) imageI list.set_intros(2) list.set_map list.simps(9) set_mset_mset)
  with Cons.prems insert_by_ok [of x ys] ys show ?case by auto
qed simp

lemma sorted_unique:
  assumes "sorted_wrt before xs" "sorted_wrt before ys" "mset xs = mset ys" "\<forall>x \<in> set xs. dom x"
  shows "xs = ys"
  using assms
proof (induction xs arbitrary: ys)
  case (Cons x xs)
  then obtain y ys' where ys: "ys = y # ys'" by (cases ys) auto
  have "x = y"
  proof (rule ccontr)
    assume "x \<noteq> y"
    with Cons.prems(3) ys have "y \<in> set xs" "x \<in> set ys'"
      by (metis insert_iff list.simps(15) set_mset_mset)+
    with Cons.prems ys have "before x y" "before y x" "dom x" "dom y" by auto
    then show False using less_trans [of x y x] less_irrefl [of x] by auto
  qed
  with Cons ys show ?case by auto
qed simp

lemma sort_Sort_perm:
  assumes "\<forall>x \<in> set xs. dom x" "distinct (map key xs)" "mset xs = mset ys"
  shows "sort_Sort lessf xs = sort_Sort lessf ys"
proof -
  have "set xs = set ys" "distinct (map key ys)"
    using assms by (metis set_mset_mset) (metis assms(2,3) mset_map mset_eq_imp_distinct_iff)
  then obtain us vs where "sort_Sort lessf xs = Some us" "mset us = mset xs" "sorted_wrt before us"
    "sort_Sort lessf ys = Some vs" "mset vs = mset ys" "sorted_wrt before vs"
    using sort_Sort_ok [of xs] sort_Sort_ok [of ys] assms by auto
  moreover have "\<forall>x \<in> set us. dom x" using assms(1) \<open>mset us = mset xs\<close> by (metis set_mset_mset)
  ultimately show ?thesis using sorted_unique [of us vs] assms(3) by simp
qed

end

text \<open>
  The code sorts in two situations: no statistic has a reward yet (ordered by share), or every
  one has (ordered by reward). In both \<open>Less\<close> meets the contract, with the account as key.
\<close>

definition unrewarded :: "AccountStat \<Rightarrow> bool" where
  "unrewarded s \<longleftrightarrow> Reward s = None \<and> Share s \<noteq> None"

definition rewarded :: "AccountStat \<Rightarrow> bool" where
  "rewarded s \<longleftrightarrow> Reward s \<noteq> None \<and> Share s \<noteq> None"

interpretation by_share: strict_sorter Less unrewarded Account
  by unfold_locales (auto simp: Less_def unrewarded_def split: if_splits)

interpretation by_reward: strict_sorter Less rewarded Account
  by unfold_locales (auto simp: Less_def rewarded_def split: if_splits)

text \<open>
  The position of a statistic as a value of an ordered type: a larger amount comes first, then
  the smaller address.
\<close>

datatype stat_rank = Rank int address

instantiation stat_rank :: linorder
begin

fun less_eq_stat_rank :: "stat_rank \<Rightarrow> stat_rank \<Rightarrow> bool" where
  "less_eq_stat_rank (Rank x a) (Rank y b) \<longleftrightarrow> x > y \<or> (x = y \<and> a \<le> b)"

fun less_stat_rank :: "stat_rank \<Rightarrow> stat_rank \<Rightarrow> bool" where
  "less_stat_rank (Rank x a) (Rank y b) \<longleftrightarrow> x > y \<or> (x = y \<and> a < b)"

instance
proof
  fix x y z :: stat_rank
  show "(x < y) = (x \<le> y \<and> \<not> y \<le> x)" by (cases x; cases y) auto
  show "x \<le> x" by (cases x) auto
  show "x \<le> y \<Longrightarrow> y \<le> z \<Longrightarrow> x \<le> z" by (cases x; cases y; cases z) auto
  show "x \<le> y \<Longrightarrow> y \<le> x \<Longrightarrow> x = y" by (cases x; cases y) auto
  show "x \<le> y \<or> y \<le> x" by (cases x; cases y) auto
qed

end

definition share_rank :: "AccountStat \<Rightarrow> stat_rank" where
  "share_rank s = Rank (the (Share s)) (Account s)"

lemma Less_share_rank:
  assumes "unrewarded a" "unrewarded b" "share_rank a \<le> share_rank b" "Account a \<noteq> Account b"
  shows "Less a b = Some True"
  using assms by (auto simp: Less_def unrewarded_def share_rank_def)

lemma sorted_before_iff:
  assumes "\<forall>s \<in> set xs. unrewarded s" "sorted (map share_rank xs)" "distinct (map Account xs)"
  shows "sorted_wrt by_share.before xs"
  using assms
proof (induction xs)
  case (Cons x xs)
  have "Less x y = Some True" if "y \<in> set xs" for y
  proof (rule Less_share_rank)
    show "Account x \<noteq> Account y" using Cons.prems(3) that by auto
  qed (use Cons.prems that in auto)
  with Cons show ?case by simp
qed simp

text \<open>What the sort computes is the library's stable sort by rank.\<close>

lemma sort_Sort_eq_sort_key:
  assumes "\<forall>s \<in> set xs. unrewarded s" "distinct (map Account xs)"
  shows "sort_Sort Less xs = Some (sort_key share_rank xs)"
proof -
  let ?ys = "sort_key share_rank xs"
  have "distinct (map Account ?ys)"
    by (metis assms(2) mset_eq_imp_distinct_iff mset_map mset_sort)
  then have "sorted_wrt by_share.before ?ys"
    using assms by (intro sorted_before_iff) auto
  moreover obtain us where "sort_Sort Less xs = Some us" "mset us = mset xs"
      "sorted_wrt by_share.before us"
    using by_share.sort_Sort_ok [OF assms] by auto
  moreover have "\<forall>s \<in> set us. unrewarded s" using assms(1) \<open>mset us = mset xs\<close> by (metis set_mset_mset)
  ultimately show ?thesis using by_share.sorted_unique [of us ?ys] by simp
qed

section \<open>Dividing a reward\<close>

text \<open>
  Slice lengths fit an \<open>int64\<close>, so the index comparison with the \<open>uint64\<close> remainder is that of
  the numbers. A nil result is \<open>[]\<close>; the result of a positive total share is never empty.
\<close>

definition hand_out :: "int \<Rightarrow> int \<Rightarrow> int list \<Rightarrow> int list" where
  "hand_out avg m rewards =
     map (\<lambda>(i, reward).
       let reward = (if 0 < avg then reward + avg else reward)
       in if int i < m then reward + 1 else reward) (enumerate 0 rewards)"

definition DivideRewards :: "int \<Rightarrow> int list \<Rightarrow> int list" where
  "DivideRewards totalReward totalShareSlice =
     (let sumTotalShare = sum_list totalShareSlice in
      if sumTotalShare \<le> 0 then []
      else
        let rewards = map (\<lambda>share. totalReward * share div sumTotalShare) totalShareSlice;
            sumReward = sum_list rewards
        in if sumReward < totalReward then
             let left = totalReward - sumReward;
                 cnt = int (length rewards)
             in hand_out (left div cnt) (left mod cnt) rewards
           else rewards)"

lemma length_hand_out [simp]: "length (hand_out a m rs) = length rs"
  by (simp add: hand_out_def)

lemma nth_hand_out:
  "i < length rs \<Longrightarrow> hand_out a m rs ! i = rs ! i + (if 0 < a then a else 0) + (if int i < m then 1 else 0)"
  by (simp add: hand_out_def nth_enumerate_eq)

lemma sum_list_indicator:
  "0 \<le> m \<Longrightarrow> m \<le> int n \<Longrightarrow> (\<Sum>i<n. if int i < m then 1 else (0::int)) = m"
proof (induction n arbitrary: m)
  case (Suc n)
  show ?case
  proof (cases "m \<le> int n")
    case True
    with Suc show ?thesis by simp
  next
    case False
    with Suc.prems have m: "m = int n + 1" by simp
    have "(\<Sum>i<n. if int i < m then 1 else (0::int)) = (\<Sum>i<n. 1)"
      by (rule sum.cong) (auto simp: m)
    with m show ?thesis by simp
  qed
qed simp

text \<open>
  With a positive total share, the amount that rounding leaves over is less than the number
  of shares: the average added to every reward is zero, and the first \<open>left\<close> get one unit.
\<close>

definition div_left :: "int \<Rightarrow> int list \<Rightarrow> int" where
  "div_left T ss = T - sum_list (map (\<lambda>s. T * s div sum_list ss) ss)"

lemma sum_list_div_mod:
  "sum_list (map f xs) = sum_list (map (\<lambda>x. f x div c) xs) * (c::int) + sum_list (map (\<lambda>x. f x mod c) xs)"
proof (induction xs)
  case (Cons x xs)
  have "f x = f x div c * c + f x mod c" by simp
  with Cons show ?case unfolding list.map sum_list.Cons by (simp only: distrib_right)
qed simp

lemma div_left_times: "div_left T ss * sum_list ss = sum_list (map (\<lambda>s. T * s mod sum_list ss) ss)"
proof -
  have "sum_list (map (\<lambda>s. T * s) ss) = T * sum_list ss" by (simp add: sum_list_const_mult)
  with sum_list_div_mod [of "\<lambda>s. T * s" ss "sum_list ss"]
  show ?thesis unfolding div_left_def left_diff_distrib by linarith
qed

lemma div_left_bounds:
  assumes "0 < sum_list ss"
  shows "0 \<le> div_left T ss" "div_left T ss < int (length ss)"
proof -
  let ?S = "sum_list ss" and ?m = "map (\<lambda>s. T * s mod sum_list ss) ss"
  have "0 \<le> sum_list ?m" using assms by (intro sum_list_nonneg) auto
  with assms show "0 \<le> div_left T ss"
    by (simp flip: div_left_times add: zero_le_mult_iff)
  have "sum_list ?m < int (length ss) * ?S"
  proof -
    have "ss \<noteq> []" using assms by auto
    then have "sum_list (map f ss) < int (length ss) * c" if "\<And>s. f s < c" for f and c :: int
      using that by (induction ss rule: list_nonempty_induct)
        (auto simp: algebra_simps intro: add_strict_mono)
    then show ?thesis using assms by simp
  qed
  then have "div_left T ss * ?S < int (length ss) * ?S" by (simp add: div_left_times)
  with assms show "div_left T ss < int (length ss)" by (simp add: mult_less_cancel_right)
qed

lemma length_DivideRewards: "0 < sum_list ss \<Longrightarrow> length (DivideRewards T ss) = length ss"
  by (simp add: DivideRewards_def Let_def)

lemma DivideRewards_Nil: "sum_list ss \<le> 0 \<Longrightarrow> DivideRewards T ss = []"
  by (simp add: DivideRewards_def)

lemma nth_DivideRewards:
  assumes S: "0 < sum_list ss" and i: "i < length ss"
  shows "DivideRewards T ss ! i =
    T * (ss ! i) div sum_list ss + (if int i < div_left T ss then 1 else 0)"
proof (cases "div_left T ss = 0")
  case True
  with assms show ?thesis by (simp add: DivideRewards_def Let_def div_left_def)
next
  case False
  let ?rs = "map (\<lambda>s. T * s div sum_list ss) ss"
  have "0 < div_left T ss" "div_left T ss < int (length ss)"
    using div_left_bounds [OF S, of T] False by auto
  then have "DivideRewards T ss = hand_out 0 (div_left T ss) ?rs"
    using S by (simp add: DivideRewards_def Let_def) (simp add: div_left_def)
  with i show ?thesis by (simp add: nth_hand_out)
qed

lemma sum_list_DivideRewards:
  assumes S: "0 < sum_list ss"
  shows "sum_list (DivideRewards T ss) = T"
proof -
  let ?q = "\<lambda>s. T * s div sum_list ss"
  have "sum_list (DivideRewards T ss) = (\<Sum>i<length ss. DivideRewards T ss ! i)"
    using S by (simp add: sum_list_sum_nth length_DivideRewards atLeast0LessThan)
  also have "\<dots> = (\<Sum>i<length ss. ?q (ss ! i)) + (\<Sum>i<length ss. if int i < div_left T ss then 1 else 0)"
    using S by (simp add: nth_DivideRewards sum.distrib)
  also have "(\<Sum>i<length ss. ?q (ss ! i)) = sum_list (map ?q ss)"
    by (simp add: sum_list_sum_nth atLeast0LessThan)
  also have "(\<Sum>i<length ss. if int i < div_left T ss then 1 else (0::int)) = div_left T ss"
    using div_left_bounds [OF S, of T] by (intro sum_list_indicator) auto
  finally show ?thesis by (simp add: div_left_def)
qed

lemma DivideRewards_nonneg:
  assumes "0 \<le> T" "\<And>s. s \<in> set ss \<Longrightarrow> 0 \<le> s" "r \<in> set (DivideRewards T ss)"
  shows "0 \<le> r"
proof -
  have S: "0 < sum_list ss" using assms(3) DivideRewards_Nil [of ss T] by (cases "sum_list ss \<le> 0") auto
  then obtain i where "i < length ss" "r = DivideRewards T ss ! i"
    using assms(3) by (metis in_set_conv_nth length_DivideRewards)
  with S assms show ?thesis by (simp add: nth_DivideRewards pos_imp_zdiv_nonneg_iff)
qed

section \<open>The interface of a reward divider\<close>

text \<open>
  What \<open>CalcRewards\<close>, \<open>CalcWeightedRewards\<close> and the division between exchanges rely on: nothing is
  divided when there is no share, and otherwise every share gets a part and the parts sum up.
\<close>

locale reward_divider =
  fixes divide :: "int \<Rightarrow> int list \<Rightarrow> int list"
  assumes divide_none: "sum_list ss \<le> 0 \<Longrightarrow> divide T ss = []"
    and divide_length: "0 < sum_list ss \<Longrightarrow> length (divide T ss) = length ss"
    and divide_sum: "0 < sum_list ss \<Longrightarrow> sum_list (divide T ss) = T"
    and divide_nonneg: "0 \<le> T \<Longrightarrow> (\<And>s. s \<in> set ss \<Longrightarrow> 0 \<le> s) \<Longrightarrow> r \<in> set (divide T ss) \<Longrightarrow> 0 \<le> r"
begin

lemma divide_length_iff: "length (divide T ss) = length ss \<longleftrightarrow> 0 < sum_list ss \<or> ss = []"
proof (cases "0 < sum_list ss")
  case True
  then show ?thesis by (simp add: divide_length)
next
  case False
  then have "divide T ss = []" by (intro divide_none) simp
  with False show ?thesis by (simp add: eq_commute [of "0::nat"])
qed

lemma divide_le:
  assumes "0 \<le> T" "\<And>s. s \<in> set ss \<Longrightarrow> 0 \<le> s" "r \<in> set (divide T ss)"
  shows "r \<le> T"
proof -
  have "0 < sum_list ss" using assms(3) divide_none [of ss T] by (cases "sum_list ss \<le> 0") auto
  moreover have "r \<le> sum_list (divide T ss)"
    by (rule member_le_sum_list_int [OF assms(3)]) (rule divide_nonneg [OF assms(1,2)])
  ultimately show ?thesis by (simp add: divide_sum)
qed

text \<open>Assigning the parts to the statistics they were computed from distributes exactly \<open>T\<close>.\<close>

lemma assigned_total:
  assumes "0 < sum_list ss" "length stats = length ss"
  shows "deref_all (map Reward (map2 (\<lambda>stat r. stat\<lparr>Reward := Some r\<rparr>) stats (divide T ss)))
    = Some (divide T ss)"
proof -
  have "map Reward (map2 (\<lambda>stat r. stat\<lparr>Reward := Some r\<rparr>) stats rs) = map Some rs"
    if "length stats = length rs" for rs
    using that by (induction stats rs rule: list_induct2) auto
  then show ?thesis using assms by (simp add: divide_length)
qed

end

interpretation share_out: reward_divider DivideRewards
  by unfold_locales (auto simp: DivideRewards_Nil length_DivideRewards sum_list_DivideRewards
      intro: DivideRewards_nonneg)

section \<open>Account existence and totals\<close>

definition stats_IsAccountExist :: "AccountStat list \<Rightarrow> address \<Rightarrow> bool" where
  "stats_IsAccountExist s account \<longleftrightarrow> (\<exists>stat \<in> set s. Account stat = account)"

definition CalcTotalShare :: "AccountStat list \<Rightarrow> int option" where
  "CalcTotalShare s = map_option sum_list (deref_all (map Share s))"

definition CalcTotalReward :: "AccountStat list \<Rightarrow> int option" where
  "CalcTotalReward s = map_option sum_list (deref_all (map Reward s))"

section \<open>The callers\<close>

definition CalcRewards :: "AccountStat list \<Rightarrow> int option \<Rightarrow> AccountStat list option" where
  "CalcRewards s totalReward =
     (case totalReward of
        None \<Rightarrow> Some s
      | Some T \<Rightarrow>
          if s = [] \<or> T \<le> 0 then Some s
          else
            let hasRewardValue = (Reward (hd s) \<noteq> None) in
            (case deref_all (map (if hasRewardValue then Reward else Share) s) of
               None \<Rightarrow> None
             | Some totalShareSlice \<Rightarrow>
                 let rewards = DivideRewards T totalShareSlice in
                 if length rewards \<noteq> length s then Some s
                 else Some (map2 (\<lambda>stat r. stat\<lparr>Reward := Some r\<rparr>) s rewards)))"

definition SumWeightShares :: "AccountStat list \<Rightarrow> u64 \<Rightarrow> int option" where
  "SumWeightShares s weight =
     map_option (\<lambda>shares. sum_list (map (\<lambda>share. share * SetUint64 weight) shares)) (deref_all (map Share s))"

definition CalcRewardsInBatch :: "AccountStat list list \<Rightarrow> int list \<Rightarrow> AccountStat list list option" where
  "CalcRewardsInBatch stats rewards =
     (if rewards = [] then Some stats
      else if length stats \<noteq> length rewards then Some stats
      else deref_all (map2 (\<lambda>stat r. CalcRewards stat (Some r)) stats rewards))"

text \<open>Nil weights (\<open>None\<close>) count every exchange once.\<close>

definition CalcWeightedRewards ::
  "AccountStat list list \<Rightarrow> int \<Rightarrow> u64 list option \<Rightarrow> AccountStat list list option" where
  "CalcWeightedRewards stats totalReward weights =
     (if weights \<noteq> None \<and> length (the weights) \<noteq> length stats then Some stats
      else case stats of
          [] \<Rightarrow> Some stats
        | [stat] \<Rightarrow> map_option (\<lambda>s. [s]) (CalcRewards stat (Some totalReward))
        | _ \<Rightarrow>
            let ws = (case weights of None \<Rightarrow> replicate (length stats) 1 | Some ws \<Rightarrow> ws) in
            (case deref_all (map2 SumWeightShares stats ws) of
               None \<Rightarrow> None
             | Some totalShareSlice \<Rightarrow>
                 CalcRewardsInBatch stats (DivideRewards totalReward totalShareSlice)))"

section \<open>What the callers compute\<close>

text \<open>The amount granted to the accounts of a slice; an account without a reward got nothing.\<close>

definition granted :: "AccountStat list \<Rightarrow> int" where
  "granted s = sum_list (map (\<lambda>stat. case Reward stat of None \<Rightarrow> 0 | Some r \<Rightarrow> r) s)"

lemma granted_simps [simp]:
  "granted [] = 0"
  "granted (stat # s) = (case Reward stat of None \<Rightarrow> 0 | Some r \<Rightarrow> r) + granted s"
  by (simp_all add: granted_def)

text \<open>A slice fresh from the statistics: no reward yet, and the given shares.\<close>

definition fresh_stats :: "AccountStat list \<Rightarrow> int list \<Rightarrow> bool" where
  "fresh_stats s shares \<longleftrightarrow> (\<forall>stat \<in> set s. Reward stat = None) \<and> map Share s = map Some shares"

definition with_rewards :: "AccountStat list \<Rightarrow> int list \<Rightarrow> AccountStat list" where
  "with_rewards s rs = map2 (\<lambda>stat r. stat\<lparr>Reward := Some r\<rparr>) s rs"

lemma fresh_stats_length: "fresh_stats s shares \<Longrightarrow> length s = length shares"
  by (metis fresh_stats_def length_map)

lemma with_rewards_Nil [simp]: "with_rewards [] rs = []" "with_rewards s [] = []"
  by (simp_all add: with_rewards_def)

lemma with_rewards_Cons [simp]:
  "with_rewards (stat # s) (r # rs) = stat\<lparr>Reward := Some r\<rparr> # with_rewards s rs"
  by (simp add: with_rewards_def)

lemma with_rewards_fields:
  assumes "length s = length rs"
  shows "map Account (with_rewards s rs) = map Account s"
    and "map Share (with_rewards s rs) = map Share s"
    and "map Number (with_rewards s rs) = map Number s"
    and "map Reward (with_rewards s rs) = map Some rs"
    and "granted (with_rewards s rs) = sum_list rs"
  using assms by (induction s rs rule: list_induct2) auto

lemma with_rewards_id: "map Reward s = map Some rs \<Longrightarrow> with_rewards s rs = s"
proof (induction s arbitrary: rs)
  case (Cons stat s)
  then obtain r rs' where "rs = r # rs'" "Reward stat = Some r" "map Reward s = map Some rs'"
    by (cases rs) auto
  with Cons.IH show ?case by simp
qed simp

lemma CalcRewards_unfold:
  "CalcRewards s (Some T) =
     (if s = [] \<or> T \<le> 0 then Some s
      else case deref_all (map (if Reward (hd s) \<noteq> None then Reward else Share) s) of
          None \<Rightarrow> None
        | Some shares \<Rightarrow>
            if length (DivideRewards T shares) \<noteq> length s then Some s
            else Some (with_rewards s (DivideRewards T shares)))"
  by (simp add: CalcRewards_def with_rewards_def Let_def split: option.split)

lemma CalcRewards_fresh:
  assumes "fresh_stats s shares"
  shows "CalcRewards s (Some T) =
    Some (if 0 < T \<and> 0 < sum_list shares then with_rewards s (DivideRewards T shares) else s)"
proof (cases "s = []")
  case True
  with assms show ?thesis by (simp add: CalcRewards_unfold)
next
  case False
  then have "Reward (hd s) = None" using assms by (cases s) (auto simp: fresh_stats_def)
  moreover have "map Share s = map Some shares" using assms by (simp add: fresh_stats_def)
  moreover have "length s = length shares" using assms by (rule fresh_stats_length)
  ultimately show ?thesis
    using False share_out.divide_length_iff [of T shares]
    by (auto simp: CalcRewards_unfold)
qed

lemma granted_fresh [simp]: "fresh_stats s shares \<Longrightarrow> granted s = 0"
  by (induction s arbitrary: shares) (auto simp: fresh_stats_def map_eq_Cons_conv Cons_eq_map_conv)

lemma CalcRewards_granted:
  assumes "fresh_stats s shares" "0 < sum_list shares" "0 \<le> T"
  shows "\<exists>s'. CalcRewards s (Some T) = Some s' \<and> granted s' = T \<and> map Account s' = map Account s
    \<and> map Share s' = map Share s"
proof (cases "T = 0")
  case True
  with assms show ?thesis by (simp add: CalcRewards_fresh)
next
  case False
  have "length s = length (DivideRewards T shares)"
    using assms by (simp add: share_out.divide_length fresh_stats_length)
  with False assms show ?thesis
    by (simp add: CalcRewards_fresh with_rewards_fields share_out.divide_sum)
qed

lemma CalcRewardsInBatch_granted:
  assumes "length stats = length rewards"
    and "\<And>i. i < length stats \<Longrightarrow> \<exists>shares. fresh_stats (stats ! i) shares \<and> 0 < sum_list shares"
    and "\<forall>r \<in> set rewards. 0 \<le> r"
  shows "\<exists>stats'. CalcRewardsInBatch stats rewards = Some stats' \<and> map granted stats' = rewards
    \<and> map (map Account) stats' = map (map Account) stats"
proof -
  have "\<exists>stats'. deref_all (map2 (\<lambda>stat r. CalcRewards stat (Some r)) stats rewards) = Some stats'
      \<and> map granted stats' = rewards \<and> map (map Account) stats' = map (map Account) stats"
    using assms
  proof (induction stats rewards rule: list_induct2)
    case (Cons s stats r rewards)
    have "\<exists>shares. fresh_stats (stats ! i) shares \<and> 0 < sum_list shares" if "i < length stats" for i
      using Cons.prems(1) [of "Suc i"] that by simp
    with Cons.IH Cons.prems(2) obtain stats' where
      "deref_all (map2 (\<lambda>stat r. CalcRewards stat (Some r)) stats rewards) = Some stats'"
      "map granted stats' = rewards" "map (map Account) stats' = map (map Account) stats"
      by auto
    moreover from Cons.prems(1) [of 0] Cons.prems(2) CalcRewards_granted obtain s' where
      "CalcRewards s (Some r) = Some s'" "granted s' = r" "map Account s' = map Account s"
      by fastforce
    ultimately show ?case by auto
  qed simp
  then show ?thesis using assms(1) by (cases "rewards = []") (auto simp: CalcRewardsInBatch_def)
qed

section \<open>Properties\<close>

text \<open>
  C8: Dividing a reward loses and creates nothing: with a positive total share every share gets
  a part, and the parts add up to the whole reward, whatever rounding did.
\<close>

theorem DivideRewards_conserves:
  assumes "0 < sum_list shares"
  shows "length (DivideRewards T shares) = length shares \<and> sum_list (DivideRewards T shares) = T"
  using assms share_out.divide_length share_out.divide_sum by blast

theorem DivideRewards_conserves_witness:
  "length (DivideRewards 100 [1, 1, 1]) = length [1, 1, 1::int] \<and> sum_list (DivideRewards 100 [1, 1, 1]) = 100"
  by (rule DivideRewards_conserves) simp

text \<open>
  C9: The division is proportional to one unit: share \<open>i\<close> gets the floor of its proportional
  part, and one unit more exactly if \<open>i\<close> is less than the amount the floors leave over; that
  amount is less than the number of shares, so the branch that adds an average to every part
  never changes anything.
\<close>

theorem DivideRewards_proportional:
  assumes "0 < sum_list shares" "i < length shares"
  shows "DivideRewards T shares ! i = T * (shares ! i) div sum_list shares
      + (if int i < div_left T shares then 1 else 0)
    \<and> 0 \<le> div_left T shares \<and> div_left T shares < int (length shares)"
  using assms nth_DivideRewards div_left_bounds by blast

theorem DivideRewards_proportional_witness:
  "DivideRewards 100 [1, 1, 1] ! 0 = 34 \<and> DivideRewards 100 [1, 1, 1] ! 2 = 33"
  using DivideRewards_proportional [of "[1, 1, 1]" 0 100] DivideRewards_proportional [of "[1, 1, 1]" 2 100]
  by (simp add: div_left_def)

lemma sorted_wrt_nth: "sorted_wrt R xs \<longleftrightarrow> (\<forall>i j. i < j \<longrightarrow> j < length xs \<longrightarrow> R (xs ! i) (xs ! j))"
  by (simp add: sorted_wrt_iff_nth_less)

text \<open>
  A larger share never gets a smaller reward: over shares in descending order, which is how
  the slices are sorted, the rewards are in descending order too.
\<close>

lemma DivideRewards_descending:
  assumes "0 \<le> T" "sorted_wrt (\<ge>) shares"
  shows "sorted_wrt (\<ge>) (DivideRewards T shares)"
proof (cases "0 < sum_list shares")
  case True
  have "DivideRewards T shares ! j \<le> DivideRewards T shares ! i" if "i < j" "j < length shares" for i j
  proof -
    have "shares ! j \<le> shares ! i" using assms(2) that by (simp add: sorted_wrt_nth)
    then have "T * (shares ! j) div sum_list shares \<le> T * (shares ! i) div sum_list shares"
      using True assms(1) by (intro zdiv_mono1 mult_left_mono) auto
    with that True show ?thesis by (simp add: nth_DivideRewards)
  qed
  with True show ?thesis by (simp add: sorted_wrt_nth share_out.divide_length)
next
  case False
  then show ?thesis by (simp add: share_out.divide_none)
qed

text \<open>
  C11: The slice of the statistics is independent of Go's map iteration order and of the
  instability of \<open>sort.Sort\<close>: two iterations over the same map, whose entries are under their own
  account and not yet rewarded, give the same slice. It exists (no comparison panics), holds
  exactly the entries with a positive share, and is the stable sort by share (descending),
  then address.
\<close>

theorem ConvertToSortedSlice_order_independent:
  assumes "distinct (map fst m)" "\<forall>(a, s) \<in> set m. Account s = a \<and> Reward s = None"
    and "mset m' = mset m"
  shows "ConvertToSortedSlice m' = ConvertToSortedSlice m
    \<and> ConvertToSortedSlice m = Some (sort_key share_rank (filter has_share (map snd m)))"
proof -
  let ?f = "\<lambda>m. filter has_share (map snd m)"
  have "map Account (map snd m) = map fst m"
    using assms(2) by (auto simp: case_prod_unfold)
  with assms(1) have "distinct (map Account (map snd m))" by (simp only:)
  then have dist: "distinct (map Account (?f m))" by (rule distinct_map_filter)
  have dom: "\<forall>s \<in> set (?f m). unrewarded s"
    using assms(2) by (auto simp: unrewarded_def has_share_def split: option.splits)
  have "mset (?f m) = mset (?f m')"
    using assms(3) by simp
  then have "sort_Sort Less (?f m) = sort_Sort Less (?f m')"
    by (rule by_share.sort_Sort_perm [OF dom dist])
  then show ?thesis
    using sort_Sort_eq_sort_key [OF dom dist] by (simp add: ConvertToSortedSlice_def)
qed

definition stat_of :: "address \<Rightarrow> int \<Rightarrow> AccountStat" where
  "stat_of a share = \<lparr>Account = a, Reward = None, Share = Some share, Number = 1\<rparr>"

theorem ConvertToSortedSlice_order_independent_witness:
  "ConvertToSortedSlice [(3, stat_of 3 0), (2, stat_of 2 7), (1, stat_of 1 7)]
    = ConvertToSortedSlice [(1, stat_of 1 7), (3, stat_of 3 0), (2, stat_of 2 7)]"
  using ConvertToSortedSlice_order_independent
    [of "[(1, stat_of 1 7), (3, stat_of 3 0), (2, stat_of 2 7)]"
        "[(3, stat_of 3 0), (2, stat_of 2 7), (1, stat_of 1 7)]"]
  by (simp add: stat_of_def)

text \<open>
  Distributing to one slice: for accounts without a reward and with a positive total share,
  \<open>CalcRewards\<close> gives every account the part of its share and changes nothing else, and the
  rewards add up to the total.
\<close>

lemma CalcRewards_distributes:
  assumes "fresh_stats s shares" "0 < sum_list shares" "0 < T"
  shows "\<exists>s'. CalcRewards s (Some T) = Some s' \<and> map Reward s' = map Some (DivideRewards T shares)
    \<and> map Account s' = map Account s \<and> map Share s' = map Share s \<and> map Number s' = map Number s
    \<and> CalcTotalReward s' = Some T"
proof -
  have "length s = length (DivideRewards T shares)"
    using assms by (simp add: share_out.divide_length fresh_stats_length)
  with assms show ?thesis
    by (simp add: CalcRewards_fresh with_rewards_fields CalcTotalReward_def share_out.divide_sum)
qed

text \<open>
  Once every account has a reward, a second \<open>CalcRewards\<close> redistributes by the rewards; for the
  total they already have, it changes nothing.
\<close>

lemma CalcRewards_stable:
  assumes "map Reward s = map Some rs" "0 < sum_list rs"
  shows "CalcRewards s (Some (sum_list rs)) = Some s"
proof -
  have "DivideRewards (sum_list rs) rs = rs"
  proof (rule nth_equalityI)
    fix i assume i: "i < length (DivideRewards (sum_list rs) rs)"
    have "div_left (sum_list rs) rs = 0" using assms(2) by (simp add: div_left_def)
    with i assms(2) show "DivideRewards (sum_list rs) rs ! i = rs ! i"
      by (simp add: nth_DivideRewards share_out.divide_length)
  qed (use assms in \<open>simp add: share_out.divide_length\<close>)
  moreover have "s \<noteq> []" using assms by auto
  moreover from this have "Reward (hd s) \<noteq> None" using assms(1) by (cases s) auto
  ultimately show ?thesis
    using assms by (auto simp: CalcRewards_unfold with_rewards_id dest: map_eq_imp_length_eq)
qed

lemma sum_list_pos_int: "xs \<noteq> [] \<Longrightarrow> \<forall>x \<in> set xs. (0::int) < x \<Longrightarrow> 0 < sum_list xs"
  by (induction xs rule: list_nonempty_induct) auto

lemma SumWeightShares_fresh:
  "fresh_stats s shares \<Longrightarrow> SumWeightShares s w = Some (sum_list shares * uint w)"
  by (simp add: fresh_stats_def SumWeightShares_def sum_list_mult_const)

text \<open>
  C10: Distributing by liquidity over several exchanges loses nothing: if every exchange has
  accounts with nonnegative shares that are not all zero and a positive weight, the amounts
  granted over all exchanges add up to the total, and they are divided between the exchanges
  in proportion to weighted share.
\<close>

theorem CalcWeightedRewards_conserves:
  assumes "length ws = length stats" "length shares = length stats" "2 \<le> length stats" "0 \<le> T"
    and fresh: "\<And>i. i < length stats \<Longrightarrow> fresh_stats (stats ! i) (shares ! i) \<and> 0 < sum_list (shares ! i)"
    and pos: "\<And>w. w \<in> set ws \<Longrightarrow> 0 < uint w"
  shows "\<exists>stats'. CalcWeightedRewards stats T (Some ws) = Some stats'
    \<and> map granted stats' = DivideRewards T (map2 (\<lambda>sh w. sum_list sh * uint w) shares ws)
    \<and> sum_list (map granted stats') = T"
proof -
  let ?ss = "map2 (\<lambda>sh w. sum_list sh * uint w) shares ws"
  have "deref_all (map2 SumWeightShares stats ws) = Some ?ss"
    unfolding deref_all_eq_Some using assms(1,2) fresh
    by (intro nth_equalityI) (auto simp: SumWeightShares_fresh)
  moreover have ss_pos: "\<forall>x \<in> set ?ss. 0 < x"
    using assms(1,2) fresh pos by (auto simp: set_zip)
  have "?ss \<noteq> []" using assms(1-3) by (cases shares; cases ws) auto
  from this ss_pos have "0 < sum_list ?ss" by (rule sum_list_pos_int)
  moreover have len: "length stats = length (DivideRewards T ?ss)"
    using assms(1,2) \<open>0 < sum_list ?ss\<close> by (simp add: share_out.divide_length)
  moreover have "\<forall>r \<in> set (DivideRewards T ?ss). 0 \<le> r"
    using share_out.divide_nonneg [OF assms(4), of ?ss] ss_pos order.strict_implies_order by blast
  then obtain stats' where "CalcRewardsInBatch stats (DivideRewards T ?ss) = Some stats'"
      "map granted stats' = DivideRewards T ?ss"
    using CalcRewardsInBatch_granted [OF len] fresh by blast
  moreover obtain s1 s2 rest where "stats = s1 # s2 # rest"
    using assms(3) by (metis One_nat_def Suc_1 Suc_le_length_iff)
  ultimately show ?thesis
    using assms(1) by (simp add: CalcWeightedRewards_def share_out.divide_sum)
qed

theorem CalcWeightedRewards_conserves_witness:
  "\<exists>stats'. CalcWeightedRewards [[stat_of 1 7], [stat_of 2 2, stat_of 3 1]] 100 (Some [2, 1]) = Some stats'
    \<and> sum_list (map granted stats') = 100"
proof -
  have "fresh_stats ([[stat_of 1 7], [stat_of 2 2, stat_of 3 1]] ! i) ([[7], [2, 1]] ! i)
      \<and> 0 < sum_list ([[7], [2, 1::int]] ! i)" if "i < 2" for i
    using that by (auto simp: less_2_cases_iff fresh_stats_def stat_of_def)
  moreover have "0 < uint w" if "w \<in> set [2, 1::u64]" for w using that by auto
  ultimately show ?thesis
    using CalcWeightedRewards_conserves [of "[2, 1]" "[[stat_of 1 7], [stat_of 2 2, stat_of 3 1]]" "[[7], [2, 1]]" 100]
    by auto
qed

text \<open>
  The rest goes to the front of the slice whatever the share there is: an exchange without
  any volume can be given a unit, and with no account to take it the unit is not distributed.
\<close>

lemma DivideRewards_zero_share_gets_rest: "DivideRewards 1 [0, 1, 1] = [1, 0, 0]"
  by (simp add: DivideRewards_def hand_out_def)

lemma rest_is_lost:
  "CalcRewardsInBatch [[], [stat_of 1 1], [stat_of 2 1]] (DivideRewards 1 [0, 1, 1])
    = Some [[], [stat_of 1 1], [stat_of 2 1]]"
  by (simp add: DivideRewards_zero_share_gets_rest CalcRewardsInBatch_def CalcRewards_def)

end
