(* ===== verification/Params.thy ===== *)
theory Params
  imports World
begin

text \<open>
  \<open>params/config.go\<close> and \<open>params/checkconfig.go\<close>: the configuration, the process-wide tables of
  known exchanges and tokens, the lookups, and the checks that run when a configuration is
  loaded. A pointer that may be nil is an \<open>option\<close>; reading through a nil pointer panics, so the
  readers that do it return an \<open>option\<close>.
\<close>

section \<open>The configuration\<close>

record MongoDBConfig =
  DBURL :: string
  DBName :: string
  UserName :: string
  Password :: string

record GatewayConfig =
  APIAddress :: string
  AverageBlockTime :: u64

record StakeConfig =
  sk_Contract :: string
  sk_Points :: "u64 list"
  sk_Percents :: "u64 list"
  sk_Stakers :: "string list"
  sk_stakersMap :: "address set"

record SyncConfig =
  sy_JobCount :: u64
  sy_WaitInterval :: u64
  sy_Stable :: u64
  sy_UpdateLiquidity :: bool
  sy_UpdateVolume :: bool
  sy_ScanAllExchange :: bool
  sy_RecordTokenAccount :: bool

record ExchangeConfig =
  ex_Pairs :: string
  ex_Exchange :: string
  ex_Token :: string
  ex_CreationHeight :: u64
  ex_LiquidWeight :: u64
  ex_TradeWeight :: u64

record DistributeConfig =
  dc_Enable :: bool
  dc_ArchiveMode :: bool
  dc_RewardToken :: string
  dc_StartHeight :: u64
  dc_StableHeight :: u64
  dc_GasLimit :: u64
  dc_GasPrice :: string
  dc_ByLiquidCycle :: u64
  dc_ByLiquidRewards :: string
  dc_ByVolumeCycle :: u64
  dc_ByVolumeRewards :: string
  dc_QuickSettleVolumeRewards :: bool
  dc_DustRewardThreshold :: string
  dc_UseTimeMeasurement :: bool
  dc_StartTimestamp :: u64
  dc_StableDuration :: u64
  dc_ByLiquidCycleDuration :: u64
  dc_ByVolumeCycleDuration :: u64
  dc_TradeWeightIsPercentage :: bool

record Config =
  cf_MongoDB :: "MongoDBConfig option"
  cf_Gateway :: "GatewayConfig option"
  cf_Sync :: "SyncConfig option"
  cf_Distribute :: "DistributeConfig option"
  cf_Exchanges :: "ExchangeConfig list option"
  cf_Factories :: "string list"
  cf_Stake :: "StakeConfig option"
  cf_Routers :: "string list"

text \<open>The variables of the package: the configuration, the cached addresses, the tables.\<close>

record params =
  config :: Config
  factoryAddresses :: "address list option"
  routerAddresses :: "address list option"
  AllExchanges :: "address set"
  AllTokens :: "address set"

definition exchanges :: "params \<Rightarrow> ExchangeConfig list" where
  "exchanges P = (case cf_Exchanges (config P) of None \<Rightarrow> [] | Some xs \<Rightarrow> xs)"

section \<open>Lookups (config.go)\<close>

definition defaultBlockTime :: u64 where "defaultBlockTime = 13"

definition GetAverageBlockTime :: "params \<Rightarrow> u64 option" where
  "GetAverageBlockTime P = do {
     gateway \<leftarrow> cf_Gateway (config P);
     let avg = AverageBlockTime gateway;
     Some (if avg = 0 then defaultBlockTime else avg)
   }"

definition IsScanAllExchange :: "params \<Rightarrow> bool option" where
  "IsScanAllExchange P = map_option sy_ScanAllExchange (cf_Sync (config P))"

definition IsRecordTokenAccount :: "params \<Rightarrow> bool option" where
  "IsRecordTokenAccount P = map_option sy_RecordTokenAccount (cf_Sync (config P))"

definition GetConfigedExchange :: "params \<Rightarrow> string \<Rightarrow> string" where
  "GetConfigedExchange P token =
     (case find (\<lambda>ex. EqualFold (ex_Token ex) token) (exchanges P) of
        Some ex \<Rightarrow> ex_Exchange ex | None \<Rightarrow> [])"

definition GetExchangePairs :: "params \<Rightarrow> string \<Rightarrow> string" where
  "GetExchangePairs P exchange =
     (case find (\<lambda>ex. EqualFold (ex_Exchange ex) exchange) (exchanges P) of
        Some ex \<Rightarrow> ex_Pairs ex | None \<Rightarrow> [])"

definition GetExchangeToken :: "params \<Rightarrow> string \<Rightarrow> string" where
  "GetExchangeToken P exchange =
     (case find (\<lambda>ex. EqualFold (ex_Exchange ex) exchange) (exchanges P) of
        Some ex \<Rightarrow> ex_Token ex | None \<Rightarrow> [])"

definition GetTokenAddress :: "params \<Rightarrow> string \<Rightarrow> string" where
  "GetTokenAddress P exchange =
     (case find (\<lambda>ex. EqualFold (ex_Exchange ex) exchange) (exchanges P) of
        Some ex \<Rightarrow> ex_Token ex | None \<Rightarrow> [])"

definition IsConfigedExchange :: "params \<Rightarrow> string \<Rightarrow> bool" where
  "IsConfigedExchange P exchange \<longleftrightarrow> GetExchangePairs P exchange \<noteq> []"

definition IsConfigedToken :: "params \<Rightarrow> string \<Rightarrow> bool" where
  "IsConfigedToken P token \<longleftrightarrow> GetConfigedExchange P token \<noteq> []"

definition GetMinExchangeCreationHeight :: "params \<Rightarrow> u64" where
  "GetMinExchangeCreationHeight P =
     foldl (\<lambda>minHeight ex. if ex_CreationHeight ex < minHeight then ex_CreationHeight ex else minHeight)
       (- 1) (exchanges P)"

definition GetFactories :: "env \<Rightarrow> params \<Rightarrow> address list \<times> params" where
  "GetFactories E P =
     (case factoryAddresses P of
        Some fs \<Rightarrow> (fs, P)
      | None \<Rightarrow>
          let factories = map (HexToAddress E) (cf_Factories (config P))
          in (factories, P\<lparr>factoryAddresses := Some factories\<rparr>))"

definition IsConfigedFactory :: "env \<Rightarrow> params \<Rightarrow> address \<Rightarrow> bool \<times> params" where
  "IsConfigedFactory E P factory =
     (let (fs, P') = GetFactories E P in (factory \<in> set fs, P'))"

definition GetRouters :: "env \<Rightarrow> params \<Rightarrow> address list \<times> params" where
  "GetRouters E P =
     (case routerAddresses P of
        Some rs \<Rightarrow> (rs, P)
      | None \<Rightarrow>
          let routers = map (HexToAddress E) (cf_Routers (config P))
          in (routers, P\<lparr>routerAddresses := Some routers\<rparr>))"

definition IsConfigedRouter :: "env \<Rightarrow> params \<Rightarrow> string \<Rightarrow> bool \<times> params" where
  "IsConfigedRouter E P router =
     (let (rs, P') = GetRouters E P
      in (\<exists>item \<in> set rs. EqualFold (Address_String E item) router, P'))"

definition AddTokenAndExchange :: "params \<Rightarrow> address \<Rightarrow> address \<Rightarrow> params" where
  "AddTokenAndExchange P token exchange =
     (if token = 0 \<or> exchange = 0 then P
      else P\<lparr>AllTokens := insert token (AllTokens P), AllExchanges := insert exchange (AllExchanges P)\<rparr>)"

definition IsInAllTokens :: "params \<Rightarrow> address \<Rightarrow> bool" where
  "IsInAllTokens P token \<longleftrightarrow> token \<in> AllTokens P"

definition IsInAllExchanges :: "params \<Rightarrow> address \<Rightarrow> bool" where
  "IsInAllExchanges P exchange \<longleftrightarrow> exchange \<in> AllExchanges P"

definition IsInAllTokenAndExchanges :: "params \<Rightarrow> address \<Rightarrow> bool" where
  "IsInAllTokenAndExchanges P a \<longleftrightarrow> IsInAllTokens P a \<or> IsInAllExchanges P a"

definition IsExcludedRewardAccount :: "env \<Rightarrow> params \<Rightarrow> address \<Rightarrow> bool" where
  "IsExcludedRewardAccount E P account \<longleftrightarrow>
     (if account = 0 then True
      else if IsConfigedExchange P (Address_String E account) then True
      else IsInAllExchanges P account)"

definition bigint_or_zero :: "string \<Rightarrow> int" where
  "bigint_or_zero s = (case GetBigIntFromString s of Inl _ \<Rightarrow> 0 | Inr bi \<Rightarrow> bi)"

definition GetByVolumeCycleRewards :: "DistributeConfig \<Rightarrow> int" where
  "GetByVolumeCycleRewards dist = bigint_or_zero (dc_ByVolumeRewards dist)"

definition GetByLiquidCycleRewards :: "DistributeConfig \<Rightarrow> int" where
  "GetByLiquidCycleRewards dist = bigint_or_zero (dc_ByLiquidRewards dist)"

definition dist_GetDustRewardThreshold :: "DistributeConfig \<Rightarrow> int" where
  "dist_GetDustRewardThreshold dist = bigint_or_zero (dc_DustRewardThreshold dist)"

definition GetDustRewardThreshold :: "params \<Rightarrow> int" where
  "GetDustRewardThreshold P =
     (case cf_Distribute (config P) of
        Some dist \<Rightarrow> dist_GetDustRewardThreshold dist
      | None \<Rightarrow> 0)"

definition zero_DistributeConfig :: DistributeConfig where
  "zero_DistributeConfig = \<lparr>dc_Enable = False, dc_ArchiveMode = False, dc_RewardToken = [],
     dc_StartHeight = 0, dc_StableHeight = 0, dc_GasLimit = 0, dc_GasPrice = [],
     dc_ByLiquidCycle = 0, dc_ByLiquidRewards = [], dc_ByVolumeCycle = 0, dc_ByVolumeRewards = [],
     dc_QuickSettleVolumeRewards = False, dc_DustRewardThreshold = [], dc_UseTimeMeasurement = False,
     dc_StartTimestamp = 0, dc_StableDuration = 0, dc_ByLiquidCycleDuration = 0,
     dc_ByVolumeCycleDuration = 0, dc_TradeWeightIsPercentage = False\<rparr>"

definition SetDustRewardThreshold :: "params \<Rightarrow> string \<Rightarrow> params" where
  "SetDustRewardThreshold P dustThreshold =
     (let dist = (case cf_Distribute (config P) of None \<Rightarrow> zero_DistributeConfig | Some d \<Rightarrow> d)
      in P\<lparr>config := (config P)\<lparr>cf_Distribute := Some (dist\<lparr>dc_DustRewardThreshold := dustThreshold\<rparr>)\<rparr>\<rparr>)"

definition IsInStakerList :: "params \<Rightarrow> address \<Rightarrow> bool" where
  "IsInStakerList P account \<longleftrightarrow>
     (case cf_Stake (config P) of None \<Rightarrow> False | Some stake \<Rightarrow> account \<in> sk_stakersMap stake)"

definition initStakersMap :: "env \<Rightarrow> StakeConfig \<Rightarrow> StakeConfig" where
  "initStakersMap E s = s\<lparr>sk_stakersMap := set (map (HexToAddress E) (sk_Stakers s))\<rparr>"

section \<open>Checks (checkconfig.go)\<close>

definition ExchangeConfig_check :: "env \<Rightarrow> ExchangeConfig \<Rightarrow> error option" where
  "ExchangeConfig_check E ex =
     (if \<not> IsHexAddress E (ex_Exchange ex) then Some (Errorf ''[check exchange] wrong exchange address'')
      else if ex_Pairs ex = [] then Some (Errorf ''[check exchange] empty exchange pairs'')
      else if \<not> IsHexAddress E (ex_Token ex) then Some (Errorf ''[check exchange] wrong exchange token'')
      else if ex_CreationHeight ex = 0 then Some (Errorf ''[check exchange] wrong exchange creation height'')
      else None)"

text \<open>The loop of \<open>checkExchangeConfig\<close>: the three maps, and the sum of the trade weights.\<close>

fun checkExchange_loop ::
  "env \<Rightarrow> ExchangeConfig list \<Rightarrow> string set \<Rightarrow> string set \<Rightarrow> string set \<Rightarrow> u64 \<Rightarrow> error + u64" where
  "checkExchange_loop E [] pairsMap exchangeMap tokenMap sumTradeWeight = Inr sumTradeWeight"
| "checkExchange_loop E (ex # exs) pairsMap exchangeMap tokenMap sumTradeWeight =
     (case ExchangeConfig_check E ex of
        Some err \<Rightarrow> Inl err
      | None \<Rightarrow>
          let pairs = ToLower (ex_Pairs ex); exchange = ToLower (ex_Exchange ex); token = ToLower (ex_Token ex) in
          if pairs \<in> pairsMap then Inl (Errorf ''duplicate pairs'')
          else if exchange \<in> exchangeMap then Inl (Errorf ''duplicate exchange'')
          else if token \<in> tokenMap then Inl (Errorf ''duplicate token'')
          else checkExchange_loop E exs (insert pairs pairsMap) (insert exchange exchangeMap)
                 (insert token tokenMap) (sumTradeWeight + ex_TradeWeight ex))"

definition checkExchangeConfig :: "env \<Rightarrow> ExchangeConfig list \<Rightarrow> DistributeConfig \<Rightarrow> error option" where
  "checkExchangeConfig E exs dist =
     (case checkExchange_loop E exs {} {} {} 0 of
        Inl err \<Rightarrow> Some err
      | Inr sumTradeWeight \<Rightarrow>
          if dc_TradeWeightIsPercentage dist \<and> \<not> (sumTradeWeight = 100 \<or> sumTradeWeight = 0)
          then Some (Errorf ''sum of trade percentage weight is not equal to 100 or 0'')
          else None)"

text \<open>Each value has to be above the previous one; the first above zero.\<close>

fun check_ascending :: "error \<Rightarrow> u64 \<Rightarrow> u64 list \<Rightarrow> error option" where
  "check_ascending err prev [] = None"
| "check_ascending err prev (x # xs) = (if x \<le> prev then Some err else check_ascending err x xs)"

definition checkStakeConfig :: "env \<Rightarrow> StakeConfig option \<Rightarrow> error option" where
  "checkStakeConfig E stake =
     (case stake of
        None \<Rightarrow> None
      | Some s \<Rightarrow>
          if \<not> IsHexAddress E (sk_Contract s) then Some (Errorf ''wrong stake contract address'')
          else if \<exists>staker \<in> set (sk_Stakers s). \<not> IsHexAddress E staker then Some (Errorf ''wrong staker address'')
          else if length (sk_Points s) \<noteq> length (sk_Percents s)
          then Some (Errorf ''count of points and percents not equal'')
          else case check_ascending (Errorf ''points is not ascending sorted'') 0 (sk_Points s) of
              Some err \<Rightarrow> Some err
            | None \<Rightarrow> check_ascending (Errorf ''percents is not ascending sorted'') 0 (sk_Percents s))"

definition checkBigIntStringValue :: "string \<Rightarrow> error option" where
  "checkBigIntStringValue value =
     (if value = [] then None
      else case GetBigIntFromString value of
          Inl _ \<Rightarrow> Some (Errorf ''[check distribute] wrong %v %v'')
        | Inr _ \<Rightarrow> None)"

definition checkStringValue :: "DistributeConfig \<Rightarrow> error option" where
  "checkStringValue dist =
     (case checkBigIntStringValue (dc_ByLiquidRewards dist) of Some err \<Rightarrow> Some err | None \<Rightarrow>
     (case checkBigIntStringValue (dc_ByVolumeRewards dist) of Some err \<Rightarrow> Some err | None \<Rightarrow>
     (case checkBigIntStringValue (dc_GasPrice dist) of Some err \<Rightarrow> Some err | None \<Rightarrow>
        checkBigIntStringValue (dc_DustRewardThreshold dist))))"

definition volume_cycle :: "DistributeConfig \<Rightarrow> u64" where
  "volume_cycle dist = (if dc_UseTimeMeasurement dist then dc_ByVolumeCycleDuration dist else dc_ByVolumeCycle dist)"

definition liquid_cycle :: "DistributeConfig \<Rightarrow> u64" where
  "liquid_cycle dist = (if dc_UseTimeMeasurement dist then dc_ByLiquidCycleDuration dist else dc_ByLiquidCycle dist)"

definition checkCycle :: "DistributeConfig \<Rightarrow> error option" where
  "checkCycle dist =
     (let byVolumeCycle = volume_cycle dist; byLiquidCycle = liquid_cycle dist in
      if byVolumeCycle = 0 then Some (Errorf ''[check distribute] error: zero by volume cycle length'')
      else if byLiquidCycle < byVolumeCycle
      then Some (Errorf ''[check distribute] error: by liquidity cycle %v < by volume cycle %v'')
      else if byLiquidCycle mod byVolumeCycle \<noteq> 0
      then Some (Errorf ''[check distribute] error: by liquidity cycle %v is not an integral multiple of by volume cycle %v'')
      else None)"

text \<open>\<open>dist.check\<close> may move the stable height of the job into the stable height of the syncer.\<close>

definition DistributeConfig_check ::
  "env \<Rightarrow> SyncConfig \<Rightarrow> DistributeConfig \<Rightarrow> error option \<times> SyncConfig \<times> DistributeConfig" where
  "DistributeConfig_check E sync dist =
     (if \<not> IsHexAddress E (dc_RewardToken dist)
      then (Some (Errorf ''[check distribute] wrong reward token address %v''), sync, dist)
      else case checkStringValue dist of
          Some err \<Rightarrow> (Some err, sync, dist)
        | None \<Rightarrow>
          (case checkCycle dist of
            Some err \<Rightarrow> (Some err, sync, dist)
          | None \<Rightarrow>
              if dc_StableHeight dist > sy_Stable sync
              then (None, sync\<lparr>sy_Stable := dc_StableHeight dist\<rparr>, dist\<lparr>dc_StableHeight := 1\<rparr>)
              else (None, sync, dist)))"

definition checkDistributeConfig ::
  "env \<Rightarrow> SyncConfig \<Rightarrow> DistributeConfig \<Rightarrow> error option \<times> SyncConfig \<times> DistributeConfig" where
  "checkDistributeConfig E sync dist =
     (if \<not> dc_Enable dist then (None, sync, dist) else DistributeConfig_check E sync dist)"

definition CheckConfig :: "env \<Rightarrow> Config option \<Rightarrow> error + Config" where
  "CheckConfig E cfg =
     (case cfg of None \<Rightarrow> Inl (Errorf ''empty config'') | Some c \<Rightarrow>
      (case cf_MongoDB c of None \<Rightarrow> Inl (Errorf ''must config MongoDB'') | Some _ \<Rightarrow>
      (case cf_Gateway c of None \<Rightarrow> Inl (Errorf ''must config Gateway'') | Some _ \<Rightarrow>
      (case cf_Sync c of None \<Rightarrow> Inl (Errorf ''must config Sync'') | Some sync \<Rightarrow>
      (case cf_Distribute c of None \<Rightarrow> Inl (Errorf ''must config Distribute'') | Some dist \<Rightarrow>
      (case cf_Exchanges c of None \<Rightarrow> Inl (Errorf ''must config Exchanges'') | Some exs \<Rightarrow>
      (case checkExchangeConfig E exs dist of Some err \<Rightarrow> Inl err | None \<Rightarrow>
      (case checkDistributeConfig E sync dist of
         (Some err, _, _) \<Rightarrow> Inl err
       | (None, sync', dist') \<Rightarrow>
         let c' = c\<lparr>cf_Sync := Some sync', cf_Distribute := Some dist'\<rparr> in
         if \<exists>factory \<in> set (cf_Factories c). \<not> IsHexAddress E factory then Inl (Errorf ''wrong factory address %v'')
         else if \<exists>router \<in> set (cf_Routers c). \<not> IsHexAddress E router then Inl (Errorf ''wrong router address %v'')
         else case checkStakeConfig E (cf_Stake c) of
             Some err \<Rightarrow> Inl err
           | None \<Rightarrow> Inr c'))))))))"

text \<open>
  \<open>LoadConfig\<close> after the file has been decoded (by the third-party TOML package): the
  configuration becomes the current one, and a failed check ends the process.
\<close>

definition LoadConfig :: "env \<Rightarrow> params \<Rightarrow> Config \<Rightarrow> params option" where
  "LoadConfig E P tmpConfig =
     (case CheckConfig E (Some tmpConfig) of
        Inl _ \<Rightarrow> None
      | Inr c \<Rightarrow> Some (P\<lparr>config := c\<lparr>cf_Stake := map_option (initStakersMap E) (cf_Stake c)\<rparr>\<rparr>))"

end
