(* ===== verification/Mongo_Api.thy ===== *)
theory Mongo_Api
  imports Rewards Params "HOL-Library.AList"
begin

text \<open>
  \<open>mongodb/api.go\<close>: the retry wrapper, the writes, the updates and the queries. The driver is a
  parameter (\<open>env\<close>); the functions here decide which document goes to which collection, under
  which key, by insert, upsert or update, how errors are classified, and what is computed from
  the documents found. Every call to the driver leaves one event in the history, so what a
  function stored is read off the history.
\<close>

section \<open>Calls of the driver\<close>

definition db_Insert :: "env \<Rightarrow> mgo_doc \<Rightarrow> error option action" where
  "db_Insert E doc w = (let err = Insert E w doc in Some (err, w @ [EvInsert doc err]))"

definition db_UpsertId :: "env \<Rightarrow> string \<Rightarrow> mgo_doc \<Rightarrow> error option action" where
  "db_UpsertId E key doc w = (let err = UpsertId E w key doc in Some (err, w @ [EvUpsertId key doc err]))"

definition db_UpdateId :: "env \<Rightarrow> collection \<Rightarrow> string \<Rightarrow> bson_M \<Rightarrow> error option action" where
  "db_UpdateId E coll key updates w =
     (let err = UpdateId E w coll key updates in Some (err, w @ [EvUpdateId coll key updates err]))"

section \<open>Retrying\<close>

definition retryDBCount :: nat where "retryDBCount = 3"
definition retryDBInterval :: nat where "retryDBInterval = 1000"

fun TryDoTimes_loop :: "nat \<Rightarrow> error option action \<Rightarrow> error option \<Rightarrow> error option action" where
  "TryDoTimes_loop 0 f err w = Some (err, w)"
| "TryDoTimes_loop (Suc n) f err w = do {
     (err, w) \<leftarrow> f w;
     if err = None \<or> err = Some ErrDup then Some (None, w)
     else TryDoTimes_loop n f err (w @ [EvSleep retryDBInterval])
   }"

definition TryDoTimes :: "error option action \<Rightarrow> error option action" where
  "TryDoTimes f w = TryDoTimes_loop retryDBCount f None w"

section \<open>Adding documents\<close>

definition AddBlock :: "env \<Rightarrow> MgoBlock \<Rightarrow> bool \<Rightarrow> error option action" where
  "AddBlock E mb overwrite w =
     (if overwrite then db_UpsertId E (mb_Key mb) (DocBlock mb) w else db_Insert E (DocBlock mb) w)"

definition AddTransaction :: "env \<Rightarrow> MgoTransaction \<Rightarrow> bool \<Rightarrow> error option action" where
  "AddTransaction E mt overwrite w =
     (if overwrite then db_UpsertId E (mt_Key mt) (DocTransaction mt) w
      else db_Insert E (DocTransaction mt) w)"

definition AddLiquidity :: "env \<Rightarrow> MgoLiquidity \<Rightarrow> bool \<Rightarrow> error option action" where
  "AddLiquidity E ml overwrite w =
     (if overwrite then db_UpsertId E (ml_Key ml) (DocLiquidity ml) w
      else db_Insert E (DocLiquidity ml) w)"

definition AddVolume :: "env \<Rightarrow> MgoVolume \<Rightarrow> bool \<Rightarrow> error option action" where
  "AddVolume E mv overwrite w =
     (if overwrite then db_UpsertId E (mv_Key mv) (DocVolume mv) w else db_Insert E (DocVolume mv) w)"

text \<open>A duplicate is not an error for the documents that are never rewritten.\<close>

definition dup_ok :: "error option \<Rightarrow> error option" where
  "dup_ok err = (case err of None \<Rightarrow> None | Some e \<Rightarrow> if e = ErrDup then None else Some e)"

definition AddVolumeHistory :: "env \<Rightarrow> MgoVolumeHistory \<Rightarrow> bool \<Rightarrow> error option action" where
  "AddVolumeHistory E mv overwrite w = do {
     (err, w) \<leftarrow> (if overwrite then db_UpsertId E (mh_Key mv) (DocVolumeHistory mv) w
                 else db_Insert E (DocVolumeHistory mv) w);
     Some (dup_ok err, w)
   }"

definition AddAccount :: "env \<Rightarrow> MgoAccount \<Rightarrow> error option action" where
  "AddAccount E ma w = do { (err, w) \<leftarrow> db_Insert E (DocAccount ma) w; Some (dup_ok err, w) }"

definition AddTokenAccount :: "env \<Rightarrow> MgoTokenAccount \<Rightarrow> error option action" where
  "AddTokenAccount E ma w = do { (err, w) \<leftarrow> db_Insert E (DocTokenAccount ma) w; Some (dup_ok err, w) }"

definition AddLiquidityBalance :: "env \<Rightarrow> MgoLiquidityBalance \<Rightarrow> error option action" where
  "AddLiquidityBalance E ma w =
     do { (err, w) \<leftarrow> db_Insert E (DocLiquidityBalance ma) w; Some (dup_ok err, w) }"

definition AddDistributeInfo :: "env \<Rightarrow> MgoDistributeInfo \<Rightarrow> error option action" where
  "AddDistributeInfo E ma w = db_Insert E (DocDistributeInfo ma) w"

section \<open>Queries by key\<close>

definition found :: "error + 'a \<Rightarrow> 'a option" where
  "found r = (case r of Inl _ \<Rightarrow> None | Inr x \<Rightarrow> Some x)"

definition FindLatestSyncInfo :: "env \<Rightarrow> (error + MgoSyncInfo) action" where
  "FindLatestSyncInfo E w =
     Some (FindId_SyncInfo E w KeyOfLatestSyncInfo, w @ [EvFind tbSyncInfo KeyOfLatestSyncInfo])"

definition FindLatestLiquidity :: "env \<Rightarrow> string \<Rightarrow> (error + MgoLiquidity) action" where
  "FindLatestLiquidity E exchange w = Some (Find_LatestLiquidity E w exchange, w @ [EvFind tbLiquidity exchange])"

definition FindLiquidity :: "env \<Rightarrow> string \<Rightarrow> (error + MgoLiquidity) action" where
  "FindLiquidity E key w = Some (FindId_Liquidity E w key, w @ [EvFind tbLiquidity key])"

definition FindVolumeRewardResult :: "env \<Rightarrow> string \<Rightarrow> (error + MgoVolumeRewardResult) action" where
  "FindVolumeRewardResult E key w =
     Some (FindId_VolumeRewardResult E w key, w @ [EvFind tbVolumeRewardResult key])"

definition FindLiquidRewardResult :: "env \<Rightarrow> string \<Rightarrow> (error + MgoLiquidRewardResult) action" where
  "FindLiquidRewardResult E key w =
     Some (FindId_LiquidRewardResult E w key, w @ [EvFind tbLiquidRewardResult key])"

definition FindLatestVolume :: "env \<Rightarrow> string \<Rightarrow> (error + MgoVolume) action" where
  "FindLatestVolume E exchange w = Some (Find_LatestVolume E w exchange, w @ [EvFind tbVolume exchange])"

definition FindVolume :: "env \<Rightarrow> string \<Rightarrow> (error + MgoVolume) action" where
  "FindVolume E key w = Some (FindId_Volume E w key, w @ [EvFind tbVolume key])"

definition FindLiquidityBalance :: "env \<Rightarrow> string \<Rightarrow> string \<Rightarrow> u64 \<Rightarrow> (string \<times> error option) action" where
  "FindLiquidityBalance E exchange account blockNumber w =
     (let key = GetKeyOfLiquidityBalance exchange account blockNumber;
          w' = w @ [EvFind tbLiquidityBalance key]
      in case FindId_LiquidityBalance E w key of
          Inl err \<Rightarrow> Some ((''0'', Some err), w')
        | Inr res \<Rightarrow> Some ((lb_Liquidity res, None), w'))"

text \<open>A negative length panics. The result is resized to the number of documents found.\<close>

definition FindBlocksInRange :: "env \<Rightarrow> u64 \<Rightarrow> u64 \<Rightarrow> (error + MgoBlock list) action" where
  "FindBlocksInRange E start end w =
     (if sint (end - start + 1) < 0 then None
      else Some (Find_Blocks E w start end, w @ [EvFind tbBlocks []]))"

definition FindAllAccounts :: "env \<Rightarrow> string \<Rightarrow> address list action" where
  "FindAllAccounts E exchange w =
     (let exchange = ToLower exchange
      in Some (map (\<lambda>ma. HexToAddress E (ma_Account ma)) (Find_Accounts E w exchange),
               w @ [EvFind tbAccounts exchange]))"

definition FindAllTokenAccounts :: "env \<Rightarrow> string \<Rightarrow> address list action" where
  "FindAllTokenAccounts E token w =
     (let token = ToLower token
      in Some (map (\<lambda>ta. HexToAddress E (ta_Account ta)) (Find_TokenAccounts E w token),
               w @ [EvFind tbTokenAccounts token]))"

section \<open>Reward results: insert or update\<close>

definition getVolumeRewardUpdateItems :: "MgoVolumeRewardResult \<Rightarrow> bson_M" where
  "getVolumeRewardUpdateItems mr =
     (if vr_Reward mr \<noteq> [] then [(''reward'', BStr (vr_Reward mr))] else []) @
     (if vr_Volume mr \<noteq> [] then [(''volume'', BStr (vr_Volume mr))] else []) @
     (if vr_TxCount mr \<noteq> 0 then [(''txcount'', BNum (vr_TxCount mr))] else []) @
     (if vr_RewardTx mr \<noteq> [] then [(''rewardTx'', BStr (vr_RewardTx mr))] else [])"

definition AddVolumeRewardResult :: "env \<Rightarrow> MgoVolumeRewardResult \<Rightarrow> error option action" where
  "AddVolumeRewardResult E mr w = do {
     (old, w) \<leftarrow> FindVolumeRewardResult E (vr_Key mr) w;
     (case found old of
        None \<Rightarrow> db_Insert E (DocVolumeRewardResult mr) w
      | Some _ \<Rightarrow> db_UpdateId E tbVolumeRewardResult (vr_Key mr) (getVolumeRewardUpdateItems mr) w)
   }"

definition getLiquidRewardUpdateItems :: "MgoLiquidRewardResult \<Rightarrow> bson_M" where
  "getLiquidRewardUpdateItems mr =
     (if lr_Reward mr \<noteq> [] then [(''reward'', BStr (lr_Reward mr))] else []) @
     (if lr_Liquidity mr \<noteq> [] then [(''liquidity'', BStr (lr_Liquidity mr))] else []) @
     (if lr_Height mr \<noteq> 0 then [(''height'', BNum (lr_Height mr))] else []) @
     (if lr_RewardTx mr \<noteq> [] then [(''rewardTx'', BStr (lr_RewardTx mr))] else [])"

definition AddLiquidRewardResult :: "env \<Rightarrow> MgoLiquidRewardResult \<Rightarrow> error option action" where
  "AddLiquidRewardResult E mr w = do {
     (old, w) \<leftarrow> FindLiquidRewardResult E (lr_Key mr) w;
     (case found old of
        None \<Rightarrow> db_Insert E (DocLiquidRewardResult mr) w
      | Some _ \<Rightarrow> db_UpdateId E tbLiquidRewardResult (lr_Key mr) (getLiquidRewardUpdateItems mr) w)
   }"

section \<open>Updates\<close>

definition UpdateSyncInfo :: "env \<Rightarrow> u64 \<Rightarrow> string \<Rightarrow> u64 \<Rightarrow> error option action" where
  "UpdateSyncInfo E number hash timestamp w =
     db_UpdateId E tbSyncInfo KeyOfLatestSyncInfo
       [(''number'', BNum number), (''timestamp'', BNum timestamp), (''hash'', BStr hash)] w"

text \<open>\<open>String\<close> of a nil \<open>*big.Int\<close> is \<open><nil>\<close>; adding to or from a nil one panics.\<close>

definition ptr_String :: "int option \<Rightarrow> string" where
  "ptr_String x = (case x of None \<Rightarrow> ''<nil>'' | Some v \<Rightarrow> big_String v)"

definition ptr_Add :: "int option \<Rightarrow> int option \<Rightarrow> int option" where
  "ptr_Add x y = do { a \<leftarrow> x; b \<leftarrow> y; Some (a + b) }"

text \<open>The coin and the token amount of a receipt, by the direction of the trade.\<close>

definition receipt_volumes :: "ExchangeReceipt \<Rightarrow> error + (int option \<times> int option)" where
  "receipt_volumes exr =
     (let tokenFromAmount = found (GetBigIntFromString (xr_TokenFromAmount exr));
          tokenToAmount = found (GetBigIntFromString (xr_TokenToAmount exr))
      in if xr_LogType exr = ''TokenPurchase'' then Inr (tokenFromAmount, tokenToAmount)
         else if xr_LogType exr = ''EthPurchase'' then Inr (tokenToAmount, tokenFromAmount)
         else Inl (Errorf ''[mongodb] update volume with wrong log type %v''))"

definition UpdateVolumeWithReceipt ::
  "env \<Rightarrow> ExchangeReceipt \<Rightarrow> string \<Rightarrow> u64 \<Rightarrow> u64 \<Rightarrow> error option action" where
  "UpdateVolumeWithReceipt E exr blockHash blockNumber timestamp w = do {
     let key = GetKeyOfExchangeAndTimestamp (xr_Exchange exr) timestamp;
     (r, w) \<leftarrow> FindVolume E key w;
     (case r of
        Inl err \<Rightarrow>
          if err \<noteq> ErrNotFound then Some (Some err, w)
          else (case receipt_volumes exr of
             Inl err \<Rightarrow> Some (Some err, w)
           | Inr (coinVal, tokenVal) \<Rightarrow>
               AddVolume E \<lparr>mv_Key = key, mv_Exchange = xr_Exchange exr, mv_Pairs = xr_Pairs exr,
                 mv_CoinVolume24h = ptr_String coinVal, mv_TokenVolume24h = ptr_String tokenVal,
                 mv_BlockNumber = blockNumber, mv_BlockHash = blockHash, mv_Timestamp = timestamp\<rparr> True w)
      | Inr curVol \<Rightarrow>
          (case receipt_volumes exr of
             Inl err \<Rightarrow> Some (Some err, w)
           | Inr (coinVal, tokenVal) \<Rightarrow> do {
               newCoin \<leftarrow> ptr_Add coinVal (found (GetBigIntFromString (mv_CoinVolume24h curVol)));
               newToken \<leftarrow> ptr_Add tokenVal (found (GetBigIntFromString (mv_TokenVolume24h curVol)));
               AddVolume E \<lparr>mv_Key = key, mv_Exchange = xr_Exchange exr, mv_Pairs = xr_Pairs exr,
                 mv_CoinVolume24h = big_String newCoin, mv_TokenVolume24h = big_String newToken,
                 mv_BlockNumber = blockNumber, mv_BlockHash = blockHash, mv_Timestamp = timestamp\<rparr> True w
             }))
   }"

section \<open>Volumes of the accounts in a range\<close>

text \<open>The part of a history record that counts: its account and its positive coin amount.\<close>

definition counted_volume :: "env \<Rightarrow> params \<Rightarrow> MgoVolumeHistory \<Rightarrow> (address \<times> int) option" where
  "counted_volume E P mh =
     (case found (GetBigIntFromString (mh_CoinAmount mh)) of
        None \<Rightarrow> None
      | Some volume \<Rightarrow>
          if volume \<le> 0 then None
          else let account = HexToAddress E (mh_Account mh)
               in if IsExcludedRewardAccount E P account then None else Some (account, volume))"

definition add_volume :: "(address \<times> AccountStat) list \<Rightarrow> address \<times> int \<Rightarrow> (address \<times> AccountStat) list" where
  "add_volume statMap av = (case av of (account, volume) \<Rightarrow>
     (case map_of statMap account of
        Some stat \<Rightarrow> AList.update account
          (stat\<lparr>Share := map_option (\<lambda>s. s + volume) (Share stat), Number := Number stat + 1\<rparr>) statMap
      | None \<Rightarrow> AList.update account
          \<lparr>Account = account, Reward = None, Share = Some volume, Number = 1\<rparr> statMap))"

definition FindAccountVolumes ::
  "env \<Rightarrow> params \<Rightarrow> string \<Rightarrow> u64 \<Rightarrow> u64 \<Rightarrow> bool \<Rightarrow> AccountStat list action" where
  "FindAccountVolumes E P exchange startHeight endHeight useTimestamp w = do {
     let mhs = Find_VolumeHistory E w (ToLower exchange) useTimestamp startHeight endHeight;
     let w = w @ [EvFind tbVolumeHistory (ToLower exchange)];
     result \<leftarrow> ConvertToSortedSlice (foldl add_volume [] (List.map_filter (counted_volume E P) mhs));
     Some (result, w)
   }"


section \<open>Only the database\<close>

text \<open>The functions of this component touch nothing but the database, and pause between retries.\<close>

fun is_db :: "event \<Rightarrow> bool" where
  "is_db (EvInsert _ _) = True"
| "is_db (EvUpsertId _ _ _) = True"
| "is_db (EvUpdateId _ _ _ _) = True"
| "is_db (EvFind _ _) = True"
| "is_db (EvSleep _) = True"
| "is_db _ = False"

lemma is_db_not_send [dest]: "is_db e \<Longrightarrow> \<not> is_send e"
  by (cases e) auto

lemma only_db_calls [adds_intros]:
  "only is_db (db_Insert E doc)" "only is_db (db_UpsertId E key doc)"
  "only is_db (db_UpdateId E coll key updates)"
  by (auto intro!: onlyI simp: db_Insert_def db_UpsertId_def db_UpdateId_def Let_def)

lemma only_finds [adds_intros]:
  "only is_db (FindLatestSyncInfo E)" "only is_db (FindLatestLiquidity E x)"
  "only is_db (FindLiquidity E x)" "only is_db (FindVolumeRewardResult E x)"
  "only is_db (FindLiquidRewardResult E x)" "only is_db (FindLatestVolume E x)"
  "only is_db (FindVolume E x)" "only is_db (FindLiquidityBalance E x y n)"
  "only is_db (FindBlocksInRange E n m)" "only is_db (FindAllAccounts E x)"
  "only is_db (FindAllTokenAccounts E x)" "only is_db (FindAccountVolumes E P x n m t)"
  by (auto intro!: onlyI simp: FindLatestSyncInfo_def FindLatestLiquidity_def FindLiquidity_def
      FindVolumeRewardResult_def FindLiquidRewardResult_def FindLatestVolume_def FindVolume_def
      FindLiquidityBalance_def FindBlocksInRange_def FindAllAccounts_def FindAllTokenAccounts_def
      FindAccountVolumes_def Let_def split: sum.splits if_splits Option.bind_splits)

lemma only_AddBlock [adds_intros]: "only is_db (AddBlock E mb ow)"
  unfolding AddBlock_def [abs_def] by (rule adds_intros only_rules | rule only_bind_pure)+

lemma only_AddTransaction [adds_intros]: "only is_db (AddTransaction E mt ow)"
  unfolding AddTransaction_def [abs_def] by (rule adds_intros only_rules | rule only_bind_pure)+

lemma only_AddLiquidity [adds_intros]: "only is_db (AddLiquidity E ml ow)"
  unfolding AddLiquidity_def [abs_def] by (rule adds_intros only_rules | rule only_bind_pure)+

lemma only_AddVolume [adds_intros]: "only is_db (AddVolume E mv ow)"
  unfolding AddVolume_def [abs_def] by (rule adds_intros only_rules | rule only_bind_pure)+

lemma only_AddVolumeHistory [adds_intros]: "only is_db (AddVolumeHistory E mh ow)"
  unfolding AddVolumeHistory_def [abs_def] by (rule adds_intros only_rules | rule only_bind_pure)+

lemma only_AddAccount [adds_intros]: "only is_db (AddAccount E ma)"
  unfolding AddAccount_def [abs_def] by (rule adds_intros only_rules | rule only_bind_pure)+

lemma only_AddTokenAccount [adds_intros]: "only is_db (AddTokenAccount E ta)"
  unfolding AddTokenAccount_def [abs_def] by (rule adds_intros only_rules | rule only_bind_pure)+

lemma only_AddLiquidityBalance [adds_intros]: "only is_db (AddLiquidityBalance E lb)"
  unfolding AddLiquidityBalance_def [abs_def] by (rule adds_intros only_rules | rule only_bind_pure)+

lemma only_AddDistributeInfo [adds_intros]: "only is_db (AddDistributeInfo E di)"
  unfolding AddDistributeInfo_def [abs_def] by (rule adds_intros only_rules | rule only_bind_pure)+

lemma only_AddVolumeRewardResult [adds_intros]: "only is_db (AddVolumeRewardResult E vr)"
  unfolding AddVolumeRewardResult_def [abs_def] by (rule adds_intros only_rules | rule only_bind_pure)+

lemma only_AddLiquidRewardResult [adds_intros]: "only is_db (AddLiquidRewardResult E lr)"
  unfolding AddLiquidRewardResult_def [abs_def] by (rule adds_intros only_rules | rule only_bind_pure)+

lemma only_UpdateSyncInfo [adds_intros]: "only is_db (UpdateSyncInfo E n h t)"
  unfolding UpdateSyncInfo_def [abs_def] by (rule adds_intros only_rules | rule only_bind_pure)+

lemma only_UpdateVolumeWithReceipt [adds_intros]: "only is_db (UpdateVolumeWithReceipt E exr h n t)"
  unfolding UpdateVolumeWithReceipt_def [abs_def] by (rule adds_intros only_rules | rule only_bind_pure)+

lemma TryDoTimes_loop_Suc:
  "TryDoTimes_loop (Suc n) f err = (\<lambda>w. f w \<bind> (\<lambda>(err, w).
     if err = None \<or> err = Some ErrDup then Some (None, w)
     else TryDoTimes_loop n f err (w @ [EvSleep retryDBInterval])))"
  by (simp add: fun_eq_iff)

lemma only_TryDoTimes:
  assumes "only P f" and "\<And>n. P (EvSleep n)"
  shows "only P (TryDoTimes f)"
proof -
  have "only P (TryDoTimes_loop n f err)" for n err
  proof (induction n arbitrary: err)
    case 0
    show ?case by (simp add: only_def)
  next
    case (Suc n)
    show ?case unfolding TryDoTimes_loop_Suc
      by (intro only_bind only_if only_return only_after assms Suc.IH)
  qed
  then show ?thesis by (simp add: TryDoTimes_def [abs_def])
qed

lemma returning_TryDoTimes: "returning f \<Longrightarrow> returning (TryDoTimes f)"
proof -
  assume f: "returning f"
  have "TryDoTimes_loop n f err w \<noteq> None" for n err w
  proof (induction n arbitrary: err w)
    case (Suc n)
    obtain e w' where "f w = Some (e, w')" using f unfolding returning_def by fastforce
    with Suc show ?case by simp
  qed simp
  then show ?thesis by (simp add: returning_def TryDoTimes_def)
qed

lemma returning_adds:
  "returning (AddBlock E mb ow)" "returning (AddTransaction E mt ow)" "returning (AddVolumeHistory E mh ow)"
  "returning (AddAccount E ma)" "returning (AddTokenAccount E ta)" "returning (UpdateSyncInfo E n h t)"
  "returning (AddVolumeRewardResult E vr)" "returning (AddLiquidRewardResult E lr)"
  by (simp_all add: returning_def AddBlock_def AddTransaction_def AddVolumeHistory_def AddAccount_def AddTokenAccount_def
      UpdateSyncInfo_def AddVolumeRewardResult_def AddLiquidRewardResult_def FindVolumeRewardResult_def
      FindLiquidRewardResult_def db_Insert_def db_UpsertId_def db_UpdateId_def Let_def split: option.split)

lemmas returning_intros = returning_TryDoTimes returning_adds returning_rules

lemma db_silent: "only is_db f \<Longrightarrow> silent f"
  by (erule only_mono) blast

lemmas silent_api [silent_intros] =
  only_finds [THEN db_silent] only_AddBlock [THEN db_silent] only_AddTransaction [THEN db_silent]
  only_AddLiquidity [THEN db_silent] only_AddVolume [THEN db_silent] only_AddVolumeHistory [THEN db_silent]
  only_AddAccount [THEN db_silent] only_AddTokenAccount [THEN db_silent]
  only_AddLiquidityBalance [THEN db_silent] only_AddDistributeInfo [THEN db_silent]
  only_AddVolumeRewardResult [THEN db_silent] only_AddLiquidRewardResult [THEN db_silent]
  only_UpdateSyncInfo [THEN db_silent] only_UpdateVolumeWithReceipt [THEN db_silent]

lemma silent_TryDoTimes [silent_intros]: "silent f \<Longrightarrow> silent (TryDoTimes f)"
  by (rule only_TryDoTimes) simp_all

section \<open>Retried writes\<close>

text \<open>
  The contract of a write that is retried: one call of the driver per attempt, whose outcome
  decides the result; a duplicate may be reported or hidden, anything else is reported.
\<close>

locale db_write =
  fixes op :: "error option action"
    and ev :: "error option \<Rightarrow> event"
  assumes one_call: "\<exists>err err'. op w = Some (err', w @ [ev err]) \<and> dup_ok err' = dup_ok err
    \<and> (err' \<noteq> None \<longrightarrow> err' = err)"
begin

definition attempts :: "error list \<Rightarrow> event list" where
  "attempts errs = concat (map (\<lambda>e. [ev (Some e), EvSleep retryDBInterval]) errs)"

lemma attempts_simps [simp]:
  "attempts [] = []" "attempts (e # errs) = ev (Some e) # EvSleep retryDBInterval # attempts errs"
  by (simp_all add: attempts_def)

lemma retry_cases:
  obtains (good) ok where "op w = Some (None, w @ [ev ok])" "dup_ok ok = None"
  | (dup) "op w = Some (Some ErrDup, w @ [ev (Some ErrDup)])"
  | (bad) e where "op w = Some (Some e, w @ [ev (Some e)])" "e \<noteq> ErrDup"
proof -
  obtain err err' where *: "op w = Some (err', w @ [ev err])" "dup_ok err' = dup_ok err"
      "err' \<noteq> None \<longrightarrow> err' = err"
    using one_call by blast
  show thesis
  proof (cases err')
    case None
    with * show ?thesis by (intro good) (auto simp: dup_ok_def)
  next
    case (Some e)
    with * show ?thesis by (cases "e = ErrDup") (auto intro: dup bad)
  qed
qed

lemma loop_result:
  "\<exists>errs. length errs \<le> n \<and> ErrDup \<notin> set errs \<and>
     (if length errs = n
      then TryDoTimes_loop n op err0 w = Some (if n = 0 then err0 else Some (last errs), w @ attempts errs)
      else \<exists>ok. dup_ok ok = None \<and> TryDoTimes_loop n op err0 w = Some (None, w @ attempts errs @ [ev ok]))"
proof (induction n arbitrary: err0 w)
  case (Suc n)
  consider (fin) ok err' where "op w = Some (err', w @ [ev ok])" "dup_ok ok = None" "dup_ok err' = None"
    | (bad) e where "op w = Some (Some e, w @ [ev (Some e)])" "e \<noteq> ErrDup"
    by (rule retry_cases [of w]) (auto simp: dup_ok_def)
  then show ?case
  proof cases
    case fin
    have "err' = None \<or> err' = Some ErrDup"
      using fin(3) by (auto simp: dup_ok_def split: option.splits if_splits)
    with fin show ?thesis by (intro exI [of _ "[]"]) auto
  next
    case bad
    let ?w = "w @ [ev (Some e), EvSleep retryDBInterval]"
    obtain errs where IH: "length errs \<le> n" "ErrDup \<notin> set errs"
      "if length errs = n
       then TryDoTimes_loop n op (Some e) ?w = Some (if n = 0 then Some e else Some (last errs), ?w @ attempts errs)
       else \<exists>ok. dup_ok ok = None \<and> TryDoTimes_loop n op (Some e) ?w = Some (None, ?w @ attempts errs @ [ev ok])"
      using Suc.IH [of "Some e" ?w] by blast
    with bad show ?thesis
      by (intro exI [of _ "e # errs"]) (auto split: if_splits)
  qed
qed simp

lemma TryDoTimes_result:
  "\<exists>errs. length errs \<le> 3 \<and> ErrDup \<notin> set errs \<and>
     (if length errs = 3 then TryDoTimes op w = Some (Some (last errs), w @ attempts errs)
      else \<exists>ok. dup_ok ok = None \<and> TryDoTimes op w = Some (None, w @ attempts errs @ [ev ok]))"
proof -
  obtain errs where "length errs \<le> 3 \<and> ErrDup \<notin> set errs \<and>
     (if length errs = 3 then TryDoTimes op w = Some (if (3::nat) = 0 then None else Some (last errs), w @ attempts errs)
      else \<exists>ok. dup_ok ok = None \<and> TryDoTimes op w = Some (None, w @ attempts errs @ [ev ok]))"
    unfolding TryDoTimes_def retryDBCount_def using loop_result [of 3 None w] by blast
  then show ?thesis by (intro exI [of _ errs]) auto
qed

end

lemma dup_ok_simps [simp]: "dup_ok None = None" "dup_ok (dup_ok e) = dup_ok e"
  by (auto simp: dup_ok_def split: option.split)

lemma dup_ok_eq: "dup_ok e = Some y \<Longrightarrow> Some y = e"
  by (auto simp: dup_ok_def split: option.splits if_splits)

lemmas db_defs = db_Insert_def db_UpsertId_def db_UpdateId_def Let_def

interpretation add_block: db_write "AddBlock E mb overwrite"
  "\<lambda>err. if overwrite then EvUpsertId (mb_Key mb) (DocBlock mb) err else EvInsert (DocBlock mb) err"
  for E mb overwrite
  by unfold_locales (auto simp: AddBlock_def db_defs)

interpretation add_transaction: db_write "AddTransaction E mt overwrite"
  "\<lambda>err. if overwrite then EvUpsertId (mt_Key mt) (DocTransaction mt) err else EvInsert (DocTransaction mt) err"
  for E mt overwrite
  by unfold_locales (auto simp: AddTransaction_def db_defs)

interpretation add_history: db_write "AddVolumeHistory E mv overwrite"
  "\<lambda>err. if overwrite then EvUpsertId (mh_Key mv) (DocVolumeHistory mv) err else EvInsert (DocVolumeHistory mv) err"
  for E mv overwrite
  by unfold_locales (auto simp: AddVolumeHistory_def db_defs dup_ok_eq)

interpretation add_account: db_write "AddAccount E ma" "EvInsert (DocAccount ma)" for E ma
  by unfold_locales (auto simp: AddAccount_def db_defs dup_ok_eq)

interpretation add_token_account: db_write "AddTokenAccount E ma" "EvInsert (DocTokenAccount ma)" for E ma
  by unfold_locales (auto simp: AddTokenAccount_def db_defs dup_ok_eq)

interpretation add_balance: db_write "AddLiquidityBalance E ma" "EvInsert (DocLiquidityBalance ma)" for E ma
  by unfold_locales (auto simp: AddLiquidityBalance_def db_defs dup_ok_eq)


section \<open>Accumulating volumes\<close>

text \<open>The volume document last stored under a key, as the history tells.\<close>

fun stored_volume :: "string \<Rightarrow> event \<Rightarrow> MgoVolume option" where
  "stored_volume key (EvUpsertId k (DocVolume mv) None) = (if k = key then Some mv else None)"
| "stored_volume key _ = None"

definition last_volume :: "string \<Rightarrow> world \<Rightarrow> MgoVolume option" where
  "last_volume key w = foldl (\<lambda>v e. case stored_volume key e of None \<Rightarrow> v | Some mv \<Rightarrow> Some mv) None w"

lemma last_volume_Nil [simp]: "last_volume key [] = None"
  by (simp add: last_volume_def)

lemma last_volume_snoc [simp]:
  "last_volume key (w @ [e]) = (case stored_volume key e of None \<Rightarrow> last_volume key w | Some mv \<Rightarrow> Some mv)"
  by (simp add: last_volume_def split: option.split)

lemma last_volume_snoc2 [simp]:
  "last_volume key (w @ [e, e']) =
     (case stored_volume key e' of None \<Rightarrow> last_volume key (w @ [e]) | Some mv \<Rightarrow> Some mv)"
  using last_volume_snoc [of key "w @ [e]" e'] by simp

text \<open>
  A database that keeps what was stored, as the driver documents: an upsert replaces the
  document of its key, and a query by key returns it.
\<close>

definition volume_db :: "env \<Rightarrow> bool" where
  "volume_db E \<longleftrightarrow> (\<forall>w key doc. UpsertId E w key doc = None)
     \<and> (\<forall>w key. FindId_Volume E w key = (case last_volume key w of None \<Rightarrow> Inl ErrNotFound | Some mv \<Rightarrow> Inr mv))"

text \<open>One after the other, the updates of receipts of one exchange with the same day.\<close>

fun update_all :: "env \<Rightarrow> (ExchangeReceipt \<times> string \<times> u64) list \<Rightarrow> u64 \<Rightarrow> world \<Rightarrow> world option" where
  "update_all E [] timestamp w = Some w"
| "update_all E ((exr, blockHash, blockNumber) # rs) timestamp w = do {
     (err, w) \<leftarrow> UpdateVolumeWithReceipt E exr blockHash blockNumber timestamp w;
     if err \<noteq> None then None else update_all E rs timestamp w
   }"

definition receipt_amounts :: "ExchangeReceipt \<Rightarrow> int \<times> int" where
  "receipt_amounts exr = (case receipt_volumes exr of
     Inr (Some c, Some t) \<Rightarrow> (c, t) | _ \<Rightarrow> (0, 0))"

definition good_receipt :: "string \<Rightarrow> ExchangeReceipt \<Rightarrow> bool" where
  "good_receipt exchange exr \<longleftrightarrow> xr_Exchange exr = exchange
     \<and> (case receipt_volumes exr of Inr (Some c, Some t) \<Rightarrow> True | _ \<Rightarrow> False)"

definition volumes_are :: "MgoVolume option \<Rightarrow> int \<Rightarrow> int \<Rightarrow> bool" where
  "volumes_are mv coins tokens \<longleftrightarrow> (case mv of
     None \<Rightarrow> coins = 0 \<and> tokens = 0
   | Some mv \<Rightarrow> GetBigIntFromString (mv_CoinVolume24h mv) = Inr coins
       \<and> GetBigIntFromString (mv_TokenVolume24h mv) = Inr tokens)"

lemma UpdateVolumeWithReceipt_adds:
  assumes "volume_db E" "good_receipt exchange exr"
    and "volumes_are (last_volume (GetKeyOfExchangeAndTimestamp exchange timestamp) w) coins tokens"
  shows "\<exists>w'. UpdateVolumeWithReceipt E exr bh bn timestamp w = Some (None, w')
    \<and> last_volume (GetKeyOfExchangeAndTimestamp exchange timestamp) w' \<noteq> None
    \<and> volumes_are (last_volume (GetKeyOfExchangeAndTimestamp exchange timestamp) w')
        (coins + fst (receipt_amounts exr)) (tokens + snd (receipt_amounts exr))"
proof -
  obtain c t where r: "receipt_volumes exr = Inr (Some c, Some t)" "xr_Exchange exr = exchange"
    using assms(2) by (auto simp: good_receipt_def split: sum.splits option.splits)
  with assms(1,3) show ?thesis
    by (cases "last_volume (GetKeyOfExchangeAndTimestamp exchange timestamp) w")
      (auto simp: UpdateVolumeWithReceipt_def FindVolume_def AddVolume_def db_defs volume_db_def
        volumes_are_def receipt_amounts_def found_def ptr_String_def ptr_Add_def add.commute)
qed

lemma update_all_adds:
  assumes "volume_db E" "\<forall>(exr, bh, bn) \<in> set rs. good_receipt exchange exr"
    and "volumes_are (last_volume (GetKeyOfExchangeAndTimestamp exchange timestamp) w) coins tokens"
  shows "\<exists>w'. update_all E rs timestamp w = Some w'
    \<and> (rs = [] \<longrightarrow> w' = w)
    \<and> (rs \<noteq> [] \<or> last_volume (GetKeyOfExchangeAndTimestamp exchange timestamp) w \<noteq> None
        \<longrightarrow> last_volume (GetKeyOfExchangeAndTimestamp exchange timestamp) w' \<noteq> None)
    \<and> volumes_are (last_volume (GetKeyOfExchangeAndTimestamp exchange timestamp) w')
        (coins + (\<Sum>(exr, bh, bn) \<leftarrow> rs. fst (receipt_amounts exr)))
        (tokens + (\<Sum>(exr, bh, bn) \<leftarrow> rs. snd (receipt_amounts exr)))"
  using assms(2,3)
proof (induction rs arbitrary: w coins tokens)
  case (Cons r rs)
  obtain exr bh bn where r: "r = (exr, bh, bn)" by (cases r) auto
  with Cons.prems obtain w1 where "UpdateVolumeWithReceipt E exr bh bn timestamp w = Some (None, w1)"
    "last_volume (GetKeyOfExchangeAndTimestamp exchange timestamp) w1 \<noteq> None"
    "volumes_are (last_volume (GetKeyOfExchangeAndTimestamp exchange timestamp) w1)
        (coins + fst (receipt_amounts exr)) (tokens + snd (receipt_amounts exr))"
    using UpdateVolumeWithReceipt_adds [OF assms(1), of exchange exr timestamp w coins tokens bh bn] by auto
  moreover from Cons.prems(1) have "\<forall>(exr, bh, bn) \<in> set rs. good_receipt exchange exr" by auto
  ultimately show ?case using r Cons.IH [of w1 "coins + fst (receipt_amounts exr)" "tokens + snd (receipt_amounts exr)"]
    by (auto simp: add.assoc)
qed simp

section \<open>The statistics of a range\<close>

text \<open>What the accumulated entries say of an account.\<close>

definition volume_stat :: "(address \<times> int) list \<Rightarrow> address \<Rightarrow> AccountStat" where
  "volume_stat entries account =
     \<lparr>Account = account, Reward = None,
      Share = Some (\<Sum>(a, v) \<leftarrow> filter (\<lambda>e. fst e = account) entries. v),
      Number = of_nat (length (filter (\<lambda>e. fst e = account) entries))\<rparr>"

lemma volume_stat_snoc:
  "volume_stat (entries @ [(a, v)]) account =
     (if a = account then (volume_stat entries account)
        \<lparr>Share := map_option (\<lambda>s. s + v) (Share (volume_stat entries account)),
         Number := Number (volume_stat entries account) + 1\<rparr>
      else volume_stat entries account)"
  by (simp add: volume_stat_def)

lemma volume_stat_absent:
  "account \<notin> fst ` set entries \<Longrightarrow>
     volume_stat entries account = \<lparr>Account = account, Reward = None, Share = Some 0, Number = 0\<rparr>"
proof -
  assume "account \<notin> fst ` set entries"
  then have "filter (\<lambda>e. fst e = account) entries = []" by (auto simp: filter_empty_conv)
  then show ?thesis by (simp add: volume_stat_def)
qed

lemma add_volume_map:
  assumes "distinct (map fst m)"
  shows "distinct (map fst (add_volume m (a, v)))"
    and "map_of (add_volume m (a, v)) = (map_of m)(a \<mapsto> (case map_of m a of
       Some stat \<Rightarrow> stat\<lparr>Share := map_option (\<lambda>s. s + v) (Share stat), Number := Number stat + 1\<rparr>
     | None \<Rightarrow> \<lparr>Account = a, Reward = None, Share = Some v, Number = 1\<rparr>))"
  using assms by (auto simp: add_volume_def update_conv' distinct_update split: option.split)

lemma add_volumes_map:
  "distinct (map fst (foldl add_volume [] entries))
   \<and> map_of (foldl add_volume [] entries) =
       (\<lambda>a. if a \<in> fst ` set entries then Some (volume_stat entries a) else None)"
proof (induction entries rule: rev_induct)
  case Nil
  then show ?case by auto
next
  case (snoc e entries)
  obtain a v where e: "e = (a, v)" by (cases e)
  let ?m = "foldl add_volume [] entries"
  have "distinct (map fst ?m)" using snoc by blast
  moreover have m: "map_of ?m = (\<lambda>a. if a \<in> fst ` set entries then Some (volume_stat entries a) else None)"
    using snoc by blast
  moreover have "map_of (add_volume ?m (a, v)) =
      (\<lambda>b. if b \<in> insert a (fst ` set entries) then Some (volume_stat (entries @ [(a, v)]) b) else None)"
    using add_volume_map(2) [OF \<open>distinct (map fst ?m)\<close>, of a v] m
    by (auto simp: volume_stat_snoc volume_stat_absent)
  moreover have "fst ` set (entries @ [e]) = insert a (fst ` set entries)" by (auto simp: e)
  ultimately show ?case using add_volume_map(1) [of ?m a v] unfolding e by simp
qed

lemma add_volumes_mset:
  "mset (map snd (foldl add_volume [] entries)) =
   mset (map (volume_stat entries) (remdups (map fst entries)))"
proof -
  let ?m = "foldl add_volume [] entries"
  have m: "distinct (map fst ?m)"
    "\<And>a. map_of ?m a = (if a \<in> fst ` set entries then Some (volume_stat entries a) else None)"
    using add_volumes_map [of entries] by auto
  have "map snd ?m = map (volume_stat entries) (map fst ?m)"
  proof (simp, rule ballI)
    fix x assume "x \<in> set ?m"
    then have "map_of ?m (fst x) = Some (snd x)" using m(1) by (metis map_of_is_SomeI prod.collapse)
    with m(2) show "snd x = volume_stat entries (fst x)" by (auto split: if_splits)
  qed
  moreover have "set (map fst ?m) = set (remdups (map fst entries))"
  proof -
    have "set (map fst ?m) = dom (map_of ?m)" by (simp add: dom_map_of_conv_image_fst)
    also have "\<dots> = fst ` set entries" unfolding dom_def m(2) by simp
    finally show ?thesis by simp
  qed
  then have "mset (map fst ?m) = mset (remdups (map fst entries))"
    using m(1) by (simp only: set_eq_iff_mset_eq_distinct distinct_remdups)
  ultimately show ?thesis by (metis mset_map)
qed

lemma counted_volume_pos: "counted_volume E P mh = Some (a, v) \<Longrightarrow> 0 < v"
  by (auto simp: counted_volume_def Let_def split: option.splits if_splits)

lemma counted_entries_pos:
  "(a, v) \<in> set (List.map_filter (counted_volume E P) mhs) \<Longrightarrow> 0 < v"
  by (auto simp: map_filter_def dest: counted_volume_pos)

lemma volume_stat_share:
  assumes "\<And>a v. (a, v) \<in> set entries \<Longrightarrow> 0 < v" "account \<in> fst ` set entries"
  shows "has_share (volume_stat entries account)"
proof -
  let ?es = "filter (\<lambda>e. fst e = account) entries"
  have "0 < sum_list (map (\<lambda>(a, v). v) ?es)"
    by (rule sum_list_pos_int) (use assms in \<open>auto simp: filter_empty_conv\<close>)
  then show ?thesis by (simp add: has_share_def volume_stat_def)
qed

lemma accumulated_has_share:
  assumes "\<And>a v. (a, v) \<in> set entries \<Longrightarrow> 0 < v"
  shows "\<forall>s \<in> set (map snd (foldl add_volume [] entries)). has_share s"
proof
  fix s assume "s \<in> set (map snd (foldl add_volume [] entries))"
  then have "s \<in># mset (map (volume_stat entries) (remdups (map fst entries)))"
    unfolding add_volumes_mset [symmetric] by simp
  then obtain a where "a \<in> fst ` set entries" "s = volume_stat entries a" by auto
  with assms show "has_share s" using volume_stat_share [of entries a] by simp
qed

lemma sort_remdups_stats:
  assumes "mset xs = mset (map (volume_stat entries) (remdups (map fst entries)))"
  shows "sort_Sort Less xs = Some (sort_key share_rank (map (volume_stat entries) (remdups (map fst entries))))"
proof -
  let ?ys = "map (volume_stat entries) (remdups (map fst entries))"
  have "map Account ?ys = remdups (map fst entries)"
    by (simp add: volume_stat_def o_def)
  then have d: "distinct (map Account ?ys)" by (metis distinct_remdups)
  have u: "\<forall>s \<in> set ?ys. unrewarded s" by (auto simp: unrewarded_def volume_stat_def)
  have "sort_Sort Less xs = sort_Sort Less ?ys"
    by (rule by_share.sort_Sort_perm [symmetric]) (use u d assms in auto)
  with sort_Sort_eq_sort_key [OF u d] show ?thesis by simp
qed

lemma FindAccountVolumes_eq:
  "FindAccountVolumes E P exchange startHeight endHeight useTimestamp w =
     (let entries = List.map_filter (counted_volume E P)
            (Find_VolumeHistory E w (ToLower exchange) useTimestamp startHeight endHeight)
      in Some (sort_key share_rank (map (volume_stat entries) (remdups (map fst entries))),
               w @ [EvFind tbVolumeHistory (ToLower exchange)]))"
proof -
  let ?entries = "List.map_filter (counted_volume E P)
            (Find_VolumeHistory E w (ToLower exchange) useTimestamp startHeight endHeight)"
  let ?xs = "map snd (foldl add_volume [] ?entries)"
  have "\<forall>s \<in> set ?xs. has_share s"
    by (rule accumulated_has_share) (rule counted_entries_pos)
  then have "filter has_share ?xs = ?xs" by simp
  then show ?thesis
    unfolding FindAccountVolumes_def ConvertToSortedSlice_def Let_def
    by (simp only: sort_remdups_stats [OF add_volumes_mset] bind.bind_lunit)
qed

section \<open>Properties\<close>

text \<open>
  A retried write of a history record tries at most three times. The attempts before the
  last failed with an error that is not a duplicate and were each followed by a pause; success
  is reported exactly when the last attempt wrote the record or found it already there, and
  after three failures the error of the third is reported. Nothing else happens.
\<close>

lemma AddVolumeHistory_retried:
  "\<exists>errs. length errs \<le> 3 \<and> ErrDup \<notin> set errs \<and>
     (let call = (\<lambda>err. if overwrite then EvUpsertId (mh_Key mv) (DocVolumeHistory mv) err
                        else EvInsert (DocVolumeHistory mv) err);
          failed = concat (map (\<lambda>e. [call (Some e), EvSleep 1000]) errs)
      in if length errs = 3
         then TryDoTimes (AddVolumeHistory E mv overwrite) w = Some (Some (last errs), w @ failed)
         else \<exists>ok. (ok = None \<or> ok = Some ErrDup) \<and>
                TryDoTimes (AddVolumeHistory E mv overwrite) w = Some (None, w @ failed @ [call ok]))"
proof -
  have ok: "dup_ok ok = None \<longleftrightarrow> ok = None \<or> ok = Some ErrDup" for ok
    by (auto simp: dup_ok_def split: option.split)
  show ?thesis
    using add_history.TryDoTimes_result [of E mv overwrite w]
    unfolding add_history.attempts_def ok retryDBInterval_def Let_def .
qed


definition volume_env :: env where
  "volume_env = base_env\<lparr>FindId_Volume :=
     (\<lambda>w key. case last_volume key w of None \<Rightarrow> Inl ErrNotFound | Some mv \<Rightarrow> Inr mv)\<rparr>"

lemma volume_db_volume_env: "volume_db volume_env"
  by (simp add: volume_db_def volume_env_def base_env_def)

definition sample_receipt :: "string \<Rightarrow> string \<Rightarrow> string \<Rightarrow> ExchangeReceipt" where
  "sample_receipt logType a b = \<lparr>xr_LogType = logType, xr_LogIndex = 0, xr_Exchange = ''x'',
     xr_Pairs = ''p'', xr_Address = ''a'', xr_TokenFromAmount = a, xr_TokenToAmount = b\<rparr>"


end
