(* ===== verification/Call_Api.thy ===== *)
theory Call_Api
  imports World
begin

text \<open>
  \<open>callapi/callapi.go\<close>, \<open>loopapi.go\<close>, \<open>stakeapi.go\<close>, \<open>utils.go\<close>: the calls to the chain node. The
  node is a parameter (\<open>env\<close>); the functions here build the call data, retry, and decode the
  answers. The caller is the default one (three attempts, a pause of one second), the only one
  the program makes. The functions that retry until the node answers are instances of
  \<open>retry\<close>, which does not return when the node never does.
\<close>

definition rpcRetryCount :: nat where "rpcRetryCount = 3"
definition rpcRetryInterval :: nat where "rpcRetryInterval = 1000"

section \<open>Bounded retries (callapi.go)\<close>

text \<open>
  \<open>CallContract\<close>: the result of the last attempt. Where the node answers with an error there is
  no result.
\<close>

fun CallContract_loop ::
  "env \<Rightarrow> address \<Rightarrow> byte list \<Rightarrow> int option \<Rightarrow> nat \<Rightarrow> error + byte list \<Rightarrow> (error + byte list) action" where
  "CallContract_loop E contract data blockNumber 0 r w = Some (r, w)"
| "CallContract_loop E contract data blockNumber (Suc n) r w =
     (case CallContract_rpc E w contract data blockNumber of
        Inr res \<Rightarrow> Some (Inr res, w @ [EvCallContract contract data blockNumber])
      | Inl err \<Rightarrow> CallContract_loop E contract data blockNumber n (Inl err)
          ((w @ [EvCallContract contract data blockNumber]) @ [EvSleep rpcRetryInterval]))"

definition CallContract :: "env \<Rightarrow> address \<Rightarrow> byte list \<Rightarrow> int option \<Rightarrow> (error + byte list) action" where
  "CallContract E contract data blockNumber w =
     CallContract_loop E contract data blockNumber rpcRetryCount (Inr []) w"

fun GetCoinBalance_loop :: "env \<Rightarrow> address \<Rightarrow> int option \<Rightarrow> nat \<Rightarrow> error + int \<Rightarrow> (error + int) action" where
  "GetCoinBalance_loop E account blockNumber 0 r w = Some (r, w)"
| "GetCoinBalance_loop E account blockNumber (Suc n) r w =
     (case BalanceAt E w account blockNumber of
        Inr balance \<Rightarrow> Some (Inr balance, w @ [EvBalanceAt account blockNumber])
      | Inl err \<Rightarrow> GetCoinBalance_loop E account blockNumber n (Inl err) (w @ [EvBalanceAt account blockNumber]))"

definition GetCoinBalance :: "env \<Rightarrow> address \<Rightarrow> int option \<Rightarrow> (error + int) action" where
  "GetCoinBalance E account blockNumber w = GetCoinBalance_loop E account blockNumber rpcRetryCount (Inr 0) w"

definition packBytes :: "env \<Rightarrow> byte list list \<Rightarrow> byte list" where
  "packBytes E bsSlice =
     (case bsSlice of [] \<Rightarrow> [] | bs # rest \<Rightarrow> bs @ concat (map (\<lambda>b. LeftPadBytes E b 32) rest))"

text \<open>A call whose answer is one 256-bit number.\<close>

definition call_number :: "env \<Rightarrow> address \<Rightarrow> byte list \<Rightarrow> int option \<Rightarrow> (error + int) action" where
  "call_number E contract data blockNumber w = do {
     (r, w) \<leftarrow> CallContract E contract data blockNumber w;
     (case r of Inl err \<Rightarrow> Some (Inl err, w) | Inr res \<Rightarrow> Some (Inr (GetBigInt E res 0 32), w))
   }"

definition GetTokenTotalSupply :: "env \<Rightarrow> address \<Rightarrow> int option \<Rightarrow> (error + int) action" where
  "GetTokenTotalSupply E token blockNumber w = call_number E token (FromHex E ''0x18160ddd'') blockNumber w"

definition GetExchangeLiquidity :: "env \<Rightarrow> address \<Rightarrow> int option \<Rightarrow> (error + int) action" where
  "GetExchangeLiquidity E exchange blockNumber w = GetTokenTotalSupply E exchange blockNumber w"

definition GetTokenBalance :: "env \<Rightarrow> address \<Rightarrow> address \<Rightarrow> int option \<Rightarrow> (error + int) action" where
  "GetTokenBalance E token account blockNumber w =
     call_number E token (packBytes E [FromHex E ''0x70a08231'', Address_Bytes E account]) blockNumber w"

definition GetExchangeTokenBalance :: "env \<Rightarrow> address \<Rightarrow> address \<Rightarrow> int option \<Rightarrow> (error + int) action" where
  "GetExchangeTokenBalance E exchange token blockNumber w = GetTokenBalance E token exchange blockNumber w"

definition GetLiquidityBalance :: "env \<Rightarrow> address \<Rightarrow> address \<Rightarrow> int option \<Rightarrow> (error + int) action" where
  "GetLiquidityBalance E exchange account blockNumber w = GetTokenBalance E exchange account blockNumber w"

text \<open>A call whose answer is one address; the zero address where it fails.\<close>

definition call_address :: "env \<Rightarrow> address \<Rightarrow> byte list \<Rightarrow> address action" where
  "call_address E contract data w = do {
     (r, w) \<leftarrow> CallContract E contract data None w;
     (case r of Inl err \<Rightarrow> Some (0, w) | Inr res \<Rightarrow> Some (BytesToAddress E (GetData E res 0 32), w))
   }"

definition GetExchangeTokenAddress :: "env \<Rightarrow> address \<Rightarrow> address action" where
  "GetExchangeTokenAddress E exchange w = call_address E exchange (FromHex E ''0x9d76ea58'') w"

definition GetExchangeFactoryAddress :: "env \<Rightarrow> address \<Rightarrow> address action" where
  "GetExchangeFactoryAddress E exchange w = call_address E exchange (FromHex E ''0x966dae0e'') w"

definition GetAccountNonce :: "env \<Rightarrow> address \<Rightarrow> (error + u64) action" where
  "GetAccountNonce E account w = Some (PendingNonceAt E w account, w @ [EvPendingNonceAt account])"

definition capi_SendTransaction :: "env \<Rightarrow> SignedTx \<Rightarrow> error option action" where
  "capi_SendTransaction E tx w =
     (let err = SendTransaction_rpc E w tx in Some (err, w @ [EvSendTransaction tx err]))"

definition GetChainID :: "env \<Rightarrow> (error + int) action" where
  "GetChainID E w = Some (NetworkID E w, w @ [EvNetworkID])"

definition SuggestGasPrice :: "env \<Rightarrow> (error + int) action" where
  "SuggestGasPrice E w = Some (SuggestGasPrice_rpc E w, w @ [EvSuggestGasPrice])"

section \<open>Unpacking (utils.go)\<close>

text \<open>
  Strings are byte strings here. A slice expression whose lower bound exceeds the upper one
  panics; the upper one is at most the length by the check before it. The sums are those of
  \<open>uint64\<close>.
\<close>

definition data_len :: "byte list \<Rightarrow> u64" where
  "data_len data = of_nat (length data)"

definition UnpackABIEncodedString :: "env \<Rightarrow> byte list \<Rightarrow> u64 \<Rightarrow> (error + byte list) option" where
  "UnpackABIEncodedString E data offset =
     (if data_len data < offset + 32 then Some (Inl errAccessDataOverflow)
      else let (len, overflow) = GetUint64 E data offset 32 in
        if overflow \<or> data_len data < offset + 32 + len then Some (Inl errAccessDataOverflow)
        else if offset + 32 > offset + 32 + len then None
        else Some (Inr (drop (unat (offset + 32)) (take (unat (offset + 32 + len)) data))))"

definition UnpackABIEncodedStringInIndex :: "env \<Rightarrow> byte list \<Rightarrow> u64 \<Rightarrow> (error + byte list) option" where
  "UnpackABIEncodedStringInIndex E data index =
     (let pos = index * 32 in
      if data_len data < pos + 32 then Some (Inl errAccessDataOverflow)
      else let (offset, overflow) = GetUint64 E data pos 32 in
        if overflow \<or> data_len data < offset + 32 then Some (Inl errAccessDataOverflow)
        else UnpackABIEncodedString E data offset)"

text \<open>Big-endian bytes without leading zeros (\<open>big.Int.Bytes\<close>).\<close>

fun big_Bytes :: "nat \<Rightarrow> byte list" where
  "big_Bytes n = (if n = 0 then [] else big_Bytes (n div 256) @ [of_nat (n mod 256)])"

declare big_Bytes.simps [simp del]

text \<open>\<open>copy(dst[off:], src)\<close>.\<close>

definition copy_at :: "nat \<Rightarrow> byte list \<Rightarrow> byte list \<Rightarrow> byte list" where
  "copy_at off src dst = take off dst @ take (length dst - off) src @ drop (off + length src) dst"

definition PackStringToABIEncoded :: "env \<Rightarrow> byte list \<Rightarrow> byte list" where
  "PackStringToABIEncoded E content =
     (let strLen = data_len content;
          packingLen = (strLen + 31) div 32 * 32;
          result = replicate (unat (32 + packingLen)) 0;
          lengthBytes = LeftPadBytes E (big_Bytes (unat strLen)) 32
      in copy_at 32 content (copy_at 0 lengthBytes result))"

section \<open>ERC20 queries\<close>

definition call_string :: "env \<Rightarrow> address \<Rightarrow> byte list \<Rightarrow> (error + byte list) action" where
  "call_string E contract data w = do {
     (r, w) \<leftarrow> CallContract E contract data None w;
     (case r of
        Inl err \<Rightarrow> Some (Inl err, w)
      | Inr res \<Rightarrow> do { s \<leftarrow> UnpackABIEncodedStringInIndex E res 0; Some (s, w) })
   }"

definition GetErc20Name :: "env \<Rightarrow> address \<Rightarrow> (error + byte list) action" where
  "GetErc20Name E erc20 w = call_string E erc20 (FromHex E ''0x06fdde03'') w"

definition GetErc20Symbol :: "env \<Rightarrow> address \<Rightarrow> (error + byte list) action" where
  "GetErc20Symbol E erc20 w = call_string E erc20 (FromHex E ''0x95d89b41'') w"

definition GetErc20Decimals :: "env \<Rightarrow> address \<Rightarrow> (error + byte) action" where
  "GetErc20Decimals E erc20 w = do {
     (r, w) \<leftarrow> CallContract E erc20 (FromHex E ''0x313ce567'') None w;
     (case r of
        Inl err \<Rightarrow> Some (Inl err, w)
      | Inr res \<Rightarrow> Some (Inr (ucast (big_Uint64 (GetBigInt E res 0 32))), w))
   }"

definition GetErc20TotalSupply :: "env \<Rightarrow> address \<Rightarrow> int option \<Rightarrow> (error + int) action" where
  "GetErc20TotalSupply E erc20 blockNumber w = call_number E erc20 (FromHex E ''0x18160ddd'') blockNumber w"

section \<open>Stakes (stakeapi.go)\<close>

definition GetStakeAmount :: "env \<Rightarrow> address \<Rightarrow> address \<Rightarrow> int option \<Rightarrow> (error + int) action" where
  "GetStakeAmount E stakeContract account blockNumber w =
     call_number E stakeContract (packBytes E [FromHex E ''0x1959a002'', Address_Bytes E account]) blockNumber w"

definition GetRegisteredNodeID :: "env \<Rightarrow> address \<Rightarrow> address \<Rightarrow> int option \<Rightarrow> (error + byte list) action" where
  "GetRegisteredNodeID E stakeContract account blockNumber w = do {
     (r, w) \<leftarrow> CallContract E stakeContract
       (packBytes E [FromHex E ''0x1959a002'', Address_Bytes E account]) blockNumber w;
     (case r of
        Inl err \<Rightarrow> Some (Inl err, w)
      | Inr res \<Rightarrow> do { s \<leftarrow> UnpackABIEncodedStringInIndex E res 2; Some (s, w) })
   }"

section \<open>Unbounded retries (loopapi.go)\<close>

partial_function (option) retry :: "(error + 'a) action \<Rightarrow> 'a action" where
  "retry attempt w = do {
     (r, w) \<leftarrow> attempt w;
     (case r of
        Inr x \<Rightarrow> Some (x, w)
      | Inl err \<Rightarrow> retry attempt (w @ [EvSleep rpcRetryInterval]))
   }"

text \<open>Equations for evaluation: the result of an attempt decides before the next one is unfolded.\<close>

definition retry_after :: "(error + 'a) action \<Rightarrow> ((error + 'a) \<times> event list) option \<Rightarrow> ('a \<times> event list) option" where
  "retry_after attempt outcome = do {
     (r, w) \<leftarrow> outcome;
     (case r of
        Inr x \<Rightarrow> Some (x, w)
      | Inl err \<Rightarrow> retry attempt (w @ [EvSleep rpcRetryInterval]))
   }"

lemma retry_after_code [code]:
  "retry_after attempt None = None"
  "retry_after attempt (Some (Inr x, w)) = Some (x, w)"
  "retry_after attempt (Some (Inl err, w)) = retry attempt (w @ [EvSleep rpcRetryInterval])"
  by (simp_all add: retry_after_def)

lemma retry_code [code]: "retry attempt w = retry_after attempt (attempt w)"
  unfolding retry_after_def by (rule retry.simps)

definition rpc_HeaderByNumber :: "env \<Rightarrow> int option \<Rightarrow> (error + Header) action" where
  "rpc_HeaderByNumber E blockNumber w =
     Some (HeaderByNumber E w blockNumber, w @ [EvHeaderByNumber blockNumber])"

definition LoopGetBlockHeader :: "env \<Rightarrow> int option \<Rightarrow> Header action" where
  "LoopGetBlockHeader E blockNumber w = retry (rpc_HeaderByNumber E blockNumber) w"

definition LoopGetLatestBlockHeader :: "env \<Rightarrow> Header action" where
  "LoopGetLatestBlockHeader E w = retry (rpc_HeaderByNumber E None) w"

text \<open>Dialling the node, which is then asked for its latest header.\<close>

definition capi_DialServer :: "env \<Rightarrow> string \<Rightarrow> error option action" where
  "capi_DialServer E serverURL w =
     (let err = DialServer_rpc E w serverURL; w = w @ [EvDialServer serverURL err] in
      if err \<noteq> None then Some (err, w)
      else do { (_, w) \<leftarrow> LoopGetLatestBlockHeader E w; Some (None, w) })"

definition rpc_SyncProgress :: "env \<Rightarrow> (error + SyncProgress option) action" where
  "rpc_SyncProgress E w = Some (SyncProgress_rpc E w, w @ [EvSyncProgress])"

definition GetSyncProgress :: "env \<Rightarrow> SyncProgress option action" where
  "GetSyncProgress E w = retry (rpc_SyncProgress E) w"

definition LoopGetTokenTotalSupply :: "env \<Rightarrow> address \<Rightarrow> int option \<Rightarrow> int action" where
  "LoopGetTokenTotalSupply E a blockNumber w = retry (GetTokenTotalSupply E a blockNumber) w"

definition LoopGetExchangeLiquidity :: "env \<Rightarrow> address \<Rightarrow> int option \<Rightarrow> int action" where
  "LoopGetExchangeLiquidity E exchangeAddr blockNumber w = LoopGetTokenTotalSupply E exchangeAddr blockNumber w"

definition LoopGetCoinBalance :: "env \<Rightarrow> address \<Rightarrow> int option \<Rightarrow> int action" where
  "LoopGetCoinBalance E a blockNumber w = retry (GetCoinBalance E a blockNumber) w"

definition LoopGetTokenBalance :: "env \<Rightarrow> address \<Rightarrow> address \<Rightarrow> int option \<Rightarrow> int action" where
  "LoopGetTokenBalance E tokenAddr account blockNumber w = retry (GetTokenBalance E tokenAddr account blockNumber) w"

definition LoopGetExchangeTokenBalance :: "env \<Rightarrow> address \<Rightarrow> address \<Rightarrow> int option \<Rightarrow> int action" where
  "LoopGetExchangeTokenBalance E exchange token blockNumber w = LoopGetTokenBalance E token exchange blockNumber w"

definition LoopGetLiquidityBalance :: "env \<Rightarrow> address \<Rightarrow> address \<Rightarrow> int option \<Rightarrow> int action" where
  "LoopGetLiquidityBalance E exchange account blockNumber w = LoopGetTokenBalance E exchange account blockNumber w"

definition LoopGetStakeAmount :: "env \<Rightarrow> address \<Rightarrow> address \<Rightarrow> int option \<Rightarrow> int action" where
  "LoopGetStakeAmount E stakeContract account blockNumber w = retry (GetStakeAmount E stakeContract account blockNumber) w"

text \<open>The 36 bytes of call data: a function hash and one word.\<close>

definition fit :: "nat \<Rightarrow> byte list \<Rightarrow> byte list" where
  "fit n bs = take n (bs @ replicate n 0)"

definition rpc_CallContract :: "env \<Rightarrow> address \<Rightarrow> byte list \<Rightarrow> (error + byte list) action" where
  "rpc_CallContract E contract data w =
     Some (CallContract_rpc E w contract data None, w @ [EvCallContract contract data None])"

definition loopGetFactoryExcahngeOrToken :: "env \<Rightarrow> address \<Rightarrow> address \<Rightarrow> bool \<Rightarrow> address action" where
  "loopGetFactoryExcahngeOrToken E factory a isGetExchange w = do {
     let funcHash = FromHex E (if isGetExchange then ''0x06f2bf62'' else ''0x59770438'');
     let data = fit 4 funcHash @ fit 32 (Address_Hash_Bytes E a);
     (res, w) \<leftarrow> retry (rpc_CallContract E factory data) w;
     Some (BytesToAddress E (GetData E res 0 32), w)
   }"

definition LoopGetFactoryExchange :: "env \<Rightarrow> address \<Rightarrow> address \<Rightarrow> address action" where
  "LoopGetFactoryExchange E factory tokenAddr w = loopGetFactoryExcahngeOrToken E factory tokenAddr True w"

definition LoopGetFactoryToken :: "env \<Rightarrow> address \<Rightarrow> address \<Rightarrow> address action" where
  "LoopGetFactoryToken E factory exchange w = loopGetFactoryExcahngeOrToken E factory exchange False w"

text \<open>Despite their names these two give up after the third error, and read an empty answer.\<close>

definition answer :: "error + byte list \<Rightarrow> byte list" where
  "answer r = (case r of Inl err \<Rightarrow> [] | Inr res \<Rightarrow> res)"

definition LoopGetFactoryTokenCount :: "env \<Rightarrow> address \<Rightarrow> u64 action" where
  "LoopGetFactoryTokenCount E factory w = do {
     (r, w) \<leftarrow> CallContract E factory (FromHex E ''0x9f181b5e'') None w;
     Some (big_Uint64 (of_bytes (GetData E (answer r) 0 32)), w)
   }"

definition LoopGetFactoryTokenWithID :: "env \<Rightarrow> address \<Rightarrow> u64 \<Rightarrow> address action" where
  "LoopGetFactoryTokenWithID E factory tid w = do {
     let data = fit 4 (FromHex E ''0xaa65a6c0'') @ fit 32 (Hash_Bytes E (BigToHash E (SetUint64 tid)));
     (r, w) \<leftarrow> CallContract E factory data None w;
     Some (BytesToAddress E (GetData E (answer r) 0 32), w)
   }"


section \<open>Only queries\<close>

fun is_query :: "event \<Rightarrow> bool" where
  "is_query (EvHeaderByNumber _) = True"
| "is_query (EvBalanceAt _ _) = True"
| "is_query (EvCallContract _ _ _) = True"
| "is_query (EvPendingNonceAt _) = True"
| "is_query EvNetworkID = True"
| "is_query EvSuggestGasPrice = True"
| "is_query EvSyncProgress = True"
| "is_query (EvSleep _) = True"
| "is_query _ = False"

lemma is_query_not_send [dest]: "is_query e \<Longrightarrow> \<not> is_send e"
  by (cases e) auto

lemma only_CallContract_loop: "only is_query (CallContract_loop E contract data blockNumber n r)"
proof (induction n arbitrary: r)
  case (Suc n)
  show ?case
    unfolding CallContract_loop.simps(2) [abs_def]
    by (rule only_case_sum only_event Suc.IH | rule only_after | simp)+
qed (simp add: only_def)

lemma only_GetCoinBalance_loop: "only is_query (GetCoinBalance_loop E account blockNumber n r)"
proof (induction n arbitrary: r)
  case (Suc n)
  show ?case
    unfolding GetCoinBalance_loop.simps(2) [abs_def]
    by (rule only_case_sum only_event Suc.IH | rule only_after | simp)+
qed (simp add: only_def)

text \<open>The runs of \<open>retry\<close> that return: failed attempts, each followed by a pause, then a success.\<close>

inductive retries :: "(error + 'a) action \<Rightarrow> world \<Rightarrow> 'a \<Rightarrow> world \<Rightarrow> bool" for attempt where
  retries_done: "attempt w = Some (Inr x, w') \<Longrightarrow> retries attempt w x w'"
| retries_again: "attempt w = Some (Inl err, w1) \<Longrightarrow> retries attempt (w1 @ [EvSleep rpcRetryInterval]) x w'
    \<Longrightarrow> retries attempt w x w'"

lemma retry_imp_retries: "retry attempt w = Some (x, w') \<Longrightarrow> retries attempt w x w'"
proof -
  have "(\<lambda>(x, w'). retries attempt w x w') r" if "retry attempt w = Some r" for r
  proof (rule retry.raw_induct [where P = "\<lambda>attempt w (x, w'). retries attempt w x w'", OF _ that])
    fix rec :: "(error + 'a) action \<Rightarrow> 'a action" and attempt w r
    assume "\<And>attempt w r. rec attempt w = Some r \<Longrightarrow> case r of (x, w') \<Rightarrow> retries attempt w x w'"
      and "attempt w \<bind> (\<lambda>(r, w). case r of
        Inl err \<Rightarrow> rec attempt (w @ [EvSleep rpcRetryInterval]) | Inr x \<Rightarrow> Some (x, w)) = Some r"
    then show "case r of (x, w') \<Rightarrow> retries attempt w x w'"
      by (fastforce split: Option.bind_splits sum.splits prod.splits intro: retries_done retries_again)
  qed
  then show "retry attempt w = Some (x, w') \<Longrightarrow> retries attempt w x w'" by fastforce
qed

lemma retry_eq_Some_iff: "retry attempt w = Some (x, w') \<longleftrightarrow> retries attempt w x w'"
proof
  assume "retries attempt w x w'"
  then show "retry attempt w = Some (x, w')"
    by (induction rule: retries.induct) (subst retry.simps, simp)+
qed (rule retry_imp_retries)

lemma only_retry:
  assumes f: "only P attempt" and s: "\<And>n. P (EvSleep n)"
  shows "only P (retry attempt)"
proof (rule onlyI)
  fix w r w' assume "retry attempt w = Some (r, w')"
  then have "retries attempt w r w'" by (simp add: retry_eq_Some_iff)
  then show "adds P w w'"
  proof (induction rule: retries.induct)
    case (retries_done w x w')
    then show ?case using f by (rule onlyD [rotated])
  next
    case (retries_again w err w1 x w')
    then show ?case using s by (meson adds_snoc adds_trans f onlyD)
  qed
qed

lemma only_calls [adds_intros]:
  "only is_query (CallContract E contract data blockNumber)"
  "only is_query (GetCoinBalance E account blockNumber)"
  "only is_query (GetAccountNonce E account)"
  "only is_query (GetChainID E)" "only is_query (SuggestGasPrice E)"
  "only is_query (rpc_HeaderByNumber E blockNumber)" "only is_query (rpc_SyncProgress E)"
  "only is_query (rpc_CallContract E contract data)"
  using only_CallContract_loop only_GetCoinBalance_loop
  by (auto simp: only_def CallContract_def GetCoinBalance_def GetAccountNonce_def GetChainID_def
      SuggestGasPrice_def rpc_HeaderByNumber_def rpc_SyncProgress_def rpc_CallContract_def)

lemma only_call_number [adds_intros]: "only is_query (call_number E contract data blockNumber)"
  unfolding call_number_def [abs_def] by (rule adds_intros only_rules)+

lemma only_call_address [adds_intros]: "only is_query (call_address E contract data)"
  unfolding call_address_def [abs_def] by (rule adds_intros only_rules)+

lemma only_balances [adds_intros]:
  "only is_query (GetTokenTotalSupply E a blockNumber)"
  "only is_query (GetTokenBalance E a b blockNumber)"
  "only is_query (GetStakeAmount E a b blockNumber)"
  "only is_query (GetExchangeTokenAddress E a)" "only is_query (GetExchangeFactoryAddress E a)"
  unfolding GetTokenTotalSupply_def [abs_def] GetTokenBalance_def [abs_def] GetStakeAmount_def [abs_def]
    GetExchangeTokenAddress_def [abs_def] GetExchangeFactoryAddress_def [abs_def]
  by (rule adds_intros)+

lemma only_GetExchangeLiquidity [adds_intros]: "only is_query (GetExchangeLiquidity E a blockNumber)"
  unfolding GetExchangeLiquidity_def [abs_def] by (rule adds_intros)

lemma only_query_retry [adds_intros]: "only is_query attempt \<Longrightarrow> only is_query (retry attempt)"
  by (rule only_retry) simp_all

lemma only_loops [adds_intros]:
  "only is_query (LoopGetBlockHeader E blockNumber)" "only is_query (LoopGetLatestBlockHeader E)"
  "only is_query (GetSyncProgress E)" "only is_query (LoopGetTokenTotalSupply E a blockNumber)"
  "only is_query (LoopGetExchangeLiquidity E a blockNumber)"
  "only is_query (LoopGetCoinBalance E a blockNumber)"
  "only is_query (LoopGetTokenBalance E a b blockNumber)"
  "only is_query (LoopGetExchangeTokenBalance E a b blockNumber)"
  "only is_query (LoopGetLiquidityBalance E a b blockNumber)"
  "only is_query (LoopGetStakeAmount E a b blockNumber)"
  unfolding LoopGetBlockHeader_def [abs_def] LoopGetLatestBlockHeader_def [abs_def]
    GetSyncProgress_def [abs_def] LoopGetTokenTotalSupply_def [abs_def] LoopGetCoinBalance_def [abs_def]
    LoopGetTokenBalance_def [abs_def] LoopGetStakeAmount_def [abs_def] LoopGetExchangeLiquidity_def [abs_def]
    LoopGetExchangeTokenBalance_def [abs_def] LoopGetLiquidityBalance_def [abs_def]
  by (rule adds_intros)+


lemma query_silent: "only is_query f \<Longrightarrow> silent f"
  by (erule only_mono) blast

lemmas silent_calls [silent_intros] = only_calls [THEN query_silent] only_balances [THEN query_silent]
  only_GetExchangeLiquidity [THEN query_silent] only_loops [THEN query_silent]

lemma silent_capi_DialServer [silent_intros]: "silent (capi_DialServer E serverURL)"
proof (rule onlyI)
  fix w r w' assume run: "capi_DialServer E serverURL w = Some (r, w')"
  let ?w = "w @ [EvDialServer serverURL (DialServer_rpc E w serverURL)]"
  have first: "adds (\<lambda>e. \<not> is_send e) w ?w" by simp
  have "silent (LoopGetLatestBlockHeader E)" by (rule silent_intros)
  then have "w' = ?w \<or> adds (\<lambda>e. \<not> is_send e) ?w w'"
    using run by (auto simp: capi_DialServer_def Let_def bind_eq_Some_conv dest: onlyD split: if_splits)
  with first show "adds (\<lambda>e. \<not> is_send e) w w'" by (blast intro: adds_trans)
qed

lemma silent_retry [silent_intros]: "silent attempt \<Longrightarrow> silent (retry attempt)"
  by (rule only_retry) simp_all

section \<open>Retrying returns once the node answers\<close>

text \<open>
  The contract of an attempt: it always returns, and it succeeds where the node answers. Then
  retrying it for ever returns, provided the node answers from some point on.
\<close>

locale rpc_query =
  fixes attempt :: "(error + 'a) action"
    and answers :: "world \<Rightarrow> bool"
  assumes returns: "\<exists>r es. attempt w = Some (r, w @ es)"
    and answers_ok: "(\<And>es. answers (w @ es)) \<Longrightarrow> attempt w = Some (r, w') \<Longrightarrow> \<exists>x. r = Inr x"
begin

lemma retry_returns:
  assumes "\<And>w. N \<le> length w \<Longrightarrow> answers w"
  shows "\<exists>x w'. retry attempt w = Some (x, w')"
proof (induction "N - length w" arbitrary: w rule: less_induct)
  case less
  obtain r es where att: "attempt w = Some (r, w @ es)" using returns by blast
  show ?case
  proof (cases r)
    case (Inr x)
    with att have "retries attempt w x (w @ es)" by (simp add: retries_done)
    then show ?thesis unfolding retry_eq_Some_iff [symmetric] by blast
  next
    case (Inl err)
    let ?w = "(w @ es) @ [EvSleep rpcRetryInterval]"
    have "length w < N"
    proof (rule ccontr)
      assume "\<not> length w < N"
      then have "answers (w @ es)" for es by (simp add: assms)
      with att Inl answers_ok show False by blast
    qed
    then have "N - length ?w < N - length w" by simp
    then obtain x w' where "retry attempt ?w = Some (x, w')" using less by blast
    with att Inl have "retries attempt w x w'"
      unfolding retry_eq_Some_iff by (auto intro: retries_again)
    then show ?thesis unfolding retry_eq_Some_iff [symmetric] by blast
  qed
qed

lemma retry_total_if_answers:
  assumes "\<And>w. answers w"
  shows "\<exists>x w'. retry attempt w = Some (x, w')"
  by (rule retry_returns [of 0]) (rule assms)

end

lemma retries_last: "retries attempt w x w' \<Longrightarrow> \<exists>w1. attempt w1 = Some (Inr x, w')"
  by (induction rule: retries.induct) auto

lemma CallContract_loop_returns:
  "\<exists>r' es. CallContract_loop E contract data blockNumber n r w = Some (r', w @ es)"
proof (induction n arbitrary: r w)
  case (Suc n)
  show ?case
  proof (cases "CallContract_rpc E w contract data blockNumber")
    case (Inl err)
    obtain r' es where "CallContract_loop E contract data blockNumber n (Inl err)
        ((w @ [EvCallContract contract data blockNumber]) @ [EvSleep rpcRetryInterval]) =
      Some (r', ((w @ [EvCallContract contract data blockNumber]) @ [EvSleep rpcRetryInterval]) @ es)"
      using Suc.IH by blast
    with Inl show ?thesis by simp
  qed simp
qed simp

lemma CallContract_answers:
  assumes "CallContract_rpc E w contract data blockNumber = Inr res"
  shows "CallContract E contract data blockNumber w = Some (Inr res, w @ [EvCallContract contract data blockNumber])"
  using assms by (simp add: CallContract_def rpcRetryCount_def numeral_3_eq_3)

lemma CallContract_loop_Inr:
  assumes "CallContract_loop E contract data blockNumber (Suc n) r w = Some (Inr res, w')"
  shows "\<exists>w1. CallContract_rpc E w1 contract data blockNumber = Inr res
    \<and> w' = w1 @ [EvCallContract contract data blockNumber]"
  using assms
proof (induction n arbitrary: r w)
  case 0
  then show ?case by (auto split: sum.splits)
next
  case (Suc n)
  show ?case
  proof (cases "CallContract_rpc E w contract data blockNumber")
    case (Inl err)
    with Suc.prems show ?thesis
      by (intro Suc.IH [of "Inl err"]) (simp only: CallContract_loop.simps(2) [of _ _ _ _ "Suc n"] sum.case)
  next
    case (Inr res')
    with Suc.prems show ?thesis by (auto simp: CallContract_loop.simps(2) [of _ _ _ _ "Suc n"])
  qed
qed

lemma call_number_Inr:
  assumes "call_number E contract data blockNumber w = Some (Inr x, w')"
  shows "\<exists>w1 res. CallContract_rpc E w1 contract data blockNumber = Inr res
    \<and> x = GetBigInt E res 0 32 \<and> w' = w1 @ [EvCallContract contract data blockNumber]"
  using assms CallContract_loop_Inr [of E contract data blockNumber 2 "Inr []" w]
  by (auto simp: call_number_def CallContract_def rpcRetryCount_def numeral_2_eq_2 numeral_3_eq_3
      simp del: CallContract_loop.simps split: Option.bind_splits sum.splits)

lemma rpc_query_call_number:
  "rpc_query (call_number E contract data blockNumber)
     (\<lambda>w. \<exists>res. CallContract_rpc E w contract data blockNumber = Inr res)"
proof
  show "\<exists>r es. call_number E contract data blockNumber w = Some (r, w @ es)" for w
    using CallContract_loop_returns [of E contract data blockNumber rpcRetryCount "Inr []" w]
    by (auto simp: call_number_def CallContract_def split: sum.split)
next
  fix w r w'
  assume "\<And>es. \<exists>res. CallContract_rpc E (w @ es) contract data blockNumber = Inr res"
  then obtain res where "CallContract_rpc E w contract data blockNumber = Inr res"
    by (metis append_Nil2)
  from CallContract_answers [OF this]
  show "call_number E contract data blockNumber w = Some (r, w') \<Longrightarrow> \<exists>x. r = Inr x"
    by (auto simp: call_number_def)
qed

interpretation token_balance: rpc_query "GetTokenBalance E token account blockNumber"
  "\<lambda>w. \<exists>res. CallContract_rpc E w token (packBytes E [FromHex E ''0x70a08231'', Address_Bytes E account]) blockNumber = Inr res"
  for E token account blockNumber
  unfolding GetTokenBalance_def [abs_def] by (rule rpc_query_call_number)

interpretation total_supply: rpc_query "GetTokenTotalSupply E token blockNumber"
  "\<lambda>w. \<exists>res. CallContract_rpc E w token (FromHex E ''0x18160ddd'') blockNumber = Inr res"
  for E token blockNumber
  unfolding GetTokenTotalSupply_def [abs_def] by (rule rpc_query_call_number)

interpretation stake_amount: rpc_query "GetStakeAmount E stakeContract account blockNumber"
  "\<lambda>w. \<exists>res. CallContract_rpc E w stakeContract (packBytes E [FromHex E ''0x1959a002'', Address_Bytes E account]) blockNumber = Inr res"
  for E stakeContract account blockNumber
  unfolding GetStakeAmount_def [abs_def] by (rule rpc_query_call_number)

interpretation block_header: rpc_query "rpc_HeaderByNumber E blockNumber"
  "\<lambda>w. \<exists>h. HeaderByNumber E w blockNumber = Inr h"
  for E blockNumber
proof
  show "\<exists>r es. rpc_HeaderByNumber E blockNumber w = Some (r, w @ es)" for w
    by (simp add: rpc_HeaderByNumber_def)
next
  fix w r w'
  assume "\<And>es. \<exists>h. HeaderByNumber E (w @ es) blockNumber = Inr h"
  from this [of "[]"] show "rpc_HeaderByNumber E blockNumber w = Some (r, w') \<Longrightarrow> \<exists>x. r = Inr x"
    by (auto simp: rpc_HeaderByNumber_def)
qed

lemma LoopGetBlockHeader_answer:
  assumes "LoopGetBlockHeader E blockNumber w = Some (h, w')"
  shows "\<exists>w1. HeaderByNumber E w1 blockNumber = Inr h \<and> w' = w1 @ [EvHeaderByNumber blockNumber]"
  using assms retries_last [of "rpc_HeaderByNumber E blockNumber" w h w']
  by (auto simp: LoopGetBlockHeader_def retry_eq_Some_iff rpc_HeaderByNumber_def)

section \<open>Encoded strings\<close>

lemma of_bytes_Nil [simp]: "of_bytes [] = 0"
  by (simp add: of_bytes_def)

lemma of_bytes_snoc [simp]: "of_bytes (bs @ [b]) = of_bytes bs * 256 + uint b"
  by (simp add: of_bytes_def)

lemma of_bytes_zeros [simp]: "of_bytes (replicate k 0 @ bs) = of_bytes bs"
proof (induction bs rule: rev_induct)
  case Nil
  show ?case by (induction k) (auto simp: of_bytes_def)
next
  case (snoc b bs)
  then show ?case by (simp flip: append_assoc)
qed

lemma of_bytes_big_Bytes [simp]: "of_bytes (big_Bytes n) = int n"
proof (induction n rule: big_Bytes.induct)
  case (1 n)
  show ?case
  proof (cases "n = 0")
    case False
    have "uint (of_nat (n mod 256) :: byte) = int (n mod 256)"
      by (simp add: uint_nat unat_of_nat flip: zmod_int)
    moreover have "int (n div 256) * 256 + int (n mod 256) = int n"
      by (metis div_mult_mod_eq mult.commute of_nat_add of_nat_mult of_nat_numeral)
    ultimately show ?thesis using 1 False by (subst big_Bytes.simps) simp
  qed (simp add: big_Bytes.simps)
qed

lemma length_big_Bytes: "n < 256 ^ k \<Longrightarrow> length (big_Bytes n) \<le> k"
proof (induction k arbitrary: n)
  case (Suc k)
  then have "n div 256 < 256 ^ k" by (simp add: div_less_iff_less_mult mult.commute)
  with Suc.IH show ?case by (subst big_Bytes.simps) simp
qed (simp add: big_Bytes.simps)

text \<open>What the byte helpers of the chain library do, as documented.\<close>

definition abi_lib :: "env \<Rightarrow> bool" where
  "abi_lib E \<longleftrightarrow> (\<forall>bs n. LeftPadBytes E bs n = replicate (n - length bs) 0 @ bs)
    \<and> (\<forall>data start size. unat start + unat size \<le> length data \<longrightarrow>
         GetUint64 E data start size =
           (let v = of_bytes (take (unat size) (drop (unat start) data))
            in (word_of_int v, 18446744073709551616 \<le> v)))"

definition abi_word :: "nat \<Rightarrow> byte list" where
  "abi_word n = replicate (32 - length (big_Bytes n)) 0 @ big_Bytes n"

lemma length_abi_word: "n < 2 ^ 64 \<Longrightarrow> length (abi_word n) = 32"
proof -
  assume "n < 2 ^ 64"
  then have "length (big_Bytes n) \<le> 8" by (intro length_big_Bytes) simp
  then show ?thesis by (simp add: abi_word_def)
qed

lemma of_bytes_abi_word [simp]: "of_bytes (abi_word n) = int n"
  by (simp add: abi_word_def)

definition padded_len :: "nat \<Rightarrow> nat" where
  "padded_len n = (n + 31) div 32 * 32"

lemma padded_len_bounds: "n \<le> padded_len n" "padded_len n \<le> n + 31"
  unfolding padded_len_def by presburger+

lemma unat_of_nat_u64: "n < 2 ^ 64 \<Longrightarrow> unat (of_nat n :: u64) = n"
  by (simp add: unat_of_nat)

lemma PackString_eq:
  assumes "abi_lib E" "length content < 2 ^ 63"
  shows "PackStringToABIEncoded E content =
    abi_word (length content) @ content @ replicate (padded_len (length content) - length content) 0"
proof -
  let ?n = "length content"
  have n: "unat (data_len content) = ?n" using assms(2) by (simp add: data_len_def unat_of_nat_u64)
  then have "unat (data_len content + 31) = ?n + 31"
    using assms(2) by (simp add: unat_word_ariths)
  then have p: "unat ((data_len content + 31) div 32 * 32) = padded_len ?n"
    using padded_len_bounds [of ?n] assms(2)
    by (simp add: unat_word_ariths unat_div padded_len_def)
  then have "unat (32 + (data_len content + 31) div 32 * 32) = 32 + padded_len ?n"
    using padded_len_bounds [of ?n] assms(2) by (subst unat_word_ariths(1)) (simp add: p)
  moreover have "LeftPadBytes E (big_Bytes ?n) 32 = abi_word ?n"
    using assms(1) by (simp add: abi_lib_def abi_word_def)
  moreover have "length (abi_word ?n) = 32" using assms(2) by (simp add: length_abi_word)
  ultimately show ?thesis
    using padded_len_bounds [of ?n]
    by (simp add: PackStringToABIEncoded_def Let_def n copy_at_def)
qed

lemma GetUint64_word:
  assumes "abi_lib E" "take 32 (drop (unat start) data) = abi_word n" "n < 2 ^ 64"
    and "unat start + 32 \<le> length data"
  shows "GetUint64 E data start 32 = (of_nat n, False)"
  using assms by (simp add: abi_lib_def Let_def)

lemma Unpack_at:
  assumes E: "abi_lib E" and n: "length content < 2 ^ 63"
    and d: "data = pre @ PackStringToABIEncoded E content @ post" "length data < 2 ^ 63"
  shows "UnpackABIEncodedString E data (of_nat (length pre)) = Some (Inr content)"
proof -
  let ?n = "length content" and ?p = "length pre" and ?o = "of_nat (length pre) :: u64"
  have data: "data = pre @ abi_word ?n @ content @ replicate (padded_len ?n - ?n) 0 @ post"
    using d(1) PackString_eq [OF E n] by simp
  have w: "length (abi_word ?n) = 32" using n by (simp add: length_abi_word)
  have len: "?p + 32 + ?n \<le> length data" unfolding data by (simp add: w)
  then have u: "unat ?o = ?p" "unat (?o + 32) = ?p + 32" "unat (?o + 32 + of_nat ?n) = ?p + 32 + ?n"
    "unat (data_len data) = length data"
    using d(2) by (simp_all add: unat_of_nat_u64 unat_word_ariths data_len_def)
  have "GetUint64 E data ?o 32 = (of_nat ?n, False)"
    using E by (rule GetUint64_word) (use u len n in \<open>simp_all add: data w\<close>)
  moreover have "drop (?p + 32) (take (?p + 32 + ?n) data) = content"
    unfolding data by (simp add: w)
  ultimately show ?thesis
    using len by (simp add: UnpackABIEncodedString_def word_less_nat_alt u)
qed

section \<open>Properties\<close>


definition flaky_env :: env where
  "flaky_env = base_env\<lparr>CallContract_rpc := (\<lambda>w a d n.
     if length w < 9 then Inl (ExtError ''timeout'') else Inr (replicate 31 0 @ [100]))\<rparr>"


text \<open>
  C18: Unpacking undoes packing, wherever the string lies: in data of realistic size whose head
  number \<open>index\<close> holds the offset of a string packed by \<open>PackStringToABIEncoded\<close>,
  \<open>UnpackABIEncodedStringInIndex\<close> returns exactly that string, whatever surrounds it.
\<close>

theorem Unpack_Pack_string:
  assumes "abi_lib E" "length content < 2 ^ 63"
    and "data = pre @ PackStringToABIEncoded E content @ post" "length data < 2 ^ 63"
    and "unat index * 32 + 32 \<le> length data"
    and "take 32 (drop (unat index * 32) data) = abi_word (length pre)"
  shows "UnpackABIEncodedStringInIndex E data index = Some (Inr content)"
proof -
  let ?o = "of_nat (length pre) :: u64"
  have i: "unat (index * 32) = unat index * 32" "unat (index * 32 + 32) = unat index * 32 + 32"
    using assms(4,5) by (simp_all add: unat_word_ariths)
  have len: "length pre + 32 \<le> length data"
    using assms(2,3) PackString_eq [OF assms(1,2)] by (simp add: length_abi_word)
  have "GetUint64 E data (index * 32) 32 = (?o, False)"
    using assms(1) by (rule GetUint64_word) (use assms(4-6) len i in simp_all)
  moreover have "unat (data_len data) = length data" "unat (?o + 32) = length pre + 32"
    using assms(4) len by (simp_all add: data_len_def unat_of_nat_u64 unat_word_ariths)
  ultimately show ?thesis
    using assms(5) len Unpack_at [OF assms(1-4)]
    by (simp add: UnpackABIEncodedStringInIndex_def word_less_nat_alt i)
qed

lemma abi_lib_base_env: "abi_lib base_env"
  by (simp add: abi_lib_def base_env_def)

theorem Unpack_Pack_string_witness:
  "UnpackABIEncodedStringInIndex base_env
     (abi_word 64 @ abi_word 7 @ PackStringToABIEncoded base_env [65, 78, 89] @ [1, 2, 3]) 0 = Some (Inr [65, 78, 89])"
proof -
  have l: "length (abi_word 64) = 32" "length (abi_word 7) = 32" by (simp_all add: length_abi_word)
  show ?thesis
    by (rule Unpack_Pack_string [OF abi_lib_base_env, where pre = "abi_word 64 @ abi_word 7" and post = "[1, 2, 3]"])
      (simp_all add: l PackString_eq [OF abi_lib_base_env] padded_len_def length_abi_word)
qed

text \<open>
  The sums of the bounds checks are 64-bit: a length of \<open>2 ^ 64 - 1\<close> passes them, and the slice
  expression then panics. A contract that answers so ends the program that asked for its name.
\<close>

lemma Unpack_huge_length_panics:
  "UnpackABIEncodedString base_env (replicate 24 0 @ replicate 8 255) 0 = None"
  by code_simp

end
