(* ===== verification/Send_Tx.thy ===== *)
theory Send_Tx
  imports Call_Api Params
begin

text \<open>
  \<open>distributer/sendtx.go\<close>, first part: the arguments a transaction is built from, and one reward
  transaction. The arguments are a shared, mutable structure in the code (a pointer to the nonce
  among its fields), so the operations return the arguments they leave. Reading through a nil
  pointer panics.
\<close>

section \<open>Arguments\<close>

record BuildTxArgs =
  ba_Sender :: string
  ba_KeystoreFile :: string
  ba_PasswordFile :: string
  ba_Nonce :: "u64 option"
  ba_GasLimit :: "u64 option"
  ba_GasPrice :: "int option"
  ba_keyWrapper :: "(address \<times> byte list) option"
  ba_fromAddr :: address
  ba_chainID :: "int option"
  ba_chainSigner :: "int option"

definition GetSender :: "BuildTxArgs \<Rightarrow> address" where
  "GetSender args = ba_fromAddr args"

definition args_GetChainID :: "BuildTxArgs \<Rightarrow> int option" where
  "args_GetChainID args = ba_chainID args"

text \<open>\<open>setDefaults\<close> asks again from the start of the loop when a question fails.\<close>

partial_function (option) setDefaults_loop :: "env \<Rightarrow> address \<Rightarrow> BuildTxArgs \<Rightarrow> BuildTxArgs action" where
  "setDefaults_loop E sender args w = do {
     (r, w) \<leftarrow> (if ba_chainID args = None then do {
         (c, w) \<leftarrow> GetChainID E w;
         (case c of
            Inl err \<Rightarrow> Some (None, w)
          | Inr chainID \<Rightarrow> Some (Some (args\<lparr>ba_chainID := Some chainID, ba_chainSigner := Some chainID\<rparr>), w))
       } else Some (Some args, w));
     (case r of
        None \<Rightarrow> setDefaults_loop E sender args w
      | Some args \<Rightarrow> do {
          (r, w) \<leftarrow> (if ba_Nonce args = None then do {
              (n, w) \<leftarrow> GetAccountNonce E sender w;
              (case n of
                 Inl err \<Rightarrow> Some (None, w)
               | Inr nonce \<Rightarrow> Some (Some (args\<lparr>ba_Nonce := Some nonce\<rparr>), w))
            } else Some (Some args, w));
          (case r of
             None \<Rightarrow> setDefaults_loop E sender args w
           | Some args \<Rightarrow> do {
               (r, w) \<leftarrow> (if ba_GasPrice args = None then do {
                   (p, w) \<leftarrow> SuggestGasPrice E w;
                   (case p of
                      Inl err \<Rightarrow> Some (None, w)
                    | Inr price \<Rightarrow> Some (Some (args\<lparr>ba_GasPrice := Some price\<rparr>), w))
                 } else Some (Some args, w));
               (case r of
                  None \<Rightarrow> setDefaults_loop E sender args w
                | Some args \<Rightarrow>
                    Some (if ba_GasLimit args = None then args\<lparr>ba_GasLimit := Some 90000\<rparr> else args, w))
             })
        })
   }"

definition setDefaults :: "env \<Rightarrow> BuildTxArgs \<Rightarrow> BuildTxArgs action" where
  "setDefaults E args w = setDefaults_loop E (ba_fromAddr args) args w"

definition loadKeyStore :: "env \<Rightarrow> BuildTxArgs \<Rightarrow> (error option \<times> BuildTxArgs) action" where
  "loadKeyStore E args w = do {
     let keyjson = ReadFile E w (ba_KeystoreFile args);
     let w = w @ [EvOpenFile (ba_KeystoreFile args)];
     (case keyjson of
        Inl err \<Rightarrow> Some ((Some err, args), w)
      | Inr keyjson \<Rightarrow> do {
          let passdata = ReadFile E w (ba_PasswordFile args);
          let w = w @ [EvOpenFile (ba_PasswordFile args)];
          (case passdata of
             Inl err \<Rightarrow> Some ((Some err, args), w)
           | Inr passdata \<Rightarrow>
               (case DecryptKey E keyjson (TrimSpace passdata) of
                  Inl err \<Rightarrow> Some ((Some err, args\<lparr>ba_keyWrapper := None\<rparr>), w)
                | Inr key \<Rightarrow>
                    let args = args\<lparr>ba_keyWrapper := Some key, ba_fromAddr := fst key\<rparr>
                    in Some ((None, if ba_Sender args = [] then args\<lparr>ba_Sender := Address_String E (fst key)\<rparr> else args), w)))
        })
   }"

definition Check :: "env \<Rightarrow> BuildTxArgs \<Rightarrow> bool \<Rightarrow> (error option \<times> BuildTxArgs) action" where
  "Check E args dryRun w =
     (if ba_Sender args \<noteq> [] \<and> \<not> IsHexAddress E (ba_Sender args)
      then Some ((Some (Errorf ''wrong sender address''), args), w)
      else do {
        ((err, args), w) \<leftarrow> (if \<not> dryRun then do {
            ((err, args), w) \<leftarrow> loadKeyStore E args w;
            (if err \<noteq> None then Some ((err, args), w)
             else if \<not> EqualFold (ba_Sender args) (Address_String E (ba_fromAddr args))
             then Some ((Some (Errorf ''sender mismatch''), args), w)
             else Some ((None, args), w))
          }
          else Some ((None,
            if ba_Sender args \<noteq> [] then args\<lparr>ba_fromAddr := HexToAddress E (ba_Sender args)\<rparr>
            else args\<lparr>ba_Sender := Address_String E (ba_fromAddr args)\<rparr>), w));
        (if err \<noteq> None then Some ((err, args), w)
         else do { (args, w) \<leftarrow> setDefaults E args w; Some ((None, args), w) })
      })"

section \<open>One reward transaction\<close>

text \<open>The 68 bytes of call data: the function hash of \<open>transfer\<close>, the receiver, the amount.\<close>

definition transferFuncHash :: "env \<Rightarrow> byte list" where
  "transferFuncHash E = FromHex E ''0xa9059cbb''"

definition transfer_data :: "env \<Rightarrow> address \<Rightarrow> int \<Rightarrow> byte list" where
  "transfer_data E account reward =
     fit 4 (transferFuncHash E) @ fit 32 (Address_Hash_Bytes E account) @
     fit 32 (LeftPadBytes E (big_Bytes (nat \<bar>reward\<bar>)) 32)"

text \<open>The transaction without its nonce: a call of the reward token, or a transfer of coins.\<close>

definition reward_tx :: "env \<Rightarrow> address \<Rightarrow> int \<Rightarrow> address \<Rightarrow> u64 \<Rightarrow> u64 \<Rightarrow> int \<Rightarrow> RawTx" where
  "reward_tx E account reward rewardToken nonce gasLimit gasPrice =
     (if rewardToken \<noteq> 0
      then \<lparr>rt_Nonce = nonce, rt_To = rewardToken, rt_Amount = 0, rt_GasLimit = gasLimit,
            rt_GasPrice = gasPrice, rt_Data = transfer_data E account reward\<rparr>
      else \<lparr>rt_Nonce = nonce, rt_To = account, rt_Amount = reward, rt_GasLimit = gasLimit,
            rt_GasPrice = gasPrice, rt_Data = []\<rparr>)"

text \<open>A result: the transaction hash where one was sent, and the error.\<close>

definition sendRewardsTransaction ::
  "env \<Rightarrow> params \<Rightarrow> BuildTxArgs \<Rightarrow> address \<Rightarrow> int \<Rightarrow> address \<Rightarrow> bool \<Rightarrow> ((hash option \<times> error option) \<times> BuildTxArgs) action" where
  "sendRewardsTransaction E P args account reward rewardToken dryRun w =
     (if reward < GetDustRewardThreshold P then Some (((None, Some errDustReward), args), w)
      else if dryRun then Some (((None, None), args), w)
      else do {
        (r, w) \<leftarrow> GetAccountNonce E (ba_fromAddr args) w;
        argNonce \<leftarrow> ba_Nonce args;
        let nonce = (case r of Inl _ \<Rightarrow> argNonce | Inr n \<Rightarrow> if n > argNonce then n else argNonce);
        let args = args\<lparr>ba_Nonce := Some nonce\<rparr>;
        gasLimit \<leftarrow> ba_GasLimit args;
        let rawTx = reward_tx E account reward rewardToken nonce gasLimit
              (case ba_GasPrice args of None \<Rightarrow> 0 | Some p \<Rightarrow> p);
        chain \<leftarrow> ba_chainSigner args;
        key \<leftarrow> ba_keyWrapper args;
        (case SignTx E rawTx chain (snd key) of
           Inl _ \<Rightarrow> Some (((None, Some (Errorf ''sign tx failed, %v'')), args), w)
         | Inr sig \<Rightarrow> do {
             let signedTx = SignedTx rawTx sig;
             (err, w) \<leftarrow> capi_SendTransaction E signedTx w;
             (if err \<noteq> None then Some (((None, Some (Errorf ''send tx failed, %v'')), args), w)
              else Some (((Some (SignedTx_Hash E signedTx), None), args\<lparr>ba_Nonce := Some (nonce + 1)\<rparr>), w))
           })
      })"


section \<open>What one reward transaction does\<close>

lemma GetAccountNonce_eq: "GetAccountNonce E a w = Some (PendingNonceAt E w a, w @ [EvPendingNonceAt a])"
  by (simp add: GetAccountNonce_def)

text \<open>The outcomes: dust, dry run, an error that broadcast nothing, or exactly one transaction.\<close>

lemma sendRewardsTransaction_cases [consumes 1, case_names dust dry failed sent]:
  assumes run: "sendRewardsTransaction E P args account reward rewardToken dryRun w = Some (((h, err), args'), w')"
  obtains
    "reward < GetDustRewardThreshold P" "h = None" "err = Some errDustReward" "args' = args" "w' = w"
  | "\<not> reward < GetDustRewardThreshold P" dryRun "h = None" "err = None" "args' = args" "w' = w"
  | msg nonce where "\<not> reward < GetDustRewardThreshold P" "\<not> dryRun" "h = None" "err = Some (Errorf msg)"
      "sent w' = sent w" "args' = args\<lparr>ba_Nonce := Some nonce\<rparr>"
  | hash n nonce gasLimit gasPrice r where "\<not> reward < GetDustRewardThreshold P" "\<not> dryRun" "h = Some hash" "err = None"
      "ba_Nonce args = Some n" "PendingNonceAt E w (ba_fromAddr args) = r"
      "nonce = (case r of Inl _ \<Rightarrow> n | Inr m \<Rightarrow> if m > n then m else n)"
      "sent w' = sent w @ [reward_tx E account reward rewardToken nonce gasLimit gasPrice]"
      "args' = args\<lparr>ba_Nonce := Some (nonce + 1)\<rparr>"
proof (cases "reward < GetDustRewardThreshold P \<or> dryRun")
  case True
  with run show ?thesis by (auto simp: sendRewardsTransaction_def split: if_splits intro: that)
next
  case False
  define r where "r = PendingNonceAt E w (ba_fromAddr args)"
  from False run obtain n gasLimit chain key where *: "ba_Nonce args = Some n" "ba_GasLimit args = Some gasLimit"
      "ba_chainSigner args = Some chain" "ba_keyWrapper args = Some key"
    by (auto simp: sendRewardsTransaction_def GetAccountNonce_eq Let_def split: Option.bind_splits)
  define nonce where "nonce = (case r of Inl _ \<Rightarrow> n | Inr m \<Rightarrow> if m > n then m else n)"
  define gasPrice where "gasPrice = (case ba_GasPrice args of None \<Rightarrow> 0 | Some p \<Rightarrow> p)"
  let ?tx = "reward_tx E account reward rewardToken nonce gasLimit gasPrice"
  note defs = sendRewardsTransaction_def GetAccountNonce_eq Let_def capi_SendTransaction_def
    and names = nonce_def r_def gasPrice_def
  show ?thesis
  proof (cases "SignTx E ?tx chain (snd key)")
    case (Inl e)
    from run False * Inl [unfolded names] have "err = Some (Errorf ''sign tx failed, %v'')"
        "h = None" "args' = args\<lparr>ba_Nonce := Some nonce\<rparr>" "w' = w @ [EvPendingNonceAt (ba_fromAddr args)]"
      unfolding names by (simp_all add: defs)
    with False show ?thesis by (intro that(3) [of _ nonce]) auto
  next
    case (Inr sig)
    let ?w = "w @ [EvPendingNonceAt (ba_fromAddr args)]"
    show ?thesis
    proof (cases "SendTransaction_rpc E ?w (SignedTx ?tx sig)")
      case None
      from run False * Inr [unfolded names] None [unfolded names] have "err = None"
          "h = Some (SignedTx_Hash E (SignedTx ?tx sig))" "args' = args\<lparr>ba_Nonce := Some (nonce + 1)\<rparr>"
          "w' = ?w @ [EvSendTransaction (SignedTx ?tx sig) None]"
        unfolding names by (simp_all add: defs)
      with False * show ?thesis by (intro that(4) [of _ n r nonce gasLimit gasPrice]) (auto simp: r_def nonce_def)
    next
      case (Some e)
      from run False * Inr [unfolded names] Some [unfolded names]
      have "err = Some (Errorf ''send tx failed, %v'')" "h = None" "args' = args\<lparr>ba_Nonce := Some nonce\<rparr>"
          "w' = ?w @ [EvSendTransaction (SignedTx ?tx sig) (Some e)]"
        unfolding names by (simp_all add: defs)
      with False show ?thesis by (intro that(3) [of _ nonce]) auto
    qed
  qed
qed

text \<open>What a transaction pays: the receiving contract or account, the coins and the call data.\<close>

definition pays :: "RawTx \<Rightarrow> address \<times> int \<times> byte list" where
  "pays tx = (rt_To tx, rt_Amount tx, rt_Data tx)"

definition payment :: "env \<Rightarrow> address \<Rightarrow> address \<Rightarrow> int \<Rightarrow> address \<times> int \<times> byte list" where
  "payment E rewardToken account reward =
     (if rewardToken \<noteq> 0 then (rewardToken, 0, transfer_data E account reward) else (account, reward, []))"

lemma pays_reward_tx [simp]: "pays (reward_tx E account reward rewardToken n g p) = payment E rewardToken account reward"
  by (simp add: pays_def payment_def reward_tx_def)

lemma rt_Nonce_reward_tx [simp]: "rt_Nonce (reward_tx E account reward rewardToken n g p) = n"
  by (simp add: reward_tx_def)

end
