(* ===== verification/Block_Search.thy ===== *)
theory Block_Search
  imports Call_Api Params
begin

text \<open>
  \<open>distributer/util.go\<close>, and the choice of the sample height in \<open>distributer/byliquidity.go\<close>: the
  first block at or after a timestamp, found by stepping back with the average block time and
  then by bisection; and a pseudo random block in the last two thirds of a cycle.
\<close>

section \<open>util.go\<close>

definition CalcTotalValue :: "int option list \<Rightarrow> int" where
  "CalcTotalValue shares =
     foldl (\<lambda>sum share. case share of None \<Rightarrow> sum | Some s \<Rightarrow> if s \<le> 0 then sum else sum + s) 0 shares"

definition IsAccountExist :: "address \<Rightarrow> address list \<Rightarrow> bool" where
  "IsAccountExist account accounts \<longleftrightarrow> (\<exists>item \<in> set accounts. item = account)"

partial_function (option) binarySearch :: "env \<Rightarrow> u64 \<Rightarrow> u64 \<Rightarrow> u64 \<Rightarrow> Header action" where
  "binarySearch E timestamp high low w =
     (if low < high then do {
        let mid = (low + high) div 2;
        (header, w) \<leftarrow> LoopGetBlockHeader E (Some (SetUint64 mid)) w;
        let headerTime = big_Uint64 (h_Time header);
        if headerTime = timestamp then Some (header, w)
        else if headerTime > timestamp then binarySearch E timestamp mid low w
        else binarySearch E timestamp high (mid + 1) w
      }
      else LoopGetBlockHeader E (Some (SetUint64 low)) w)"

text \<open>The first loop: wait until the chain has reached the timestamp.\<close>

partial_function (option) waitForTimestamp :: "env \<Rightarrow> u64 \<Rightarrow> Header action" where
  "waitForTimestamp E timestamp w = do {
     (header, w) \<leftarrow> LoopGetBlockHeader E None w;
     if big_Uint64 (h_Time header) < timestamp then waitForTimestamp E timestamp (w @ [EvSleep 60000])
     else Some (header, w)
   }"

text \<open>
  The second loop: step back until a block before the timestamp. It ends with the block
  searched (\<open>Inl\<close>), or with the bounds of the bisection (\<open>Inr (high, low)\<close>). The average block
  time is never zero.
\<close>

partial_function (option) stepBack :: "env \<Rightarrow> u64 \<Rightarrow> u64 \<Rightarrow> int \<Rightarrow> u64 \<Rightarrow> (Header + u64 \<times> u64) action" where
  "stepBack E avgBlockTime timestamp blockNumber high w = do {
     (header, w) \<leftarrow> LoopGetBlockHeader E (Some blockNumber) w;
     let headerTime = big_Uint64 (h_Time header);
     if headerTime = timestamp then Some (Inl header, w)
     else if headerTime > timestamp then do {
       let high = big_Uint64 blockNumber;
       if high = 0 then Some (Inl header, w)
       else do {
         let countOfBlocks = (headerTime - timestamp) div avgBlockTime + 1;
         let blockNumber = blockNumber - SetUint64 countOfBlocks;
         stepBack E avgBlockTime timestamp (if blockNumber \<le> 0 then 0 else blockNumber) high w
       }
     }
     else Some (Inr (high, big_Uint64 blockNumber), w)
   }"

definition FindBlockByTimestamp :: "env \<Rightarrow> params \<Rightarrow> u64 \<Rightarrow> Header action" where
  "FindBlockByTimestamp E P timestamp w = do {
     (header, w) \<leftarrow> waitForTimestamp E timestamp w;
     let blockNumber = h_Number header;
     avgBlockTime \<leftarrow> GetAverageBlockTime P;
     (r, w) \<leftarrow> stepBack E avgBlockTime timestamp blockNumber (big_Uint64 blockNumber) w;
     (case r of
        Inl header \<Rightarrow> Some (header, w)
      | Inr (high, low) \<Rightarrow> binarySearch E timestamp high low w)
   }"

section \<open>byliquidity.go: the sample\<close>

definition getBlockHeightByTime :: "env \<Rightarrow> params \<Rightarrow> u64 \<Rightarrow> u64 action" where
  "getBlockHeightByTime E P timestamp w = do {
     (block, w) \<leftarrow> FindBlockByTimestamp E P timestamp w;
     Some (big_Uint64 (h_Number block), w)
   }"

text \<open>\<open>rand.Intn\<close> panics on a bound that is not positive as an \<open>int\<close>.\<close>

definition seed_of :: "env \<Rightarrow> Header \<Rightarrow> u64" where
  "seed_of E header = ucast (Keccak256Hash E
     (Hash_Bytes E (Header_Hash E header) @ big_Bytes (nat \<bar>h_Number header\<bar>) @ map of_char ''anyswap''))"

definition getRandNumber :: "env \<Rightarrow> u64 \<Rightarrow> u64 \<Rightarrow> u64 action" where
  "getRandNumber E seedBlock maxn w = do {
     (header, w) \<leftarrow> LoopGetBlockHeader E (Some (SetUint64 seedBlock)) w;
     if sint maxn \<le> 0 then None
     else Some (of_nat (rand_Intn E (seed_of E header) (unat maxn)), w)
   }"

definition CalcRandomSample :: "env \<Rightarrow> params \<Rightarrow> u64 \<Rightarrow> u64 \<Rightarrow> bool \<Rightarrow> u64 action" where
  "CalcRandomSample E P start end useTimeMeasurement w = do {
     let head = (end - start) div 3;
     let tail = end - start - head;
     (startHeight, w) \<leftarrow> (if useTimeMeasurement then getBlockHeightByTime E P start w else Some (start, w));
     (randTail, w) \<leftarrow> getRandNumber E startHeight tail w;
     Some (start + head + randTail, w)
   }"

definition CalcRandomSampleHeight :: "env \<Rightarrow> params \<Rightarrow> u64 \<Rightarrow> u64 \<Rightarrow> bool \<Rightarrow> u64 action" where
  "CalcRandomSampleHeight E P start end useTimeMeasurement w = do {
     (sample, w) \<leftarrow> CalcRandomSample E P start end useTimeMeasurement w;
     if useTimeMeasurement then getBlockHeightByTime E P sample w else Some (sample, w)
   }"

section \<open>A chain that only grows\<close>

text \<open>
  What the node documents of its answers, as far as the search relies on it: blocks have their
  numbers, their times increase strictly, a block that was there stays, the latest block is the
  highest one, and a block beyond it is an error. Heights stay below \<open>2 ^ 59\<close>, times
  below \<open>2 ^ 63\<close>.
\<close>

definition grows_chain :: "env \<Rightarrow> (int \<Rightarrow> Header) \<Rightarrow> (world \<Rightarrow> int) \<Rightarrow> bool" where
  "grows_chain E chain head \<longleftrightarrow>
     (\<forall>w. HeaderByNumber E w None = Inr (chain (head w))) \<and>
     (\<forall>w k. 0 \<le> k \<longrightarrow> k \<le> head w \<longrightarrow> HeaderByNumber E w (Some k) = Inr (chain k)) \<and>
     (\<forall>w k. head w < k \<longrightarrow> isl (HeaderByNumber E w (Some k))) \<and>
     (\<forall>w es. head w \<le> head (w @ es)) \<and> (\<forall>w. 0 \<le> head w \<and> head w < 2 ^ 59) \<and>
     (\<forall>k. 0 \<le> k \<longrightarrow> h_Number (chain k) = k) \<and>
     (\<forall>k. 0 \<le> k \<longrightarrow> k < 2 ^ 59 \<longrightarrow> 0 \<le> h_Time (chain k) \<and> h_Time (chain k) < 2 ^ 63) \<and>
     (\<forall>j k. 0 \<le> j \<longrightarrow> j < k \<longrightarrow> k < 2 ^ 59 \<longrightarrow> h_Time (chain j) < h_Time (chain k))"

definition reaches :: "(world \<Rightarrow> int) \<Rightarrow> (int \<Rightarrow> bool) \<Rightarrow> bool" where
  "reaches head P \<longleftrightarrow> (\<exists>N. \<forall>w. N \<le> length w \<longrightarrow> P (head w))"

text \<open>The block searched: the first one whose time is not before the timestamp.\<close>

definition first_block :: "(int \<Rightarrow> Header) \<Rightarrow> u64 \<Rightarrow> int \<Rightarrow> bool" where
  "first_block chain timestamp k \<longleftrightarrow> 0 \<le> k \<and> uint timestamp \<le> h_Time (chain k)
     \<and> (\<forall>j. 0 \<le> j \<longrightarrow> j < k \<longrightarrow> h_Time (chain j) < uint timestamp)"


section \<open>Only queries\<close>

lemma adds_LoopGetBlockHeader:
  "LoopGetBlockHeader E n w = Some (h, w1) \<Longrightarrow> adds is_query w w1"
  by (rule onlyD [OF only_loops(1)])

lemma only_binarySearch [adds_intros]: "only is_query (binarySearch E timestamp high low)"
proof (rule onlyI)
  fix w r w' assume *: "binarySearch E timestamp high low w = Some (r, w')"
  have "(\<lambda>E timestamp high low w (r, w'). adds is_query w w') E timestamp high low w (r, w')"
    using _ * by (rule binarySearch.raw_induct)
      (auto simp: Let_def split: Option.bind_splits if_splits dest!: adds_LoopGetBlockHeader intro: adds_trans)
  then show "adds is_query w w'" by simp
qed

lemma adds_step: "adds P w w1 \<Longrightarrow> adds P (w1 @ [e]) w2 \<Longrightarrow> P e \<Longrightarrow> adds P w w2"
  by (blast intro: adds_trans adds_snoc)

lemma only_waitForTimestamp [adds_intros]: "only is_query (waitForTimestamp E timestamp)"
proof (rule onlyI)
  fix w r w' assume *: "waitForTimestamp E timestamp w = Some (r, w')"
  have "(\<lambda>E timestamp w (r, w'). adds is_query w w') E timestamp w (r, w')"
    using _ *
  proof (rule waitForTimestamp.raw_induct)
    fix rec :: "env \<Rightarrow> u64 \<Rightarrow> Header action" and E timestamp w r
    assume IH: "\<And>E timestamp w r. rec E timestamp w = Some r \<Longrightarrow> (\<lambda>(r, w'). adds is_query w w') r"
      and body: "LoopGetBlockHeader E None w \<bind> (\<lambda>(header, w).
        if big_Uint64 (h_Time header) < timestamp then rec E timestamp (w @ [EvSleep 60000])
        else Some (header, w)) = Some r"
    obtain h w1 where h: "LoopGetBlockHeader E None w = Some (h, w1)" using body
      by (auto split: Option.bind_splits)
    show "(\<lambda>(r, w'). adds is_query w w') r"
      using body IH [of E timestamp "w1 @ [EvSleep 60000]" r] adds_LoopGetBlockHeader [OF h]
      by (auto simp: h split: if_splits intro: adds_step)
  qed
  then show "adds is_query w w'" by simp
qed

lemma only_stepBack [adds_intros]: "only is_query (stepBack E avgBlockTime timestamp blockNumber high)"
proof (rule onlyI)
  fix w r w' assume *: "stepBack E avgBlockTime timestamp blockNumber high w = Some (r, w')"
  have "(\<lambda>E avgBlockTime timestamp blockNumber high w (r, w'). adds is_query w w')
      E avgBlockTime timestamp blockNumber high w (r, w')"
    using _ * by (rule stepBack.raw_induct)
      (auto simp: Let_def split: Option.bind_splits if_splits dest!: adds_LoopGetBlockHeader intro: adds_trans)
  then show "adds is_query w w'" by simp
qed

lemma only_FindBlockByTimestamp [adds_intros]: "only is_query (FindBlockByTimestamp E P timestamp)"
  unfolding FindBlockByTimestamp_def [abs_def]
  by (rule adds_intros only_rules | rule only_bind_pure)+

lemma only_getBlockHeightByTime [adds_intros]: "only is_query (getBlockHeightByTime E P timestamp)"
  unfolding getBlockHeightByTime_def [abs_def] by (rule adds_intros only_rules)+

lemma only_getRandNumber [adds_intros]: "only is_query (getRandNumber E seedBlock maxn)"
  unfolding getRandNumber_def [abs_def] by (rule adds_intros only_rules)+

lemma only_CalcRandomSample [adds_intros]: "only is_query (CalcRandomSample E P start end t)"
  unfolding CalcRandomSample_def [abs_def] by (rule adds_intros only_rules)+

lemma only_CalcRandomSampleHeight [adds_intros]: "only is_query (CalcRandomSampleHeight E P start end t)"
  unfolding CalcRandomSampleHeight_def [abs_def] by (rule adds_intros only_rules)+

lemmas silent_search [silent_intros] = only_FindBlockByTimestamp [THEN query_silent]
  only_getBlockHeightByTime [THEN query_silent] only_CalcRandomSample [THEN query_silent]
  only_CalcRandomSampleHeight [THEN query_silent]

section \<open>The search finds the block\<close>

lemma grows_chainD:
  assumes "grows_chain E chain head"
  shows "HeaderByNumber E w None = Inr (chain (head w))"
    and "0 \<le> k \<Longrightarrow> k \<le> head w \<Longrightarrow> HeaderByNumber E w (Some k) = Inr (chain k)"
    and "head w \<le> head (w @ es)" "0 \<le> head w" "head w < 576460752303423488"
    and "0 \<le> k \<Longrightarrow> h_Number (chain k) = k"
    and "0 \<le> j \<Longrightarrow> j < k \<Longrightarrow> k < 576460752303423488 \<Longrightarrow> h_Time (chain j) < h_Time (chain k)"
  using assms by (auto simp: grows_chain_def)

lemma chain_time:
  assumes "grows_chain E chain head" "0 \<le> k" "k < 576460752303423488"
  shows "uint (big_Uint64 (h_Time (chain k))) = h_Time (chain k)"
proof -
  have "0 \<le> h_Time (chain k)" "h_Time (chain k) < 2 ^ 63"
    using assms by (auto simp: grows_chain_def)
  then show ?thesis by (simp add: big_Uint64_def uint_word_of_int)
qed

lemma header_at:
  assumes "grows_chain E chain head" "0 \<le> k" "k \<le> head w"
  shows "LoopGetBlockHeader E (Some k) w = Some (chain k, w @ [EvHeaderByNumber (Some k)])"
  unfolding LoopGetBlockHeader_def
  by (subst retry.simps) (simp add: rpc_HeaderByNumber_def grows_chainD(2) [OF assms])

lemma latest_at:
  assumes "grows_chain E chain head"
  shows "LoopGetBlockHeader E None w = Some (chain (head w), w @ [EvHeaderByNumber None])"
  unfolding LoopGetBlockHeader_def
  by (subst retry.simps) (simp add: rpc_HeaderByNumber_def grows_chainD(1) [OF assms])

lemma binarySearch_first:
  assumes g: "grows_chain E chain head"
  shows "uint low \<le> uint high \<Longrightarrow> uint high \<le> head w
    \<Longrightarrow> (\<forall>j. 0 \<le> j \<longrightarrow> j < uint low \<longrightarrow> h_Time (chain j) < uint timestamp)
    \<Longrightarrow> uint timestamp \<le> h_Time (chain (uint high))
    \<Longrightarrow> \<exists>k w'. binarySearch E timestamp high low w = Some (chain k, w') \<and> k \<le> uint high \<and> first_block chain timestamp k"
proof (induction "nat (uint high - uint low)" arbitrary: high low w rule: less_induct)
  case less
  note pre = less.prems
  have bound: "head w < 576460752303423488" using grows_chainD(5) [OF g] .
  show ?case
  proof (cases "low < high")
    case False
    with pre(1) have "low = high" by (simp add: word_less_def word_uint_eq_iff)
    with pre header_at [OF g, of "uint high" w] show ?thesis
      by (subst binarySearch.simps) (auto simp: first_block_def)
  next
    case True
    define mid where "mid = (low + high) div 2"
    have lh: "uint low < uint high" using True by (simp add: word_less_def)
    have "uint (low + high) = uint low + uint high"
      using pre(1,2) bound by (intro uint_add_no_wrap) simp
    then have mid: "uint mid = (uint low + uint high) div 2" by (simp add: mid_def uint_div)
    then have m: "uint low \<le> uint mid" "uint mid < uint high" using lh by auto
    have mh: "uint mid \<le> head w" using m pre(2) by simp
    let ?w = "w @ [EvHeaderByNumber (Some (uint mid))]"
    have "head w \<le> head ?w" using grows_chainD(3) [OF g] .
    have t: "uint (big_Uint64 (h_Time (chain (uint mid)))) = h_Time (chain (uint mid))"
      using mh bound by (intro chain_time [OF g]) auto
    have mono: "\<And>j k. 0 \<le> j \<Longrightarrow> j < k \<Longrightarrow> k \<le> head w \<Longrightarrow> h_Time (chain j) < h_Time (chain k)"
      using grows_chainD(7) [OF g] bound by force
    note unfold = binarySearch.simps [of E timestamp high low w] mid_def [symmetric] True
      header_at [OF g _ mh, simplified]
    consider (eq) "big_Uint64 (h_Time (chain (uint mid))) = timestamp"
      | (gt) "timestamp < big_Uint64 (h_Time (chain (uint mid)))"
      | (lt) "big_Uint64 (h_Time (chain (uint mid))) < timestamp"
      by (rule linorder_cases)
    then show ?thesis
    proof cases
      case eq
      then have "h_Time (chain (uint mid)) = uint timestamp" using t by simp
      then have "first_block chain timestamp (uint mid)"
        using mono [of _ "uint mid"] mh by (auto simp: first_block_def)
      with eq m show ?thesis by (intro exI [of _ "uint mid"] exI [of _ ?w]) (simp add: unfold)
    next
      case gt
      then have "uint timestamp \<le> h_Time (chain (uint mid))" using t by (simp add: word_less_def)
      moreover have "nat (uint mid - uint low) < nat (uint high - uint low)" using m lh by simp
      ultimately obtain k w' where "binarySearch E timestamp mid low ?w = Some (chain k, w')"
        "k \<le> uint mid" "first_block chain timestamp k"
        using less.hyps [of mid low ?w] pre m mh \<open>head w \<le> head ?w\<close> by auto
      moreover have "big_Uint64 (h_Time (chain (uint mid))) \<noteq> timestamp" using gt by auto
      ultimately show ?thesis using gt m by (intro exI [of _ k] exI [of _ w']) (simp add: unfold Let_def)
    next
      case lt
      then have lt': "h_Time (chain (uint mid)) < uint timestamp" using t by (simp add: word_less_def)
      have mid1: "uint (mid + 1) = uint mid + 1"
        using mh bound by (subst uint_add_no_wrap) auto
      have "h_Time (chain j) < uint timestamp" if "0 \<le> j" "j < uint (mid + 1)" for j
        using that mono [of j "uint mid"] mh lt' mid1 by (cases "j = uint mid") force+
      moreover have "nat (uint high - uint (mid + 1)) < nat (uint high - uint low)" using m mid1 by simp
      ultimately obtain k w' where "binarySearch E timestamp high (mid + 1) ?w = Some (chain k, w')"
        "k \<le> uint high" "first_block chain timestamp k"
        using less.hyps [of high "mid + 1" ?w] pre m mid1 \<open>head w \<le> head ?w\<close> by auto
      moreover have "big_Uint64 (h_Time (chain (uint mid))) \<noteq> timestamp"
        "\<not> timestamp < big_Uint64 (h_Time (chain (uint mid)))" using lt by auto
      ultimately show ?thesis by (intro exI [of _ k] exI [of _ w']) (simp add: unfold Let_def)
    qed
  qed
qed


text \<open>What stepping back ends with: the block, or bounds that enclose it.\<close>

definition encloses :: "(int \<Rightarrow> Header) \<Rightarrow> u64 \<Rightarrow> int \<Rightarrow> Header + u64 \<times> u64 \<Rightarrow> bool" where
  "encloses chain timestamp bound r \<longleftrightarrow> (case r of
     Inl h \<Rightarrow> \<exists>k. h = chain k \<and> k \<le> bound \<and> first_block chain timestamp k
   | Inr (high, low) \<Rightarrow> uint low \<le> uint high \<and> uint high \<le> bound
       \<and> h_Time (chain (uint low)) < uint timestamp \<and> uint timestamp \<le> h_Time (chain (uint high)))"

lemma u64_of_height: "0 \<le> k \<Longrightarrow> k < 576460752303423488 \<Longrightarrow> uint (big_Uint64 k) = k"
  by (simp add: big_Uint64_def uint_word_of_int)

text \<open>The step is at least one block, so that stepping back ends.\<close>

lemma step_pos:
  assumes "timestamp < headerTime" "uint headerTime < 2 ^ 63" "avg \<noteq> 0"
  shows "0 < uint ((headerTime - timestamp) div avg + 1 :: u64)"
proof -
  have "(headerTime - timestamp) div avg \<le> headerTime - timestamp"
    by (simp add: word_le_nat_alt unat_div)
  then have "uint ((headerTime - timestamp) div avg) \<le> uint (headerTime - timestamp)"
    by (simp add: word_le_def)
  also have "\<dots> \<le> uint headerTime" using assms(1) by (simp add: word_diff_less_self)
  finally have "uint ((headerTime - timestamp) div avg + 1) = uint ((headerTime - timestamp) div avg) + 1"
    using assms(2) by (subst uint_add_no_wrap) auto
  then show ?thesis by (simp add: add_nonneg_pos)
qed

lemma stepBack_encloses:
  assumes g: "grows_chain E chain head" and avg: "avg \<noteq> 0"
  shows "0 \<le> bn \<Longrightarrow> bn \<le> uint high \<Longrightarrow> uint high \<le> head w
    \<Longrightarrow> uint timestamp \<le> h_Time (chain (uint high))
    \<Longrightarrow> \<exists>r es. stepBack E avg timestamp bn high w = Some (r, w @ es) \<and> encloses chain timestamp (uint high) r"
proof (induction "nat bn" arbitrary: bn high w rule: less_induct)
  case less
  note pre = less.prems
  have bound: "head w < 576460752303423488" using grows_chainD(5) [OF g] .
  have bh: "bn \<le> head w" and bb: "bn < 576460752303423488" using pre bound by auto
  let ?w = "w @ [EvHeaderByNumber (Some bn)]" and ?t = "big_Uint64 (h_Time (chain bn))"
  have t: "uint ?t = h_Time (chain bn)" using chain_time [OF g pre(1) bb] .
  have t63: "h_Time (chain bn) < 2 ^ 63" using g pre(1) bb by (auto simp: grows_chain_def)
  have mono: "\<And>j k. 0 \<le> j \<Longrightarrow> j < k \<Longrightarrow> k \<le> head w \<Longrightarrow> h_Time (chain j) < h_Time (chain k)"
    using grows_chainD(7) [OF g] bound by force
  note unfold = stepBack.simps [of E avg timestamp bn high w] header_at [OF g pre(1) bh]
  have ubn: "uint (big_Uint64 bn) = bn" using u64_of_height [OF pre(1) bb] .
  consider (eq) "?t = timestamp" | (gt) "timestamp < ?t" | (lt) "?t < timestamp"
    by (rule linorder_cases)
  then show ?case
  proof cases
    case eq
    then have "first_block chain timestamp bn"
      using mono [of _ bn] pre(1) bh t by (auto simp: first_block_def)
    with eq pre(2) show ?thesis by (auto simp: unfold encloses_def)
  next
    case gt
    then have gt': "uint timestamp \<le> h_Time (chain bn)" using t by (simp add: word_less_def)
    show ?thesis
    proof (cases "bn = 0")
      case True
      then have "big_Uint64 bn = 0" by (simp add: big_Uint64_def)
      moreover have "first_block chain timestamp bn" using True gt' by (simp add: first_block_def)
      moreover have "?t \<noteq> timestamp" using gt by auto
      ultimately show ?thesis using gt True pre(2)
        by (intro exI [of _ "Inl (chain bn)"] exI [of _ "[EvHeaderByNumber (Some bn)]"])
          (auto simp: unfold [unfolded True] encloses_def Let_def)
    next
      case False
      define c where "c = (?t - timestamp) div avg + 1"
      have c: "0 < uint c" unfolding c_def using gt t t63 avg by (intro step_pos) auto
      let ?bn = "if bn - uint c \<le> 0 then 0 else bn - uint c"
      have b: "0 \<le> ?bn" "?bn \<le> bn" "nat ?bn < nat bn" using c pre(1) False by auto
      have "big_Uint64 bn \<noteq> 0" using ubn False by auto
      moreover have "bn \<le> head ?w" using grows_chainD(3) [OF g, of w] bh by (metis order_trans)
      then obtain r es where "stepBack E avg timestamp ?bn (big_Uint64 bn) ?w = Some (r, ?w @ es)"
        "encloses chain timestamp (uint (big_Uint64 bn)) r"
        using less.hyps [OF b(3,1), of "big_Uint64 bn" ?w] b(2) ubn gt' by auto
      moreover from this(2) have "encloses chain timestamp (uint high) r"
        using pre(2) ubn by (auto simp: encloses_def split: sum.splits)
      ultimately show ?thesis using gt c_def by (auto simp: unfold Let_def)
    qed
  next
    case lt
    then have "h_Time (chain bn) < uint timestamp" using t by (simp add: word_less_def)
    moreover have "?t \<noteq> timestamp" "\<not> timestamp < ?t" using lt by auto
    ultimately show ?thesis using pre ubn
      by (intro exI [of _ "Inr (high, big_Uint64 bn)"] exI [of _ "[EvHeaderByNumber (Some bn)]"])
        (simp add: unfold encloses_def Let_def)
  qed
qed

lemma waitForTimestamp_returns:
  assumes g: "grows_chain E chain head"
    and N: "\<And>w. N \<le> length w \<Longrightarrow> uint timestamp \<le> h_Time (chain (head w))"
  shows "\<exists>k es. waitForTimestamp E timestamp w = Some (chain k, w @ es) \<and> 0 \<le> k \<and> k \<le> head (w @ es)
    \<and> uint timestamp \<le> h_Time (chain k)"
proof (induction "N - length w" arbitrary: w rule: less_induct)
  case less
  have b: "0 \<le> head w" "head w < 576460752303423488" using grows_chainD(4,5) [OF g] by auto
  have t: "uint (big_Uint64 (h_Time (chain (head w)))) = h_Time (chain (head w))"
    using chain_time [OF g b] .
  note unfold = waitForTimestamp.simps [of E timestamp w] latest_at [OF g]
  show ?case
  proof (cases "big_Uint64 (h_Time (chain (head w))) < timestamp")
    case True
    then have "\<not> N \<le> length w" using N [of w] t by (auto simp: word_less_def)
    then have "N - length (w @ [EvHeaderByNumber None, EvSleep 60000]) < N - length w" by simp
    from less [OF this] obtain k es where "waitForTimestamp E timestamp (w @ [EvHeaderByNumber None, EvSleep 60000]) =
        Some (chain k, (w @ [EvHeaderByNumber None, EvSleep 60000]) @ es)" "0 \<le> k"
      "k \<le> head ((w @ [EvHeaderByNumber None, EvSleep 60000]) @ es)" "uint timestamp \<le> h_Time (chain k)"
      by blast
    with True show ?thesis by (auto simp: unfold)
  next
    case False
    then have "uint timestamp \<le> h_Time (chain (head w))" using t by (simp add: word_less_def)
    with False b show ?thesis
      using grows_chainD(3) [OF g, of w "[EvHeaderByNumber None]"] by (auto simp: unfold)
  qed
qed

lemma GetAverageBlockTime_pos: "GetAverageBlockTime P = Some avg \<Longrightarrow> avg \<noteq> 0"
  by (auto simp: GetAverageBlockTime_def defaultBlockTime_def Let_def split: Option.bind_splits if_splits)

lemma FindBlock_first:
  assumes g: "grows_chain E chain head" and r: "reaches head (\<lambda>h. uint timestamp \<le> h_Time (chain h))"
    and "cf_Gateway (config P) \<noteq> None"
  shows "\<exists>k w'. FindBlockByTimestamp E P timestamp w = Some (chain k, w') \<and> first_block chain timestamp k \<and> k < 2 ^ 59"
proof -
  obtain avg where avg: "GetAverageBlockTime P = Some avg"
    using assms(3) by (auto simp: GetAverageBlockTime_def Let_def)
  obtain k es where wait: "waitForTimestamp E timestamp w = Some (chain k, w @ es)" "0 \<le> k"
      "k \<le> head (w @ es)" "uint timestamp \<le> h_Time (chain k)"
    using r waitForTimestamp_returns [OF g] unfolding reaches_def by meson
  have kb: "k < 576460752303423488" using wait(3) grows_chainD(5) [OF g] by (metis le_less_trans)
  have uk: "uint (big_Uint64 k) = k" using u64_of_height [OF wait(2) kb] .
  obtain r es' where step: "stepBack E avg timestamp k (big_Uint64 k) (w @ es) = Some (r, (w @ es) @ es')"
      "encloses chain timestamp k r"
    using stepBack_encloses [OF g GetAverageBlockTime_pos [OF avg], of k "big_Uint64 k" "w @ es" timestamp]
      wait uk by auto
  have n: "h_Number (chain k) = k" using grows_chainD(6) [OF g wait(2)] .
  show ?thesis
  proof (cases r)
    case (Inl h)
    then show ?thesis using wait(1) avg step n kb by (auto simp: FindBlockByTimestamp_def encloses_def)
  next
    case (Inr hl)
    obtain high low where hl: "hl = (high, low)" by (cases hl)
    have e: "uint low \<le> uint high" "uint high \<le> k" "h_Time (chain (uint low)) < uint timestamp"
        "uint timestamp \<le> h_Time (chain (uint high))"
      using step(2) Inr hl by (auto simp: encloses_def)
    let ?w = "(w @ es) @ es'"
    have h: "uint high \<le> head ?w" using e(2) wait(3) grows_chainD(3) [OF g, of "w @ es" es'] by simp
    have "h_Time (chain j) < uint timestamp" if "0 \<le> j" "j < uint low" for j
      using grows_chainD(7) [OF g, of j "uint low"] that e kb by force
    then obtain k' w' where "binarySearch E timestamp high low ?w = Some (chain k', w')"
        "k' \<le> uint high" "first_block chain timestamp k'"
      using binarySearch_first [OF g e(1) h _ e(4)] by blast
    then show ?thesis using wait(1) avg step n Inr hl e(2) kb by (auto simp: FindBlockByTimestamp_def)
  qed
qed


lemma header_eventually:
  assumes g: "grows_chain E chain head" and "reaches head (\<lambda>h. k \<le> h)" "0 \<le> k"
  shows "\<exists>w'. LoopGetBlockHeader E (Some k) w = Some (chain k, w')"
proof -
  obtain N where "\<And>w. N \<le> length w \<Longrightarrow> k \<le> head w" using assms(2) by (auto simp: reaches_def)
  then have "\<exists>h. HeaderByNumber E w (Some k) = Inr h" if "N \<le> length w" for w
    using that grows_chainD(2) [OF g assms(3)] by blast
  then obtain h w' where h: "LoopGetBlockHeader E (Some k) w = Some (h, w')"
    using block_header.retry_returns [of N E "Some k" w] by (auto simp: LoopGetBlockHeader_def)
  then obtain w1 where "HeaderByNumber E w1 (Some k) = Inr h" using LoopGetBlockHeader_answer by blast
  moreover have "k \<le> head w1"
  proof (rule ccontr)
    assume "\<not> k \<le> head w1"
    then have "isl (HeaderByNumber E w1 (Some k))" using g by (auto simp: grows_chain_def)
    with calculation show False by simp
  qed
  ultimately show ?thesis using h grows_chainD(2) [OF g assms(3)] by auto
qed

section \<open>Properties\<close>

text \<open>
  C12: Searching a block by time is correct and ends. On a chain that only grows and whose head
  reaches the timestamp at some time, \<open>FindBlockByTimestamp\<close> returns, and what it returns is the
  first block whose time is not before the timestamp, for every average block time configured,
  and however often the estimate of the steps is wrong.
\<close>

theorem FindBlockByTimestamp_first:
  assumes "grows_chain E chain head" "reaches head (\<lambda>h. uint timestamp \<le> h_Time (chain h))"
    and "cf_Gateway (config P) \<noteq> None"
  shows "\<exists>k w'. FindBlockByTimestamp E P timestamp w = Some (chain k, w')
    \<and> 0 \<le> k \<and> uint timestamp \<le> h_Time (chain k)
    \<and> (\<forall>j. 0 \<le> j \<longrightarrow> j < k \<longrightarrow> h_Time (chain j) < uint timestamp)"
  using FindBlock_first [OF assms, of w] by (auto simp: first_block_def)

definition test_params :: params where
  "test_params = \<lparr>config = \<lparr>cf_MongoDB = None, cf_Gateway = Some \<lparr>APIAddress = [], AverageBlockTime = 0\<rparr>,
     cf_Sync = Some \<lparr>sy_JobCount = 0, sy_WaitInterval = 0, sy_Stable = 0, sy_UpdateLiquidity = False,
       sy_UpdateVolume = False, sy_ScanAllExchange = False, sy_RecordTokenAccount = False\<rparr>,
     cf_Distribute = None, cf_Exchanges = Some [], cf_Factories = [], cf_Stake = None, cf_Routers = []\<rparr>,
     factoryAddresses = None, routerAddresses = None, AllExchanges = {}, AllTokens = {}\<rparr>"

lemma grows_chain_base: "grows_chain base_env (\<lambda>k. base_header (Some k)) (\<lambda>w. 1000)"
  by (simp add: grows_chain_def base_env_def base_header_def)

theorem FindBlockByTimestamp_first_witness:
  "\<exists>k w'. FindBlockByTimestamp base_env test_params 100 [] = Some (base_header (Some k), w') \<and> k = 8"
proof -
  have "reaches (\<lambda>w. 1000) (\<lambda>h. uint (100 :: u64) \<le> h_Time (base_header (Some h)))"
    by (simp add: reaches_def base_header_def)
  from FindBlockByTimestamp_first [OF grows_chain_base this, of test_params "[]"] obtain k w' where
    "FindBlockByTimestamp base_env test_params 100 [] = Some (base_header (Some k), w')"
    "0 \<le> k" "100 \<le> 13 * k" "\<forall>j. 0 \<le> j \<longrightarrow> j < k \<longrightarrow> 13 * j < 100"
    by (auto simp: test_params_def base_header_def)
  moreover from this(4) have "k \<le> 8" by (rule_tac ccontr) (drule spec [of _ 8], simp)
  ultimately show ?thesis by (intro exI [of _ k] exI [of _ w']) simp
qed

text \<open>The block that seeds a sample is there sooner or later.\<close>

lemma seed_block_found:
  assumes "grows_chain E chain head" "cf_Gateway (config P) \<noteq> None"
    and "reaches head (\<lambda>h. uint start \<le> (if useTimeMeasurement then h_Time (chain h) else h))"
  obtains k w1 w2 where
    "(if useTimeMeasurement then getBlockHeightByTime E P start w else Some (start, w)) = Some (k, w1)"
    "LoopGetBlockHeader E (Some (uint k)) w1 = Some (chain (uint k), w2)"
proof (cases useTimeMeasurement)
  case False
  with assms(3) header_eventually [OF assms(1), of "uint start" w] show thesis
    by (auto intro: that [of start w])
next
  case True
  have r: "reaches head (\<lambda>h. uint start \<le> h_Time (chain h))" using assms(3) True by simp
  obtain k0 w1 where k0: "FindBlockByTimestamp E P start w = Some (chain k0, w1)"
      "first_block chain start k0" "k0 < 2 ^ 59"
    using FindBlock_first [OF assms(1) r assms(2)] by blast
  have k0': "0 \<le> k0" using k0(2) by (simp add: first_block_def)
  have "k0 \<le> head w" if "uint start \<le> h_Time (chain (head w))" for w
    using k0(2) that grows_chainD(4) [OF assms(1), of w] by (force simp: first_block_def)
  with r have "reaches head (\<lambda>h. k0 \<le> h)" unfolding reaches_def by meson
  from header_eventually [OF assms(1) this k0', of w1] k0 k0' True show thesis
    by (auto intro: that [of "big_Uint64 k0" w1]
      simp: getBlockHeightByTime_def grows_chainD(6) [OF assms(1)] u64_of_height)
qed

lemma getRandNumber_below:
  assumes "LoopGetBlockHeader E (Some (SetUint64 seedBlock)) w = Some (header, w')"
    and "\<And>seed n. 0 < n \<Longrightarrow> rand_Intn E seed n < n" "0 < uint maxn" "uint maxn < 2 ^ 63"
  shows "\<exists>r. getRandNumber E seedBlock maxn w = Some (r, w') \<and> uint r < uint maxn"
proof -
  let ?r = "rand_Intn E (seed_of E header) (unat maxn)"
  have sint: "sint maxn = uint maxn" using assms(3,4) by (simp add: sint_uint signed_take_bit_int_eq_self)
  have "0 < unat maxn" using assms(3) by (simp only: unat_eq_nat_uint zero_less_nat_eq)
  then have "?r < unat maxn" by (rule assms(2))
  moreover from this have "unat (of_nat ?r :: u64) = ?r"
    by (intro unat_of_nat_u64) (use u64_unat_bound [of maxn] in simp)
  ultimately have "(of_nat ?r :: u64) < maxn" by (simp only: word_less_nat_alt)
  then have "uint (of_nat ?r :: u64) < uint maxn" by (simp only: word_less_def)
  with assms(1,3) sint show ?thesis by (simp add: getRandNumber_def)
qed

text \<open>
  C19: The random sample of a cycle is always in the last two thirds of the cycle. On a chain
  that only grows and reaches the start of the cycle, with any generator that stays below its
  bound, \<open>CalcRandomSample\<close> returns a height (or a time, in the time mode) at or after the end
  of the first third of a cycle of realistic length, and before its end.
\<close>

theorem CalcRandomSample_in_cycle:
  assumes "grows_chain E chain head" "cf_Gateway (config P) \<noteq> None"
    and "reaches head (\<lambda>h. uint start \<le> (if useTimeMeasurement then h_Time (chain h) else h))"
    and "\<And>seed n. 0 < n \<Longrightarrow> rand_Intn E seed n < n"
    and "start < end" "uint end - uint start < 2 ^ 63"
  shows "\<exists>sample w'. CalcRandomSample E P start end useTimeMeasurement w = Some (sample, w')
    \<and> uint start + (uint end - uint start) div 3 \<le> uint sample \<and> uint sample < uint end"
proof -
  let ?len = "uint end - uint start"
  define head' where "head' = (end - start) div 3"
  define tail where "tail = end - start - head'"
  have len: "uint (end - start) = ?len" "0 < ?len"
    using assms(5) by (simp_all add: word_diff_less_self word_less_def order_less_imp_le)
  have hd: "uint head' = ?len div 3" by (simp add: head'_def uint_div len)
  have "head' \<le> end - start" using hd len by (simp add: word_le_def)
  then have tl: "uint tail = ?len - ?len div 3" by (simp add: tail_def word_diff_less_self hd len)
  then have bounds: "0 < uint tail" "uint tail < 2 ^ 63" using len assms(6) by linarith+
  obtain k w1 w2 where seed:
    "(if useTimeMeasurement then getBlockHeightByTime E P start w else Some (start, w)) = Some (k, w1)"
    "LoopGetBlockHeader E (Some (SetUint64 k)) w1 = Some (chain (uint k), w2)"
    by (rule seed_block_found [OF assms(1-3), of w])
  obtain r where r: "getRandNumber E k tail w1 = Some (r, w2)" "uint r < uint tail"
    using getRandNumber_below [OF seed(2) assms(4) bounds] by blast
  have "CalcRandomSample E P start end useTimeMeasurement w = Some (start + head' + r, w2)"
    using seed(1) r(1) by (simp add: CalcRandomSample_def Let_def flip: head'_def tail_def)
  moreover have "uint (start + head') = uint start + ?len div 3"
    using u64_max_bound [of "end"] len hd by (subst uint_add_no_wrap) auto
  moreover from this have "uint (start + head' + r) = uint start + ?len div 3 + uint r"
    using u64_max_bound [of "end"] len r tl by (subst uint_add_no_wrap) auto
  ultimately show ?thesis using r(2) tl by simp
qed

theorem CalcRandomSample_in_cycle_witness:
  "\<exists>sample w'. CalcRandomSample base_env test_params 100 190 False [] = Some (sample, w')
    \<and> 130 \<le> uint sample \<and> uint sample < 190"
proof -
  have "reaches (\<lambda>w. 1000) (\<lambda>h. uint (100 :: u64) \<le> (if False then h_Time (base_header (Some h)) else h))"
    by (simp add: reaches_def)
  from CalcRandomSample_in_cycle [OF grows_chain_base _ this, of test_params 190 "[]"] show ?thesis
    by (simp add: test_params_def base_env_def)
qed

end
