(* ===== verification/Options.thy ===== *)
theory Options
  imports Mongo_Api Send_Tx Block_Search
begin

text \<open>
  \<open>distributer/option.go\<close>: the options of a distribution, their checks, the output files and
  rows, the stored results, and where the accounts, shares and rewards come from (input files or
  the database). An operation that changes the options returns them. Log output is left out.

  A nil slice of weights is \<open>None\<close>; other nil slices behave like empty ones. An open output file
  is represented by its name.
\<close>

section \<open>Options\<close>

record Opt =
  o_BuildTxArgs :: BuildTxArgs
  o_TotalValue :: "int option"
  o_StartHeight :: u64
  o_EndHeight :: u64
  o_StableHeight :: u64
  o_StepCount :: u64
  o_StepReward :: "int option"
  o_Exchanges :: "string list"
  o_Weights :: "u64 list option"
  o_RewardToken :: string
  o_InputFiles :: "string list"
  o_OutputFiles :: "string list"
  o_SampleHeight :: u64
  o_SaveDB :: bool
  o_DryRun :: bool
  o_ArchiveMode :: bool
  o_WeightIsPercentage :: bool
  o_BatchCount :: u64
  o_BatchInterval :: u64
  o_UseTimeMeasurement :: bool
  o_ScalingNumerator :: "int option"
  o_ScalingDenominator :: "int option"
  o_byWhat :: string
  o_noVolumes :: u64
  o_hasNoMissingVolumes :: bool
  o_noVolumeStartHeights :: "u64 list"
  o_outputFiles :: "string option list"

definition byLiquidMethodID :: string where "byLiquidMethodID = ''liquidity''"
definition byLiquidMethodAliasID :: string where "byLiquidMethodAliasID = ''liquid''"
definition byVolumeMethodID :: string where "byVolumeMethodID = ''volume''"
definition byVolumeMethodAliasID :: string where "byVolumeMethodAliasID = ''trade''"
definition customMethodID :: string where "customMethodID = ''custom''"

lemmas method_ids = byLiquidMethodID_def byLiquidMethodAliasID_def byVolumeMethodID_def
  byVolumeMethodAliasID_def customMethodID_def

definition GetStandardByWhat :: "string \<Rightarrow> string" where
  "GetStandardByWhat byWhat =
     (if byWhat = byLiquidMethodID \<or> byWhat = byLiquidMethodAliasID then byLiquidMethodID
      else if byWhat = byVolumeMethodID \<or> byWhat = byVolumeMethodAliasID then byVolumeMethodID
      else if byWhat = customMethodID then customMethodID
      else [])"

definition SetByWhat :: "Opt \<Rightarrow> string \<Rightarrow> error option \<times> Opt" where
  "SetByWhat opt byWhat =
     (if byWhat = byLiquidMethodID \<or> byWhat = byLiquidMethodAliasID
      then (None, opt\<lparr>o_byWhat := byLiquidMethodID\<rparr>)
      else if byWhat = byVolumeMethodID \<or> byWhat = byVolumeMethodAliasID
      then (None, opt\<lparr>o_byWhat := byVolumeMethodID\<rparr>)
      else if byWhat = customMethodID then (None, opt\<lparr>o_byWhat := customMethodID\<rparr>)
      else (Some (Errorf ''unknown byWhat''), opt))"

text \<open>\<open>deinit\<close> also closes the open files, which nothing later can observe.\<close>

definition deinit :: "Opt \<Rightarrow> Opt" where
  "deinit opt = opt\<lparr>o_noVolumeStartHeights := []\<rparr>"

section \<open>Checks\<close>

fun check_exchanges :: "params \<Rightarrow> bool \<Rightarrow> string list \<Rightarrow> error option" where
  "check_exchanges P saveDB [] = None"
| "check_exchanges P saveDB (exchange # rest) =
     (if exchange = [] then Some (Errorf ''[check option] empty exchange'')
      else if saveDB \<and> \<not> IsConfigedExchange P exchange
      then Some (Errorf ''[check option] exchange is not configed'')
      else check_exchanges P saveDB rest)"

definition CheckBasic :: "env \<Rightarrow> params \<Rightarrow> Opt \<Rightarrow> error option" where
  "CheckBasic E P opt =
     (if o_byWhat opt = customMethodID
      then (if o_RewardToken opt \<noteq> [] \<and> \<not> IsHexAddress E (o_RewardToken opt)
            then Some (Errorf ''[check option] wrong reward token'') else None)
      else if o_StartHeight opt \<ge> o_EndHeight opt then Some (Errorf ''[check option] empty range'')
      else if o_Exchanges opt = [] then Some (Errorf ''[check option] no exchanges'')
      else case check_exchanges P (o_SaveDB opt) (o_Exchanges opt) of
          Some err \<Rightarrow> Some err
        | None \<Rightarrow>
            if o_RewardToken opt = [] then Some (Errorf ''[check option] empty reward token'')
            else if \<not> IsHexAddress E (o_RewardToken opt)
            then Some (Errorf ''[check option] wrong reward token'')
            else if o_ScalingDenominator opt = Some 0
            then Some (Errorf ''[check option] scaling denominator is zero (divided by zero)'')
            else None)"

definition weights_list :: "Opt \<Rightarrow> u64 list" where
  "weights_list opt = (case o_Weights opt of None \<Rightarrow> [] | Some ws \<Rightarrow> ws)"

definition checkWeights :: "Opt \<Rightarrow> error option" where
  "checkWeights opt =
     (let ws = weights_list opt in
      if o_byWhat opt = customMethodID then None
      else if length (o_Exchanges opt) \<noteq> length ws
      then Some (Errorf ''[check option] count of exchanges != count of weights'')
      else if \<exists>weight \<in> set ws. weight = 0 then Some (Errorf ''[check option] has zero weight exchange'')
      else if o_WeightIsPercentage opt \<and> sum_list ws \<noteq> 100
      then Some (Errorf ''[check option] sum of percentage weight is not equal to 100'')
      else None)"

definition checkSteps :: "Opt \<Rightarrow> error option" where
  "checkSteps opt =
     (let step = o_StepCount opt; len = o_EndHeight opt - o_StartHeight opt in
      if step = 0 \<or> o_byWhat opt \<noteq> byVolumeMethodID then None
      else if len mod step \<noteq> 0
      then Some (Errorf ''[check option] cycle length is not intergral multiple of step'')
      else if o_StepReward opt = None then Some (Errorf ''[check option] StepReward is not specified'')
      else None)"

text \<open>\<open>distribute.go\<close>: the latest height or time.\<close>

definition calcLatestBlockNumberOrTimestamp :: "env \<Rightarrow> bool \<Rightarrow> u64 action" where
  "calcLatestBlockNumberOrTimestamp E useTimeMeasurement w = do {
     (latestBlock, w) \<leftarrow> LoopGetLatestBlockHeader E w;
     Some (big_Uint64 (if useTimeMeasurement then h_Time latestBlock else h_Number latestBlock), w)
   }"

definition CheckStable :: "env \<Rightarrow> Opt \<Rightarrow> error option action" where
  "CheckStable E opt w =
     (if o_byWhat opt = customMethodID then Some (None, w)
      else do {
        (latest, w) \<leftarrow> calcLatestBlockNumberOrTimestamp E (o_UseTimeMeasurement opt) w;
        if latest \<ge> o_EndHeight opt + o_StableHeight opt then Some (None, w)
        else if \<not> o_DryRun opt
        then Some (Some (Errorf ''[check option] latest is lower than end plus stable''), w)
        else if o_byWhat opt = byLiquidMethodID \<and> o_SampleHeight opt = 0 \<and> o_ArchiveMode opt
        then Some (Some (Errorf ''[check option] latest is lower than end plus sable, please specify sample''), w)
        else Some (None, w)
      })"

text \<open>The balance questions are repeated every second until they are answered.\<close>

definition CheckSenderRewardTokenBalance :: "env \<Rightarrow> Opt \<Rightarrow> error option action" where
  "CheckSenderRewardTokenBalance E opt w =
     (if o_RewardToken opt = []
      then Some (Some (Errorf ''[check option] check token balance with empty reward token''), w)
      else do {
        let sender = ba_fromAddr (o_BuildTxArgs opt);
        (senderTokenBalance, w) \<leftarrow> retry (GetTokenBalance E (HexToAddress E (o_RewardToken opt)) sender None) w;
        total \<leftarrow> o_TotalValue opt;
        if senderTokenBalance < total
        then (if o_DryRun opt then Some (None, w)
              else Some (Some (Errorf ''[check option] not enough reward token balance''), w))
        else do { (_, w) \<leftarrow> GetCoinBalance E sender None w; Some (None, w) }
      })"

definition CheckSenderCoinBalance :: "env \<Rightarrow> Opt \<Rightarrow> error option action" where
  "CheckSenderCoinBalance E opt w =
     (if o_RewardToken opt \<noteq> []
      then Some (Some (Errorf ''[check option] check coin balance with nonempty reward token''), w)
      else do {
        (senderBalance, w) \<leftarrow> retry (GetCoinBalance E (ba_fromAddr (o_BuildTxArgs opt)) None) w;
        total \<leftarrow> o_TotalValue opt;
        if senderBalance < total
        then (if o_DryRun opt then Some (None, w)
              else Some (Some (Errorf ''[check option] not enough coin balance''), w))
        else Some (None, w)
      })"

definition checkAndInit :: "env \<Rightarrow> params \<Rightarrow> Opt \<Rightarrow> error option action" where
  "checkAndInit E P opt w =
     (case CheckBasic E P opt of Some err \<Rightarrow> Some (Some err, w) | None \<Rightarrow>
      (case checkSteps opt of Some err \<Rightarrow> Some (Some err, w) | None \<Rightarrow>
      (case checkWeights opt of Some err \<Rightarrow> Some (Some err, w) | None \<Rightarrow> do {
         (err, w) \<leftarrow> CheckSenderRewardTokenBalance E opt w;
         if err \<noteq> None then Some (err, w) else CheckStable E opt w
       })))"

section \<open>Output\<close>

definition getDefaultOutputFile :: "env \<Rightarrow> params \<Rightarrow> Opt \<Rightarrow> nat \<Rightarrow> string action" where
  "getDefaultOutputFile E P opt i w =
     (let pairs = GetExchangePairs P (o_Exchanges opt ! i); timestamp = Now_Unix E w
      in Some (pairs @ ''-'' @ o_byWhat opt @ ''Reward-'' @ fmt_u64 (o_StartHeight opt) @ ''-''
           @ fmt_u64 (o_EndHeight opt) @ ''-'' @ fmt_u64 timestamp @ ''.csv'', w @ [EvNow]))"

definition OpenFile :: "env \<Rightarrow> string \<Rightarrow> error option action" where
  "OpenFile E fileName w = (let err = CreateFile E w fileName in Some (err, w @ [EvCreateFile fileName err]))"

definition openOutputFile :: "env \<Rightarrow> params \<Rightarrow> Opt \<Rightarrow> nat \<Rightarrow> (error option \<times> Opt) action" where
  "openOutputFile E P opt i w =
     (if i \<ge> length (o_Exchanges opt) then Some ((Some (Errorf ''open output file index overflow''), opt), w)
      else if i < length (o_outputFiles opt) \<and> o_outputFiles opt ! i \<noteq> None then Some ((None, opt), w)
      else do {
        let files = (if o_outputFiles opt = [] then replicate (length (o_Exchanges opt)) None else o_outputFiles opt);
        let fileName = (if i < length (o_OutputFiles opt) then o_OutputFiles opt ! i else []);
        (fileName, w) \<leftarrow> (if fileName = [] then getDefaultOutputFile E P opt i w else Some (fileName, w));
        (err, w) \<leftarrow> OpenFile E fileName w;
        if i \<ge> length files then None
        else Some ((err, opt\<lparr>o_outputFiles := files[i := if err = None then Some fileName else None]\<rparr>), w)
      })"

definition getOutputFile :: "env \<Rightarrow> params \<Rightarrow> Opt \<Rightarrow> nat \<Rightarrow> ((string option \<times> error option) \<times> Opt) action" where
  "getOutputFile E P opt i w = do {
     ((err, opt), w) \<leftarrow> openOutputFile E P opt i w;
     if i < length (o_outputFiles opt) then Some (((o_outputFiles opt ! i, err), opt), w) else None
   }"

definition WriteOutputLine :: "env \<Rightarrow> string \<Rightarrow> string \<Rightarrow> error option action" where
  "WriteOutputLine E ofile msg w =
     (let text = msg @ [CHR 0x0A]; err = WriteFile E w ofile text in Some (err, w @ [EvWrite ofile text err]))"

definition WriteOutput :: "env \<Rightarrow> string \<Rightarrow> string list \<Rightarrow> error option action" where
  "WriteOutput E ofile contents w = WriteOutputLine E ofile (Join contents '','') w"

section \<open>Results\<close>

definition WriteRewardResultToDB ::
  "env \<Rightarrow> params \<Rightarrow> Opt \<Rightarrow> string \<Rightarrow> string \<Rightarrow> string \<Rightarrow> string \<Rightarrow> u64 \<Rightarrow> string \<Rightarrow> unit action" where
  "WriteRewardResultToDB E P opt exchange accoutStr rewardStr shareStr number hashStr w =
     (if \<not> o_SaveDB opt \<or> o_byWhat opt = customMethodID then Some ((), w)
      else do {
        let exchange = ToLower exchange;
        let pairs = GetExchangePairs P exchange;
        (if o_byWhat opt = byVolumeMethodID then do {
           let timestamp = Now_Unix E w;
           let mr = \<lparr>vr_Key = GetKeyOfRewardResult exchange accoutStr (o_StartHeight opt),
             vr_Exchange = exchange, vr_Pairs = pairs, vr_Start = o_StartHeight opt, vr_End = o_EndHeight opt,
             vr_RewardToken = o_RewardToken opt, vr_Account = accoutStr, vr_Reward = rewardStr,
             vr_Volume = shareStr, vr_TxCount = number, vr_RewardTx = hashStr, vr_Timestamp = timestamp\<rparr>;
           (_, w) \<leftarrow> TryDoTimes (AddVolumeRewardResult E mr) (w @ [EvNow]);
           Some ((), w)
         }
         else if o_byWhat opt = byLiquidMethodID then do {
           let timestamp = Now_Unix E w;
           let mr = \<lparr>lr_Key = GetKeyOfRewardResult exchange accoutStr (o_StartHeight opt),
             lr_Exchange = exchange, lr_Pairs = pairs, lr_Start = o_StartHeight opt, lr_End = o_EndHeight opt,
             lr_RewardToken = o_RewardToken opt, lr_Account = accoutStr, lr_Reward = rewardStr,
             lr_Liquidity = shareStr, lr_Height = number, lr_RewardTx = hashStr, lr_Timestamp = timestamp\<rparr>;
           (_, w) \<leftarrow> TryDoTimes (AddLiquidRewardResult E mr) (w @ [EvNow]);
           Some ((), w)
         }
         else Some ((), w))
      })"

text \<open>The row of an account: the share and its number where there is one, the hash where one was sent.\<close>

definition reward_row :: "env \<Rightarrow> AccountStat \<Rightarrow> hash option \<Rightarrow> string list" where
  "reward_row E stat txHash =
     [ToLower (Address_String E (Account stat)), ptr_String (Reward stat)] @
     (case Share stat of None \<Rightarrow> [] | Some share \<Rightarrow> [big_String share, fmt_u64 (Number stat)]) @
     (case txHash of None \<Rightarrow> [] | Some h \<Rightarrow> [Hash_Hex E h])"

definition WriteSendRewardResult ::
  "env \<Rightarrow> params \<Rightarrow> Opt \<Rightarrow> string \<Rightarrow> string \<Rightarrow> AccountStat \<Rightarrow> hash option \<Rightarrow> error option action" where
  "WriteSendRewardResult E P opt ofile exchange stat txHash w = do {
     (err, w) \<leftarrow> WriteOutput E ofile (reward_row E stat txHash) w;
     (_, w) \<leftarrow> WriteRewardResultToDB E P opt exchange (ToLower (Address_String E (Account stat)))
       (ptr_String (Reward stat)) (case Share stat of None \<Rightarrow> [] | Some share \<Rightarrow> big_String share)
       (Number stat) (case txHash of None \<Rightarrow> [] | Some h \<Rightarrow> Hash_Hex E h) w;
     Some (err, w)
   }"

definition SendRewardsTransaction ::
  "env \<Rightarrow> params \<Rightarrow> Opt \<Rightarrow> address \<Rightarrow> int \<Rightarrow> ((hash option \<times> error option) \<times> Opt) action" where
  "SendRewardsTransaction E P opt account reward w = do {
     ((r, args), w) \<leftarrow> sendRewardsTransaction E P (o_BuildTxArgs opt) account reward
       (HexToAddress E (o_RewardToken opt)) (o_DryRun opt) w;
     Some ((r, opt\<lparr>o_BuildTxArgs := args\<rparr>), w)
   }"

section \<open>Accounts\<close>

definition isCommentedLine :: "string \<Rightarrow> bool" where
  "isCommentedLine line \<longleftrightarrow> HasPrefix line ''#'' \<or> HasPrefix line ''//''"

fun accounts_of_lines :: "env \<Rightarrow> params \<Rightarrow> string list \<Rightarrow> address list \<Rightarrow> error + address list" where
  "accounts_of_lines E P [] accounts = Inr accounts"
| "accounts_of_lines E P (lineData # rest) accounts =
     (let line = TrimSpace lineData in
      if isCommentedLine line then accounts_of_lines E P rest accounts
      else if \<not> IsHexAddress E line then Inl (Errorf ''found wrong address line %v'')
      else let account = HexToAddress E line in
        if IsExcludedRewardAccount E P account then accounts_of_lines E P rest accounts
        else if IsAccountExist account accounts then accounts_of_lines E P rest accounts
        else accounts_of_lines E P rest (accounts @ [account]))"

definition getAccountsFromFile :: "env \<Rightarrow> params \<Rightarrow> string \<Rightarrow> (error + address list) action" where
  "getAccountsFromFile E P ifile w =
     (let r = ReadFile_Lines E w ifile; w' = w @ [EvOpenFile ifile] in
      case r of
        Inl _ \<Rightarrow> Some (Inl (Errorf ''open %v failed. %v)''), w')
      | Inr lines \<Rightarrow> Some (accounts_of_lines E P lines [], w'))"

definition getAccountsFromDB :: "env \<Rightarrow> string \<Rightarrow> address list action" where
  "getAccountsFromDB E exchange w = FindAllAccounts E exchange w"

definition getInputFileName :: "Opt \<Rightarrow> nat \<Rightarrow> string" where
  "getInputFileName opt i = (if i < length (o_InputFiles opt) then o_InputFiles opt ! i else [])"

fun getAccounts_loop :: "env \<Rightarrow> params \<Rightarrow> Opt \<Rightarrow> nat \<Rightarrow> string list \<Rightarrow> (error + address list list) action" where
  "getAccounts_loop E P opt i [] w = Some (Inr [], w)"
| "getAccounts_loop E P opt i (exchange # rest) w = do {
     let ifile = getInputFileName opt i;
     (r, w) \<leftarrow> (if ifile = [] then do { (accs, w) \<leftarrow> getAccountsFromDB E exchange w; Some (Inr accs, w) }
                else getAccountsFromFile E P ifile w);
     (case r of
        Inl err \<Rightarrow> Some (Inl err, w)
      | Inr accs \<Rightarrow> do {
          (r, w) \<leftarrow> getAccounts_loop E P opt (Suc i) rest w;
          (case r of Inl err \<Rightarrow> Some (Inl err, w) | Inr accounts \<Rightarrow> Some (Inr (accs # accounts), w))
        })
   }"

definition getAccounts :: "env \<Rightarrow> params \<Rightarrow> Opt \<Rightarrow> (error + address list list) action" where
  "getAccounts E P opt w = getAccounts_loop E P opt 0 (o_Exchanges opt) w"

section \<open>Rewards and shares from files\<close>

text \<open>One line of a rewards file: skipped (\<open>None\<close>), a statistic, or an error.\<close>

definition reward_of_line :: "env \<Rightarrow> params \<Rightarrow> string \<Rightarrow> error + AccountStat option" where
  "reward_of_line E P line =
     (let parts = blankOrCommaSep_Split line in
      if length parts < 2 then Inl (Errorf ''less than 2 parts in line %v'')
      else if \<not> IsHexAddress E (parts ! 0) then Inl (Errorf ''wrong address in line %v'')
      else let account = HexToAddress E (parts ! 0) in
        if IsExcludedRewardAccount E P account then Inr None
        else case GetBigIntFromString (parts ! 1) of
            Inl _ \<Rightarrow> Inl (Errorf ''wrong reward in line %v, err=%v'')
          | Inr reward \<Rightarrow>
              if reward \<le> 0 then Inr None
              else if length parts \<ge> 4 then
                (case GetBigIntFromString (parts ! 2) of
                   Inl _ \<Rightarrow> Inl (Errorf ''wrong share in line %v, err=%v'')
                 | Inr share \<Rightarrow>
                   (case GetBigIntFromString (parts ! 3) of
                      Inl _ \<Rightarrow> Inl (Errorf ''wrong number in line %v, err=%v'')
                    | Inr number \<Rightarrow>
                        Inr (Some \<lparr>Account = account, Reward = Some reward, Share = Some share,
                                  Number = big_Uint64 number\<rparr>)))
              else Inr (Some \<lparr>Account = account, Reward = Some reward, Share = None, Number = 0\<rparr>))"

fun rewards_of_lines ::
  "env \<Rightarrow> params \<Rightarrow> string list \<Rightarrow> bool \<Rightarrow> string \<Rightarrow> AccountStat list \<Rightarrow> error + AccountStat list \<times> string" where
  "rewards_of_lines E P [] isFirstLine titleLine stats = Inr (stats, titleLine)"
| "rewards_of_lines E P (lineData # rest) isFirstLine titleLine stats =
     (let line = TrimSpace lineData in
      if isCommentedLine line
      then rewards_of_lines E P rest False (if isFirstLine then line else titleLine) stats
      else case reward_of_line E P line of
          Inl err \<Rightarrow> Inl err
        | Inr None \<Rightarrow> rewards_of_lines E P rest False titleLine stats
        | Inr (Some stat) \<Rightarrow> rewards_of_lines E P rest False titleLine (stats @ [stat]))"

definition GetAccountsAndRewardsFromFile ::
  "env \<Rightarrow> params \<Rightarrow> string \<Rightarrow> (error + AccountStat list \<times> string) action" where
  "GetAccountsAndRewardsFromFile E P ifile w =
     (let r = ReadFile_Lines E w ifile; w' = w @ [EvOpenFile ifile] in
      case r of
        Inl _ \<Rightarrow> Some (Inl (Errorf ''open %v failed. %v)''), w')
      | Inr lines \<Rightarrow> Some (rewards_of_lines E P lines True [] [], w'))"

definition share_of_line :: "env \<Rightarrow> params \<Rightarrow> u64 \<Rightarrow> string \<Rightarrow> error + AccountStat option" where
  "share_of_line E P sampleHeight line =
     (let parts = blankOrCommaSep_Split line in
      if length parts < 2 then Inl (Errorf ''less than 2 parts in line %v'')
      else if \<not> IsHexAddress E (parts ! 0) then Inl (Errorf ''wrong address in line %v'')
      else let account = HexToAddress E (parts ! 0) in
        if IsExcludedRewardAccount E P account then Inr None
        else case GetBigIntFromString (parts ! 1) of
            Inl _ \<Rightarrow> Inl (Errorf ''wrong share in line %v, err=%v'')
          | Inr share \<Rightarrow>
              if share \<le> 0 then Inr None
              else Inr (Some \<lparr>Account = account, Reward = None, Share = Some share, Number = sampleHeight\<rparr>))"

fun shares_of_lines :: "env \<Rightarrow> params \<Rightarrow> u64 \<Rightarrow> string list \<Rightarrow> AccountStat list \<Rightarrow> error + AccountStat list" where
  "shares_of_lines E P sampleHeight [] stats = Inr stats"
| "shares_of_lines E P sampleHeight (lineData # rest) stats =
     (let line = TrimSpace lineData in
      if isCommentedLine line then shares_of_lines E P sampleHeight rest stats
      else case share_of_line E P sampleHeight line of
          Inl err \<Rightarrow> Inl err
        | Inr None \<Rightarrow> shares_of_lines E P sampleHeight rest stats
        | Inr (Some stat) \<Rightarrow> shares_of_lines E P sampleHeight rest (stats @ [stat]))"

definition GetAccountsAndSharesFromFile :: "env \<Rightarrow> params \<Rightarrow> string \<Rightarrow> u64 \<Rightarrow> (error + AccountStat list) action" where
  "GetAccountsAndSharesFromFile E P ifile sampleHeight w =
     (let r = ReadFile_Lines E w ifile; w' = w @ [EvOpenFile ifile] in
      case r of
        Inl _ \<Rightarrow> Some (Inl (Errorf ''open %v failed. %v)''), w')
      | Inr lines \<Rightarrow> Some (shares_of_lines E P sampleHeight lines [], w'))"

fun GetAccountsAndShares_loop :: "env \<Rightarrow> params \<Rightarrow> u64 \<Rightarrow> string list \<Rightarrow> (error + AccountStat list list) action" where
  "GetAccountsAndShares_loop E P sampleHeight [] w = Some (Inr [], w)"
| "GetAccountsAndShares_loop E P sampleHeight (inputFile # rest) w = do {
     (r, w) \<leftarrow> GetAccountsAndSharesFromFile E P inputFile sampleHeight w;
     (case r of
        Inl err \<Rightarrow> Some (Inl err, w)
      | Inr stats \<Rightarrow> do {
          (r, w) \<leftarrow> GetAccountsAndShares_loop E P sampleHeight rest w;
          (case r of Inl err \<Rightarrow> Some (Inl err, w) | Inr all \<Rightarrow> Some (Inr (stats # all), w))
        })
   }"

definition GetAccountsAndShares :: "env \<Rightarrow> params \<Rightarrow> Opt \<Rightarrow> (error + AccountStat list list) action" where
  "GetAccountsAndShares E P opt w =
     (if o_InputFiles opt = [] then Some (Inr [], w)
      else if length (o_InputFiles opt) \<noteq> length (o_Exchanges opt)
      then Some (Inl (Errorf ''count of input files %v and exchanges %v are not equal''), w)
      else GetAccountsAndShares_loop E P (o_SampleHeight opt) (o_InputFiles opt) w)"

section \<open>Rewards from the database\<close>

definition calcAddPercentOfStaking :: "StakeConfig \<Rightarrow> u64 \<Rightarrow> u64" where
  "calcAddPercentOfStaking stakeCfg stakeWholeAmount =
     foldl (\<lambda>percent point. if stakeWholeAmount \<ge> point then point else percent) 0 (sk_Points stakeCfg)"

fun weighted_loop :: "env \<Rightarrow> params \<Rightarrow> StakeConfig \<Rightarrow> int option \<Rightarrow> AccountStat list \<Rightarrow> AccountStat list action" where
  "weighted_loop E P stakeCfg blockNumber [] w = Some ([], w)"
| "weighted_loop E P stakeCfg blockNumber (stat # rest) w = do {
     (stat, w) \<leftarrow>
       (if \<not> IsInStakerList P (Account stat) then Some (stat, w)
        else do {
          (stakeAmount, w) \<leftarrow> LoopGetStakeAmount E (HexToAddress E (sk_Contract stakeCfg)) (Account stat) blockNumber w;
          let stakeWholeAmount = big_Uint64 (stakeAmount div 1000000000000000000);
          let addPercent = calcAddPercentOfStaking stakeCfg stakeWholeAmount;
          if addPercent = 0 then Some (stat, w)
          else do {
            share \<leftarrow> Share stat;
            Some (stat\<lparr>Share := Some (share + share * SetUint64 addPercent div 100)\<rparr>, w)
          }
        });
     (rest, w) \<leftarrow> weighted_loop E P stakeCfg blockNumber rest w;
     Some (stat # rest, w)
   }"

definition weightedByStakeAmount :: "env \<Rightarrow> params \<Rightarrow> AccountStat list \<Rightarrow> int option \<Rightarrow> AccountStat list action" where
  "weightedByStakeAmount E P stats blockNumber w = do {
     stakeCfg \<leftarrow> cf_Stake (config P);
     weighted_loop E P stakeCfg blockNumber stats w
   }"

definition getSingleCycleRewardsFromDB ::
  "env \<Rightarrow> params \<Rightarrow> int option \<Rightarrow> string \<Rightarrow> u64 \<Rightarrow> u64 \<Rightarrow> bool \<Rightarrow> bool \<Rightarrow> AccountStat list action" where
  "getSingleCycleRewardsFromDB E P totalRewards exchange startHeight endHeight useTimestamp archiveMode w = do {
     (stats, w) \<leftarrow> FindAccountVolumes E P exchange startHeight endHeight useTimestamp w;
     if stats = [] then Some ([], w)
     else do {
       (stats, w) \<leftarrow>
         (if cf_Stake (config P) \<noteq> None
          then weightedByStakeAmount E P stats (if archiveMode then Some (SetUint64 endHeight) else None) w
          else Some (stats, w));
       stats \<leftarrow> CalcRewards stats totalRewards;
       Some (stats, w)
     }
   }"

text \<open>Adding the rewards of one step cycle to the map of the whole cycle.\<close>

definition merge_stat :: "(address \<times> AccountStat) list \<Rightarrow> AccountStat \<Rightarrow> (address \<times> AccountStat) list option" where
  "merge_stat finStatMap stat =
     (case Reward stat of
        None \<Rightarrow> Some finStatMap
      | Some reward \<Rightarrow>
          if reward \<le> 0 then Some finStatMap
          else (case map_of finStatMap (Account stat) of
              Some finStat \<Rightarrow> do {
                r \<leftarrow> ptr_Add (Reward finStat) (Some reward);
                s \<leftarrow> ptr_Add (Share finStat) (Share stat);
                Some (AList.update (Account stat)
                  (finStat\<lparr>Reward := Some r, Share := Some s, Number := Number finStat + Number stat\<rparr>) finStatMap)
              }
            | None \<Rightarrow> Some (AList.update (Account stat) stat finStatMap)))"

fun merge_stats :: "(address \<times> AccountStat) list \<Rightarrow> AccountStat list \<Rightarrow> (address \<times> AccountStat) list option" where
  "merge_stats m [] = Some m"
| "merge_stats m (stat # rest) = do { m \<leftarrow> merge_stat m stat; merge_stats m rest }"

partial_function (option) steps_loop ::
  "env \<Rightarrow> params \<Rightarrow> Opt \<Rightarrow> int option \<Rightarrow> string \<Rightarrow> u64 \<Rightarrow> (address \<times> AccountStat) list \<Rightarrow> u64 list
    \<Rightarrow> ((address \<times> AccountStat) list \<times> u64 list) action" where
  "steps_loop E P opt stepRewards exchange start finStatMap noVolumeStarts w =
     (if start < o_EndHeight opt then do {
        (cycleStats, w) \<leftarrow> getSingleCycleRewardsFromDB E P stepRewards exchange start (start + o_StepCount opt)
          (o_UseTimeMeasurement opt) (o_ArchiveMode opt) w;
        if cycleStats = []
        then steps_loop E P opt stepRewards exchange (start + o_StepCount opt) finStatMap (noVolumeStarts @ [start]) w
        else do {
          finStatMap \<leftarrow> merge_stats finStatMap cycleStats;
          steps_loop E P opt stepRewards exchange (start + o_StepCount opt) finStatMap noVolumeStarts w
        }
      }
      else Some ((finStatMap, noVolumeStarts), w))"

text \<open>The cycles without volume on every exchange: the intersection over the exchanges.\<close>

definition updateNoVolumes :: "Opt \<Rightarrow> u64 list \<Rightarrow> Opt" where
  "updateNoVolumes opt noVolumeStarts =
     (if o_hasNoMissingVolumes opt then opt
      else if noVolumeStarts = []
      then opt\<lparr>o_hasNoMissingVolumes := True, o_noVolumeStartHeights := []\<rparr>
      else if o_noVolumeStartHeights opt = [] then opt\<lparr>o_noVolumeStartHeights := noVolumeStarts\<rparr>
      else
        let intersection = concat (map (\<lambda>oldH. concat (map (\<lambda>newH. if oldH = newH then [oldH] else []) noVolumeStarts))
              (o_noVolumeStartHeights opt));
            opt = opt\<lparr>o_noVolumeStartHeights := intersection\<rparr>
        in if intersection = [] then opt\<lparr>o_hasNoMissingVolumes := True\<rparr> else opt)"

definition GetAccountsAndRewardsFromDB :: "env \<Rightarrow> params \<Rightarrow> Opt \<Rightarrow> string \<Rightarrow> (AccountStat list \<times> Opt) action" where
  "GetAccountsAndRewardsFromDB E P opt exchange w =
     (if o_StepCount opt = 0 then do {
        (stats, w) \<leftarrow> getSingleCycleRewardsFromDB E P (o_TotalValue opt) exchange (o_StartHeight opt)
          (o_EndHeight opt) (o_UseTimeMeasurement opt) (o_ArchiveMode opt) w;
        Some ((stats, opt), w)
      }
      else do {
        let steps = (o_EndHeight opt - o_StartHeight opt) div o_StepCount opt;
        total \<leftarrow> o_TotalValue opt;
        stepRewards \<leftarrow> big_Div total (SetUint64 steps);
        ((finStatMap, noVolumeStarts), w) \<leftarrow>
          steps_loop E P opt (Some stepRewards) exchange (o_StartHeight opt) [] [] w;
        let opt = updateNoVolumes opt noVolumeStarts;
        stats \<leftarrow> ConvertToSortedSlice finStatMap;
        Some ((stats, opt), w)
      })"

fun GetAccountsAndRewards_loop ::
  "env \<Rightarrow> params \<Rightarrow> Opt \<Rightarrow> nat \<Rightarrow> string list \<Rightarrow> ((error + AccountStat list list) \<times> Opt) action" where
  "GetAccountsAndRewards_loop E P opt i [] w = Some ((Inr [], opt), w)"
| "GetAccountsAndRewards_loop E P opt i (exchange # rest) w = do {
     let ifile = getInputFileName opt i;
     ((r, opt), w) \<leftarrow>
       (if ifile = [] then do {
          ((stats, opt), w) \<leftarrow> GetAccountsAndRewardsFromDB E P opt exchange w;
          Some ((Inr stats, opt), w)
        }
        else do {
          (r, w) \<leftarrow> GetAccountsAndRewardsFromFile E P ifile w;
          (case r of Inl err \<Rightarrow> Some ((Inl err, opt), w) | Inr st \<Rightarrow> Some ((Inr (fst st), opt), w))
        });
     (case r of
        Inl err \<Rightarrow> Some ((Inl err, opt), w)
      | Inr stats \<Rightarrow> do {
          ((r, opt), w) \<leftarrow> GetAccountsAndRewards_loop E P opt (Suc i) rest w;
          (case r of Inl err \<Rightarrow> Some ((Inl err, opt), w) | Inr all \<Rightarrow> Some ((Inr (stats # all), opt), w))
        })
   }"

definition GetAccountsAndRewards :: "env \<Rightarrow> params \<Rightarrow> Opt \<Rightarrow> ((error + AccountStat list list) \<times> Opt) action" where
  "GetAccountsAndRewards E P opt w = do {
     ((r, opt), w) \<leftarrow> GetAccountsAndRewards_loop E P opt 0 (o_Exchanges opt) w;
     (case r of
        Inl err \<Rightarrow> Some ((Inl err, opt), w)
      | Inr stats \<Rightarrow> Some ((Inr stats, opt\<lparr>o_noVolumes := of_nat (length (o_noVolumeStartHeights opt))\<rparr>), w))
   }"

section \<open>Sample height (byliquidity.go)\<close>

definition CalcSampleHeight :: "env \<Rightarrow> params \<Rightarrow> Opt \<Rightarrow> Opt action" where
  "CalcSampleHeight E P opt w =
     (if o_SampleHeight opt \<noteq> 0 \<or> \<not> o_ArchiveMode opt then Some (opt, w)
      else do {
        (h, w) \<leftarrow> CalcRandomSampleHeight E P (o_StartHeight opt) (o_EndHeight opt) (o_UseTimeMeasurement opt) w;
        Some (opt\<lparr>o_SampleHeight := h\<rparr>, w)
      })"


section \<open>Nothing here broadcasts\<close>

lemmas silent_rules = silent_intros only_rules

lemma silent_calcLatest [silent_intros]: "silent (calcLatestBlockNumberOrTimestamp E t)"
  unfolding calcLatestBlockNumberOrTimestamp_def [abs_def] by (rule silent_intros only_rules)+

lemma silent_CheckStable [silent_intros]: "silent (CheckStable E opt)"
  unfolding CheckStable_def [abs_def] by (rule silent_intros only_rules)+

lemma silent_CheckSenderRewardTokenBalance [silent_intros]: "silent (CheckSenderRewardTokenBalance E opt)"
  unfolding CheckSenderRewardTokenBalance_def [abs_def]
  by (rule silent_intros only_rules | rule only_bind_pure)+

lemma silent_CheckSenderCoinBalance [silent_intros]: "silent (CheckSenderCoinBalance E opt)"
  unfolding CheckSenderCoinBalance_def [abs_def]
  by (rule silent_intros only_rules | rule only_bind_pure)+

lemma silent_checkAndInit [silent_intros]: "silent (checkAndInit E P opt)"
  unfolding checkAndInit_def [abs_def] by (rule silent_intros only_rules)+

lemma silent_OpenFile [silent_intros]: "silent (OpenFile E f)"
  by (auto intro!: onlyI simp: OpenFile_def Let_def)

lemma silent_getDefaultOutputFile [silent_intros]: "silent (getDefaultOutputFile E P opt i)"
  by (auto intro!: onlyI simp: getDefaultOutputFile_def Let_def)

lemma silent_openOutputFile [silent_intros]: "silent (openOutputFile E P opt i)"
  unfolding openOutputFile_def [abs_def] by (rule silent_intros only_rules)+

lemma silent_getOutputFile [silent_intros]: "silent (getOutputFile E P opt i)"
  unfolding getOutputFile_def [abs_def] by (rule silent_intros only_rules)+

lemma silent_WriteOutput [silent_intros]: "silent (WriteOutput E ofile contents)"
  by (auto intro!: onlyI simp: WriteOutput_def WriteOutputLine_def Let_def)

lemma silent_WriteRewardResultToDB [silent_intros]:
  "silent (WriteRewardResultToDB E P opt exchange a r s n h)"
  unfolding WriteRewardResultToDB_def [abs_def]
  by (rule silent_intros only_rules | rule only_after | simp)+

lemma silent_WriteSendRewardResult [silent_intros]:
  "silent (WriteSendRewardResult E P opt ofile exchange stat h)"
  unfolding WriteSendRewardResult_def [abs_def] by (rule silent_intros only_rules)+

lemma silent_getAccountsFromFile [silent_intros]: "silent (getAccountsFromFile E P ifile)"
  by (auto intro!: onlyI simp: getAccountsFromFile_def Let_def split: sum.splits)

lemma silent_getAccountsFromDB [silent_intros]: "silent (getAccountsFromDB E exchange)"
  unfolding getAccountsFromDB_def [abs_def] by (rule silent_intros)

lemma silent_getAccounts_loop: "silent (getAccounts_loop E P opt i exs)"
proof (induction exs arbitrary: i)
  case Nil
  show ?case by (simp add: only_def)
next
  case (Cons exchange rest)
  show ?case unfolding getAccounts_loop.simps [abs_def] by (rule silent_intros only_rules Cons.IH)+
qed

lemma silent_getAccounts [silent_intros]: "silent (getAccounts E P opt)"
  unfolding getAccounts_def [abs_def] by (rule silent_getAccounts_loop)

lemma silent_FromFile [silent_intros]:
  "silent (GetAccountsAndRewardsFromFile E P ifile)" "silent (GetAccountsAndSharesFromFile E P ifile h)"
  by (auto intro!: onlyI simp: GetAccountsAndRewardsFromFile_def GetAccountsAndSharesFromFile_def Let_def
      split: sum.splits)

lemma silent_GetAccountsAndShares_loop: "silent (GetAccountsAndShares_loop E P h files)"
proof (induction files)
  case Nil
  show ?case by (simp add: only_def)
next
  case (Cons f rest)
  show ?case unfolding GetAccountsAndShares_loop.simps [abs_def] by (rule silent_intros only_rules Cons.IH)+
qed

lemma silent_GetAccountsAndShares [silent_intros]: "silent (GetAccountsAndShares E P opt)"
  unfolding GetAccountsAndShares_def [abs_def] by (rule silent_GetAccountsAndShares_loop only_rules)+

lemma silent_weighted_loop: "silent (weighted_loop E P stakeCfg blockNumber stats)"
proof (induction stats)
  case Nil
  show ?case by (simp add: only_def)
next
  case (Cons stat rest)
  show ?case unfolding weighted_loop.simps [abs_def]
    by (rule silent_intros only_rules Cons.IH | rule only_bind_pure)+
qed

lemma silent_weightedByStakeAmount [silent_intros]: "silent (weightedByStakeAmount E P stats blockNumber)"
  unfolding weightedByStakeAmount_def [abs_def] by (rule only_bind_pure silent_weighted_loop)+

lemma silent_getSingleCycleRewardsFromDB [silent_intros]:
  "silent (getSingleCycleRewardsFromDB E P tot exchange s e t a)"
  unfolding getSingleCycleRewardsFromDB_def [abs_def]
  by (rule silent_intros only_rules | rule only_bind_pure)+

lemma silent_steps_loop [silent_intros]: "silent (steps_loop E P opt tot exchange start m ns)"
proof (rule onlyI)
  fix w r w' assume *: "steps_loop E P opt tot exchange start m ns w = Some (r, w')"
  have "(\<lambda>a (r, w'). adds (\<lambda>e. \<not> is_send e) (snd a) w')
      ((((((((E, P), opt), tot), exchange), start), m), ns), w) (r, w')"
    using _ * by (rule steps_loop.raw_induct [where Pa = "\<lambda>a (r, w'). adds (\<lambda>e. \<not> is_send e) (snd a) w'"])
      (auto split: Option.bind_splits if_splits dest!: onlyD [OF silent_getSingleCycleRewardsFromDB] intro: adds_trans)
  then show "adds (\<lambda>e. \<not> is_send e) w w'" by simp
qed

lemma silent_GetAccountsAndRewardsFromDB [silent_intros]: "silent (GetAccountsAndRewardsFromDB E P opt exchange)"
  unfolding GetAccountsAndRewardsFromDB_def [abs_def]
  by (rule silent_intros only_rules | rule only_bind_pure)+

lemma silent_GetAccountsAndRewards_loop: "silent (GetAccountsAndRewards_loop E P opt i exs)"
proof (induction exs arbitrary: i opt)
  case Nil
  show ?case by (simp add: only_def)
next
  case (Cons exchange rest)
  show ?case unfolding GetAccountsAndRewards_loop.simps [abs_def] by (rule silent_intros only_rules Cons.IH)+
qed

lemma silent_GetAccountsAndRewards [silent_intros]: "silent (GetAccountsAndRewards E P opt)"
  unfolding GetAccountsAndRewards_def [abs_def] by (rule silent_GetAccountsAndRewards_loop only_rules)+

lemma silent_CalcSampleHeight [silent_intros]: "silent (CalcSampleHeight E P opt)"
  unfolding CalcSampleHeight_def [abs_def] by (rule silent_intros only_rules)+


section \<open>Rows are read back\<close>

text \<open>
  What the chain library documents of address texts, for lower-case ones: they are accepted,
  read back as the address, and contain neither separators nor the start of a comment.
\<close>

definition address_texts :: "env \<Rightarrow> bool" where
  "address_texts E \<longleftrightarrow> (\<forall>a. let s = ToLower (Address_String E a) in
     IsHexAddress E s \<and> HexToAddress E s = a \<and> s \<noteq> [] \<and> no_sep s \<and> \<not> is_space (hd s)
     \<and> hd s \<noteq> CHR ''#'' \<and> hd s \<noteq> CHR ''/'')"

definition hash_texts :: "env \<Rightarrow> bool" where
  "hash_texts E \<longleftrightarrow> (\<forall>h. Hash_Hex E h \<noteq> [] \<and> no_sep (Hash_Hex E h) \<and> \<not> is_space (last (Hash_Hex E h)))"

lemma last_no_space_big_String: "\<not> is_space (last (big_String x))"
proof -
  have d: "\<not> is_space (last (nat_digits n))" for n
    using nat_digits_dec [of "last (nat_digits n)" n] by (auto simp: is_dec_def is_space_def)
  then show ?thesis by (auto simp: big_String_def)
qed


lemma last_Join: "last ss \<noteq> [] \<Longrightarrow> ss \<noteq> [] \<Longrightarrow> Join ss sep \<noteq> [] \<and> last (Join ss sep) = last (last ss)"
proof (induction ss sep rule: Join.induct)
  case (3 s t ss sep)
  then show ?case by simp
qed simp_all

lemma reward_row_parts:
  assumes "address_texts E" "hash_texts E" "Reward stat = Some r" "s \<in> set (reward_row E stat h)"
  shows "s \<noteq> [] \<and> no_sep s"
  using assms by (auto simp: reward_row_def address_texts_def hash_texts_def ptr_String_def Let_def
      split: option.splits)

lemma reward_row_line:
  assumes E: "address_texts E" "hash_texts E" and r: "Reward stat = Some r"
  shows "TrimSpace (Join (reward_row E stat h) '','') = Join (reward_row E stat h) '',''"
    and "\<not> isCommentedLine (Join (reward_row E stat h) '','')"
    and "blankOrCommaSep_Split (Join (reward_row E stat h) '','') = reward_row E stat h"
proof -
  let ?row = "reward_row E stat h" and ?a = "ToLower (Address_String E (Account stat))"
  obtain rest where row: "?row = ?a # rest" "rest \<noteq> []" by (simp add: reward_row_def)
  have a: "?a \<noteq> []" "\<not> is_space (hd ?a)" "hd ?a \<noteq> CHR ''#''" "hd ?a \<noteq> CHR ''/''"
    using E(1) by (auto simp: address_texts_def Let_def)
  have hd: "hd (Join ?row '','') = hd ?a" unfolding row(1) using a(1) by (rule hd_Join)
  have "?row \<noteq> []" by (simp add: row(1))
  then have "last ?row \<noteq> []" using reward_row_parts [OF E r, of "last ?row" h] last_in_set by blast
  moreover from this have "\<not> is_space (last (last ?row))"
    using E(2) r last_no_space_big_String [of "uint (Number stat)"]
    by (auto simp: reward_row_def hash_texts_def ptr_String_def last_no_space_big_String split: option.splits)
  ultimately have "\<not> is_space (last (Join ?row '',''))"
    using last_Join [of ?row "'',''"] \<open>?row \<noteq> []\<close> by metis
  with hd a(2) show "TrimSpace (Join ?row '','') = Join ?row '',''" by (intro TrimSpace_id) simp
  obtain t where t: "Join ?row '','' = ?a @ t" using Join_eq_append [OF a(1), of rest] row(1) by auto
  obtain c cs where c: "?a = c # cs" using a(1) by (cases ?a) auto
  show "\<not> isCommentedLine (Join ?row '','')"
    unfolding t using a(3,4) by (simp add: c isCommentedLine_def HasPrefix_def)
  show "blankOrCommaSep_Split (Join ?row '','') = ?row"
    using \<open>?row \<noteq> []\<close> reward_row_parts [OF E r] by (intro Split_Join) blast+
qed

definition readable_stat :: "env \<Rightarrow> params \<Rightarrow> AccountStat \<Rightarrow> bool" where
  "readable_stat E P stat \<longleftrightarrow> (case Reward stat of None \<Rightarrow> False | Some r \<Rightarrow> 0 < r) \<and> \<not> IsExcludedRewardAccount E P (Account stat)
     \<and> (Share stat = None \<longrightarrow> Number stat = 0)"

lemma reward_of_row:
  assumes E: "address_texts E" "hash_texts E" and "readable_stat E P stat"
  shows "reward_of_line E P (Join (reward_row E stat h) '','') = Inr (Some stat)"
proof -
  obtain r where r: "Reward stat = Some r" "0 < r" using assms(3) by (auto simp: readable_stat_def split: option.splits)
  show ?thesis
    using E(1) r assms(3) unfolding reward_of_line_def reward_row_line(3) [OF E r(1)]
    by (cases "Share stat"; cases h)
      (simp_all add: reward_row_def address_texts_def Let_def ptr_String_def readable_stat_def
        AccountStat.equality)
qed

lemma rewards_of_rows:
  assumes "address_texts E" "hash_texts E" "\<forall>(stat, h) \<in> set rows. readable_stat E P stat"
  shows "rewards_of_lines E P (map (\<lambda>(stat, h). Join (reward_row E stat h) '','') rows) first title stats =
    Inr (stats @ map fst rows, title)"
  using assms(3)
proof (induction rows arbitrary: first stats)
  case (Cons row rows)
  obtain stat h where row: "row = (stat, h)" by (cases row)
  with Cons.prems have s: "readable_stat E P stat" by simp
  then obtain r where "Reward stat = Some r" by (auto simp: readable_stat_def split: option.splits)
  with Cons row s show ?case
    by (simp add: reward_row_line [OF assms(1,2)] reward_of_row [OF assms(1,2)] Let_def)
qed simp

section \<open>Cycles without volume\<close>

definition no_volume_state :: "Opt \<Rightarrow> u64 set \<Rightarrow> bool" where
  "no_volume_state opt starts \<longleftrightarrow> set (o_noVolumeStartHeights opt) = starts \<and> distinct (o_noVolumeStartHeights opt)
     \<and> (o_hasNoMissingVolumes opt \<longleftrightarrow> starts = {})"

lemma intersection_list:
  assumes "distinct xs" "distinct ys"
  shows "set (concat (map (\<lambda>x. concat (map (\<lambda>y. if x = y then [x] else []) ys)) xs)) = set xs \<inter> set ys"
    and "distinct (concat (map (\<lambda>x. concat (map (\<lambda>y. if x = y then [x] else []) ys)) xs))"
proof -
  have inner: "concat (map (\<lambda>y. if x = y then [x] else []) ys) = (if x \<in> set ys then [x] else [])" for x
    using assms(2) by (induction ys) auto
  have outer: "concat (map (\<lambda>x. if x \<in> set ys then [x] else []) xs) = filter (\<lambda>x. x \<in> set ys) xs"
    by (induction xs) auto
  show "set (concat (map (\<lambda>x. concat (map (\<lambda>y. if x = y then [x] else []) ys)) xs)) = set xs \<inter> set ys"
    by (auto simp: inner outer)
  show "distinct (concat (map (\<lambda>x. concat (map (\<lambda>y. if x = y then [x] else []) ys)) xs))"
    using assms(1) by (simp add: inner outer)
qed

lemma updateNoVolumes_state:
  assumes "no_volume_state opt starts" "distinct ns"
  shows "no_volume_state (updateNoVolumes opt ns) (starts \<inter> set ns)"
proof (cases "o_hasNoMissingVolumes opt \<or> ns = [] \<or> o_noVolumeStartHeights opt = []")
  case True
  with assms(1) show ?thesis by (auto simp: updateNoVolumes_def no_volume_state_def)
next
  case False
  define inter where "inter = concat (map (\<lambda>oldH. concat (map (\<lambda>newH. if oldH = newH then [oldH] else []) ns))
      (o_noVolumeStartHeights opt))"
  have "set inter = starts \<inter> set ns" "distinct inter"
    using assms intersection_list [of "o_noVolumeStartHeights opt" ns]
    by (auto simp: inter_def no_volume_state_def)
  with False show ?thesis
    by (auto simp: updateNoVolumes_def no_volume_state_def Let_def simp flip: inter_def)
qed

lemma updateNoVolumes_first:
  assumes "\<not> o_hasNoMissingVolumes opt" "o_noVolumeStartHeights opt = []" "distinct ns"
  shows "no_volume_state (updateNoVolumes opt ns) (set ns)"
  using assms by (auto simp: updateNoVolumes_def no_volume_state_def)

lemma updateNoVolumes_fold:
  assumes "no_volume_state opt starts" "\<forall>ns \<in> set nss. distinct ns"
  shows "no_volume_state (foldl updateNoVolumes opt nss) (starts \<inter> \<Inter> (set ` set nss))"
  using assms
proof (induction nss arbitrary: opt starts)
  case (Cons ns nss)
  then have "no_volume_state (updateNoVolumes opt ns) (starts \<inter> set ns)"
    using updateNoVolumes_state [of opt starts ns] by simp
  from Cons.IH [OF this] Cons.prems(2) show ?case by (simp add: Int_assoc)
qed simp

text \<open>Options of a distribution by volume, for concrete runs.\<close>

definition test_opt :: Opt where
  "test_opt = \<lparr>o_BuildTxArgs = \<lparr>ba_Sender = [], ba_KeystoreFile = [], ba_PasswordFile = [], ba_Nonce = Some 5,
       ba_GasLimit = Some 90000, ba_GasPrice = Some 1, ba_keyWrapper = Some (1, []), ba_fromAddr = 1,
       ba_chainID = Some 32659, ba_chainSigner = Some 32659\<rparr>,
     o_TotalValue = Some 100, o_StartHeight = 100, o_EndHeight = 200, o_StableHeight = 0, o_StepCount = 0,
     o_StepReward = None, o_Exchanges = [''7'', ''8''], o_Weights = Some [1, 1], o_RewardToken = ''9'',
     o_InputFiles = [], o_OutputFiles = [''a'', ''b''], o_SampleHeight = 0, o_SaveDB = False, o_DryRun = False,
     o_ArchiveMode = False, o_WeightIsPercentage = False, o_BatchCount = 0, o_BatchInterval = 0,
     o_UseTimeMeasurement = False, o_ScalingNumerator = None, o_ScalingDenominator = None,
     o_byWhat = ''volume'', o_noVolumes = 0, o_hasNoMissingVolumes = False, o_noVolumeStartHeights = [],
     o_outputFiles = []\<rparr>"

section \<open>Properties\<close>

text \<open>
  C14: A rewards file is read back as it was written. For statistics with a positive reward, of
  accounts that are not excluded, the lines \<open>WriteSendRewardResult\<close> writes (with or without share
  and transaction hash), under any comment line as title, are read by
  \<open>GetAccountsAndRewardsFromFile\<close> as exactly these statistics, in order, with that title: a dry
  run's output is a valid input with the same rewards.
\<close>

theorem reward_file_roundtrip:
  assumes "address_texts E" "hash_texts E" "\<forall>(stat, h) \<in> set rows. readable_stat E P stat"
    and "isCommentedLine (TrimSpace title)"
    and "ReadFile_Lines E w ifile = Inr (title # map (\<lambda>(stat, h). Join (reward_row E stat h) '','') rows)"
  shows "GetAccountsAndRewardsFromFile E P ifile w =
    Some (Inr (map fst rows, TrimSpace title), w @ [EvOpenFile ifile])"
  using assms(4,5) rewards_of_rows [OF assms(1-3)] by (simp add: GetAccountsAndRewardsFromFile_def Let_def)

text \<open>In the test environment the texts are plain decimal numerals.\<close>

lemma decimal_nat_digits: "decimal (nat_digits n) = int n"
proof -
  have "foldl (\<lambda>a c. a * 10 + ((of_char c :: nat) - 48)) 0 (nat_digits n) = n"
  proof (induction n rule: nat_digits.induct)
    case (1 n)
    show ?case
    proof (cases "n < 10")
      case True
      then show ?thesis by (subst nat_digits.simps) (simp add: digit_char_def)
    next
      case False
      with 1 show ?thesis by (subst nat_digits.simps) (simp add: digit_char_def)
    qed
  qed
  then show ?thesis by (simp add: decimal_def)
qed

lemma dec_not_space: "is_dec c \<Longrightarrow> \<not> is_space c"
  by (auto simp: is_dec_def is_space_def)

lemma nat_digits_text: "\<not> is_space (hd (nat_digits n)) \<and> \<not> is_space (last (nat_digits n))
    \<and> hd (nat_digits n) \<noteq> CHR ''#'' \<and> hd (nat_digits n) \<noteq> CHR ''/''"
proof -
  have "is_dec (hd (nat_digits n))" "is_dec (last (nat_digits n))" 
    using nat_digits_dec [of _ n] nat_digits_neq_Nil [of n] by (metis hd_in_set, metis last_in_set)
  then show ?thesis by (auto simp: dec_not_space is_dec_def)
qed

lemma base_texts: "address_texts base_env" "hash_texts base_env"
proof -
  have low: "ToLower (nat_digits n) = nat_digits n" for n
    by (auto simp: ToLower_def intro!: map_idI lower_char_dec nat_digits_dec)
  have sep: "no_sep (nat_digits n)" for n by (auto intro!: no_sep_dec nat_digits_dec)
  show "address_texts base_env"
    by (auto simp: address_texts_def base_env_def low sep decimal_nat_digits nat_digits_text Let_def)
  show "hash_texts base_env"
    by (auto simp: hash_texts_def base_env_def sep nat_digits_text)
qed

definition test_rows :: "(AccountStat \<times> hash option) list" where
  "test_rows = [(\<lparr>Account = 20, Reward = Some 60, Share = Some 1, Number = 2\<rparr>, Some 77),
     (\<lparr>Account = 21, Reward = Some 40, Share = None, Number = 0\<rparr>, None)]"

definition file_env :: env where
  "file_env = base_env\<lparr>ReadFile_Lines := \<lambda>w f. Inr (''#title'' #
     map (\<lambda>(stat, h). Join (reward_row base_env stat h) '','') test_rows)\<rparr>"

theorem reward_file_roundtrip_witness:
  "GetAccountsAndRewardsFromFile file_env test_params ''rewards.csv'' [] =
    Some (Inr (map fst test_rows, ''#title''), [EvOpenFile ''rewards.csv''])"
proof -
  have rows: "reward_row base_env = reward_row file_env"
    by (intro ext) (simp add: reward_row_def file_env_def split: option.split)
  have "address_texts file_env" "hash_texts file_env"
    using base_texts by (simp_all add: address_texts_def hash_texts_def file_env_def)
  moreover have "\<forall>(stat, h) \<in> set test_rows. readable_stat file_env test_params stat"
    by code_simp
  moreover have "isCommentedLine (TrimSpace ''#title'')" by code_simp
  moreover have "ReadFile_Lines file_env [] ''rewards.csv'' =
      Inr (''#title'' # map (\<lambda>(stat, h). Join (reward_row file_env stat h) '','') test_rows)"
    unfolding rows [symmetric] by (simp add: file_env_def)
  moreover have "TrimSpace ''#title'' = ''#title''" by code_simp
  ultimately show ?thesis using reward_file_roundtrip [of file_env test_rows test_params "''#title''" "[]"] by simp
qed

text \<open>
  C15: The cycles without volume are counted over all exchanges. Starting fresh, after
  \<open>updateNoVolumes\<close> has run for every exchange (at least one), with the cycles of that exchange
  that had no volume, the remembered cycles are exactly those without volume on every exchange,
  each once, so that their count is the number of cycles whose rewards are withheld.
\<close>

theorem updateNoVolumes_intersection:
  assumes "\<not> o_hasNoMissingVolumes opt" "o_noVolumeStartHeights opt = []"
    and "nss \<noteq> []" "\<forall>ns \<in> set nss. distinct ns"
  shows "set (o_noVolumeStartHeights (foldl updateNoVolumes opt nss)) = \<Inter> (set ` set nss)
    \<and> length (o_noVolumeStartHeights (foldl updateNoVolumes opt nss)) = card (\<Inter> (set ` set nss))"
proof -
  obtain ns rest where nss: "nss = ns # rest" using assms(3) by (cases nss) auto
  with assms have "no_volume_state (foldl updateNoVolumes opt nss) (\<Inter> (set ` set nss))"
    using updateNoVolumes_fold [OF updateNoVolumes_first, of opt ns rest] by simp
  then show ?thesis by (auto simp: no_volume_state_def distinct_card [symmetric])
qed

theorem updateNoVolumes_intersection_witness:
  "let opt = foldl updateNoVolumes test_opt [[0, 10, 30], [10, 20, 30]]
   in set (o_noVolumeStartHeights opt) = {10, 30} \<and> length (o_noVolumeStartHeights opt) = 2"
proof -
  have "{0, 10, 30} \<inter> {10, 20, 30 :: u64} = {10, 30}" by auto
  then show ?thesis
    using updateNoVolumes_intersection [of test_opt "[[0, 10, 30], [10, 20, 30]]"]
    by (simp add: test_opt_def)
qed

end
