(* ===== verification/Dispatch.thy ===== *)
theory Dispatch
  imports Options "HOL-Library.Sublist"
begin

text \<open>
  \<open>distributer/dispatchrewards.go\<close>, and \<open>SendRewardsFromFile\<close> of \<open>distributer/sendtx.go\<close>: paying the
  rewards of a distribution, and paying the rewards listed in files. The two loops over the
  statistics are the same but for log output; \<open>sendRewards_loop\<close> is both.
\<close>

section \<open>The loop over the statistics\<close>

text \<open>
  Result: the rewards counted as sent, and an error. \<open>i\<close> counts the rows written; the pause
  between batches follows the loop body whether or not this iteration wrote a row. The pauses are
  in milliseconds.
\<close>

fun sendRewards_loop ::
  "env \<Rightarrow> params \<Rightarrow> Opt \<Rightarrow> string \<Rightarrow> string \<Rightarrow> AccountStat list \<Rightarrow> int \<Rightarrow> u64
    \<Rightarrow> ((int \<times> error option) \<times> Opt) action" where
  "sendRewards_loop E P opt outputFile exchange [] rewardsSended i w = Some (((rewardsSended, None), opt), w)"
| "sendRewards_loop E P opt outputFile exchange (stat # rest) rewardsSended i w =
     (case Reward stat of
        None \<Rightarrow> sendRewards_loop E P opt outputFile exchange rest rewardsSended i w
      | Some reward \<Rightarrow>
          if reward \<le> 0 then sendRewards_loop E P opt outputFile exchange rest rewardsSended i w
          else do {
            (((txHash, err), opt), w) \<leftarrow> SendRewardsTransaction E P opt (Account stat) reward w;
            if err \<noteq> None \<and> err \<noteq> Some errDustReward
            then Some (((rewardsSended, Some errSendTransactionFailed), opt), w)
            else do {
              (i, w) \<leftarrow>
                (if o_DryRun opt \<or> txHash \<noteq> None
                 then do { (_, w) \<leftarrow> WriteSendRewardResult E P opt outputFile exchange stat txHash w; Some (i + 1, w) }
                 else Some (i, w));
              (_, w) \<leftarrow>
                (if \<not> o_DryRun opt \<and> o_BatchCount opt > 0 \<and> i mod o_BatchCount opt = 0
                 then Some ((), w @ [EvSleep (unat (o_BatchInterval opt))]) else Some ((), w));
              sendRewards_loop E P opt outputFile exchange rest (rewardsSended + reward) i w
            }
          })"

section \<open>dispatchrewards.go\<close>

definition writeSendRewardTitleLine :: "env \<Rightarrow> Opt \<Rightarrow> string \<Rightarrow> string \<Rightarrow> error option action" where
  "writeSendRewardTitleLine E opt outputFile exchange w =
     (if o_byWhat opt \<noteq> byLiquidMethodID \<and> o_byWhat opt \<noteq> byVolumeMethodID
      then Some (Some (Errorf ''unknown byWhat''), w)
      else do {
        let keyShare = o_byWhat opt;
        let keyNumber = (if o_byWhat opt = byLiquidMethodID then ''height'' else ''txcount'');
        let extraInfo = (if o_byWhat opt = byLiquidMethodID
              then ''sampleHeight='' @ fmt_u64 (o_SampleHeight opt)
              else ''novolumes='' @ fmt_u64 (o_noVolumes opt)) @
            ''&&start='' @ fmt_u64 (o_StartHeight opt) @ ''&&end='' @ fmt_u64 (o_EndHeight opt) @
            ''&&totalReward='' @ ptr_String (o_TotalValue opt) @ ''&&exchange='' @ ToLower exchange @
            ''&&rewardToken='' @ ToLower (o_RewardToken opt);
        if o_DryRun opt
        then WriteOutput E outputFile [''#account'', ''reward'', keyShare, keyNumber, extraInfo] w
        else WriteOutput E outputFile [''#account'', ''reward'', keyShare, keyNumber, ''txhash'', extraInfo] w
      })"

text \<open>A nil reward in the result is \<open>None\<close>.\<close>

definition sendRewards ::
  "env \<Rightarrow> params \<Rightarrow> Opt \<Rightarrow> nat \<Rightarrow> string \<Rightarrow> AccountStat list \<Rightarrow> ((int option \<times> error option) \<times> Opt) action" where
  "sendRewards E P opt idx exchange stats w = do {
     (((outputFile, err), opt), w) \<leftarrow> getOutputFile E P opt idx w;
     if err \<noteq> None then Some (((None, err), opt), w)
     else do {
       outputFile \<leftarrow> outputFile;
       (err, w) \<leftarrow> writeSendRewardTitleLine E opt outputFile exchange w;
       if err \<noteq> None then Some (((None, err), opt), w)
       else do {
         (((rewardsSended, err), opt), w) \<leftarrow> sendRewards_loop E P opt outputFile exchange stats 0 0 w;
         Some (((Some rewardsSended, err), opt), w)
       }
     }
   }"

fun dispatchRewards_loop ::
  "env \<Rightarrow> params \<Rightarrow> Opt \<Rightarrow> nat \<Rightarrow> string list \<Rightarrow> AccountStat list list \<Rightarrow> (error option \<times> Opt) action" where
  "dispatchRewards_loop E P opt i [] accountStats w = Some ((None, opt), w)"
| "dispatchRewards_loop E P opt i (exchange # rest) accountStats w =
     (if i \<ge> length accountStats then None
      else do {
        (((rewardsSended, err), opt), w) \<leftarrow> sendRewards E P opt i exchange (accountStats ! i) w;
        if err \<noteq> None then Some ((err, opt), w)
        else do {
          rewardsSended \<leftarrow> rewardsSended;
          (_, w) \<leftarrow>
            (if o_SaveDB opt \<and> rewardsSended > 0
             then do {
               let timestamp = Now_Unix E w;
               let mdist = \<lparr>di_Exchange = ToLower exchange, di_Pairs = GetExchangePairs P exchange,
                 di_ByWhat = o_byWhat opt, di_Start = o_StartHeight opt, di_End = o_EndHeight opt,
                 di_RewardToken = o_RewardToken opt, di_Rewards = big_String rewardsSended,
                 di_SampleHeight = o_SampleHeight opt, di_Timestamp = timestamp\<rparr>;
               (_, w) \<leftarrow> TryDoTimes (AddDistributeInfo E mdist) (w @ [EvNow]);
               Some ((), w)
             }
             else Some ((), w));
          dispatchRewards_loop E P opt (Suc i) rest accountStats w
        }
      })"

definition dispatchRewards :: "env \<Rightarrow> params \<Rightarrow> Opt \<Rightarrow> AccountStat list list \<Rightarrow> (error option \<times> Opt) action" where
  "dispatchRewards E P opt accountStats w = dispatchRewards_loop E P opt 0 (o_Exchanges opt) accountStats w"

section \<open>Paying from files (sendtx.go)\<close>

text \<open>Scaling the rewards; division by a zero denominator panics.\<close>

definition scale_reward :: "Opt \<Rightarrow> AccountStat \<Rightarrow> AccountStat option" where
  "scale_reward opt stat =
     (case o_ScalingNumerator opt of
        None \<Rightarrow> Some stat
      | Some num \<Rightarrow> do {
          reward \<leftarrow> Reward stat;
          (case o_ScalingDenominator opt of
             None \<Rightarrow> Some (stat\<lparr>Reward := Some (reward * num)\<rparr>)
           | Some den \<Rightarrow> do { r \<leftarrow> big_Div (reward * num) den; Some (stat\<lparr>Reward := Some r\<rparr>) })
        })"

definition checkSendRewardsFromFile ::
  "env \<Rightarrow> params \<Rightarrow> Opt \<Rightarrow> string \<Rightarrow> ((error + AccountStat list) \<times> Opt) action" where
  "checkSendRewardsFromFile E P opt ifile w = do {
     (r, w) \<leftarrow> GetAccountsAndRewardsFromFile E P ifile w;
     (case r of
        Inl err \<Rightarrow> Some ((Inl err, opt), w)
      | Inr st \<Rightarrow>
          if fst st = [] then Some ((Inr [], opt), w)
          else do {
            stats \<leftarrow> deref_all (map (scale_reward opt) (fst st));
            total \<leftarrow> CalcTotalReward stats;
            let opt = opt\<lparr>o_TotalValue := Some total\<rparr>;
            (err, w) \<leftarrow> (if o_RewardToken opt \<noteq> [] then CheckSenderRewardTokenBalance E opt w
                        else CheckSenderCoinBalance E opt w);
            (case err of Some err \<Rightarrow> Some ((Inl err, opt), w) | None \<Rightarrow> Some ((Inr stats, opt), w))
          })
   }"

definition sendRewardsFromFile ::
  "env \<Rightarrow> params \<Rightarrow> Opt \<Rightarrow> string \<Rightarrow> string \<Rightarrow> string \<Rightarrow> ((int option \<times> error option) \<times> Opt) action" where
  "sendRewardsFromFile E P opt exchange ifile ofile w = do {
     ((r, opt), w) \<leftarrow> checkSendRewardsFromFile E P opt ifile w;
     (case r of
        Inl err \<Rightarrow> Some (((None, Some err), opt), w)
      | Inr stats \<Rightarrow> do {
          (err, w) \<leftarrow> OpenFile E ofile w;
          if err \<noteq> None then Some (((None, err), opt), w)
          else do {
            (((rewardsSended, err), opt), w) \<leftarrow> sendRewards_loop E P opt ofile exchange stats 0 0 w;
            Some (((Some rewardsSended, err), deinit opt), w)
          }
        })
   }"

fun SendRewardsFromFile_loop ::
  "env \<Rightarrow> params \<Rightarrow> Opt \<Rightarrow> nat \<Rightarrow> string list \<Rightarrow> (error option \<times> Opt) action" where
  "SendRewardsFromFile_loop E P opt i [] w = Some ((None, opt), w)"
| "SendRewardsFromFile_loop E P opt i (inputFile # rest) w = do {
     let exchange = (if o_Exchanges opt \<noteq> [] then o_Exchanges opt ! i else []);
     (if i \<ge> length (o_OutputFiles opt) then None
      else do {
        (((rewardsSended, err), opt), w) \<leftarrow> sendRewardsFromFile E P opt exchange inputFile (o_OutputFiles opt ! i) w;
        if err \<noteq> None then Some ((err, opt), w)
        else SendRewardsFromFile_loop E P opt (Suc i) rest w
      })
   }"

definition SendRewardsFromFile :: "env \<Rightarrow> params \<Rightarrow> Opt \<Rightarrow> (error option \<times> Opt) action" where
  "SendRewardsFromFile E P opt w =
     (if o_Exchanges opt \<noteq> [] \<and> length (o_InputFiles opt) \<noteq> length (o_Exchanges opt)
      then Some ((Some (Errorf ''count of exchanges and input files is not equal''), opt), w)
      else if o_Exchanges opt \<noteq> [] \<and> length (o_OutputFiles opt) \<noteq> length (o_Exchanges opt)
      then Some ((Some (Errorf ''count of exchanges and output files is not equal''), opt), w)
      else if o_Exchanges opt = [] \<and> length (o_InputFiles opt) \<noteq> length (o_OutputFiles opt)
      then Some ((Some (Errorf ''count of input and output files is not equal''), opt), w)
      else SendRewardsFromFile_loop E P opt 0 (o_InputFiles opt) w)"


section \<open>What the loop pays\<close>

text \<open>The statistics with a positive reward, and those of them that are not dust.\<close>

definition positive :: "AccountStat \<Rightarrow> bool" where
  "positive stat = (case Reward stat of None \<Rightarrow> False | Some r \<Rightarrow> 0 < r)"

definition payable :: "params \<Rightarrow> AccountStat \<Rightarrow> bool" where
  "payable P stat = (case Reward stat of None \<Rightarrow> False | Some r \<Rightarrow> 0 < r \<and> GetDustRewardThreshold P \<le> r)"

definition reward_of :: "AccountStat \<Rightarrow> int" where
  "reward_of stat = (case Reward stat of None \<Rightarrow> 0 | Some r \<Rightarrow> r)"

definition payments :: "env \<Rightarrow> params \<Rightarrow> string \<Rightarrow> AccountStat list \<Rightarrow> (address \<times> int \<times> byte list) list" where
  "payments E P token stats =
     map (\<lambda>stat. payment E (HexToAddress E token) (Account stat) (reward_of stat)) (filter (payable P) stats)"

definition total_positive :: "AccountStat list \<Rightarrow> int" where
  "total_positive stats = sum_list (map reward_of (filter positive stats))"

lemma payments_simps [simp]:
  "payments E P token [] = []"
  "payments E P token (stat # stats) =
     (if payable P stat then payment E (HexToAddress E token) (Account stat) (reward_of stat) # payments E P token stats
      else payments E P token stats)"
  by (simp_all add: payments_def)

lemma total_positive_simps [simp]:
  "total_positive [] = 0"
  "total_positive (stat # stats) = (if positive stat then reward_of stat else 0) + total_positive stats"
  by (simp_all add: total_positive_def)

lemma SendRewardsTransaction_eq:
  assumes "SendRewardsTransaction E P opt account reward w = Some ((r, opt'), w')"
  shows "\<exists>args. sendRewardsTransaction E P (o_BuildTxArgs opt) account reward (HexToAddress E (o_RewardToken opt))
      (o_DryRun opt) w = Some ((r, args), w') \<and> opt' = opt\<lparr>o_BuildTxArgs := args\<rparr>"
  using assms by (auto simp: SendRewardsTransaction_def split: Option.bind_splits)

text \<open>One iteration on a positive reward, by its outcome.\<close>

lemma sendRewards_loop_Cons [consumes 3, case_names stop cont]:
  assumes "sendRewards_loop E P opt ofile exchange (stat # rest) acc i w = Some (((t, e), opt'), w')"
    and "Reward stat = Some reward" "0 < reward"
  obtains (stop) h err args where "sendRewardsTransaction E P (o_BuildTxArgs opt) (Account stat) reward
        (HexToAddress E (o_RewardToken opt)) (o_DryRun opt) w = Some (((h, err), args), w')"
      "err \<noteq> None" "err \<noteq> Some errDustReward" "t = acc" "e = Some errSendTransactionFailed"
      "opt' = opt\<lparr>o_BuildTxArgs := args\<rparr>"
  | (cont) h err args w1 w2 i2 where "sendRewardsTransaction E P (o_BuildTxArgs opt) (Account stat) reward
        (HexToAddress E (o_RewardToken opt)) (o_DryRun opt) w = Some (((h, err), args), w1)"
      "err = None \<or> err = Some errDustReward" "adds (\<lambda>e. \<not> is_send e) w1 w2"
      "sendRewards_loop E P (opt\<lparr>o_BuildTxArgs := args\<rparr>) ofile exchange rest (acc + reward) i2 w2 = Some (((t, e), opt'), w')"
proof -
  from assms obtain h err opt1 w1 where tx: "SendRewardsTransaction E P opt (Account stat) reward w = Some (((h, err), opt1), w1)"
    by (auto split: Option.bind_splits)
  then obtain args where args: "sendRewardsTransaction E P (o_BuildTxArgs opt) (Account stat) reward
      (HexToAddress E (o_RewardToken opt)) (o_DryRun opt) w = Some (((h, err), args), w1)"
      "opt1 = opt\<lparr>o_BuildTxArgs := args\<rparr>"
    using SendRewardsTransaction_eq by blast
  show ?thesis
  proof (cases "err \<noteq> None \<and> err \<noteq> Some errDustReward")
    case True
    with assms tx args show ?thesis by (intro stop [of h err args]) auto
  next
    case False
    let ?put = "\<lambda>w. if o_DryRun opt1 \<or> h \<noteq> None
       then do { (_, w) \<leftarrow> WriteSendRewardResult E P opt1 ofile exchange stat h w; Some (i + 1, w) }
       else Some (i, w)"
    let ?pause = "\<lambda>i w. if \<not> o_DryRun opt1 \<and> o_BatchCount opt1 > 0 \<and> i mod o_BatchCount opt1 = 0
       then Some ((), w @ [EvSleep (unat (o_BatchInterval opt1))]) else Some ((), w)"
    have s1: "silent ?put" by (rule silent_intros only_rules)+
    have s2: "silent (?pause i)" for i by (rule silent_intros only_rules | simp)+
    have "?put w1 \<bind> (\<lambda>(i, w). ?pause i w \<bind> (\<lambda>(_, w).
        sendRewards_loop E P opt1 ofile exchange rest (acc + reward) i w)) = Some (((t, e), opt'), w')"
    proof -
      have c: "(err \<noteq> None \<and> err \<noteq> Some errDustReward) = False" "(reward \<le> 0) = False"
        using False assms(3) by auto
      show ?thesis
        using assms(1) by (simp only: sendRewards_loop.simps(2) assms(2) option.case c if_False tx
            bind.bind_lunit prod.case)
    qed
    from bind_pair_Some [OF this] obtain i2 w2 where w2: "?put w1 = Some (i2, w2)"
      "?pause i2 w2 \<bind> (\<lambda>(_, w). sendRewards_loop E P opt1 ofile exchange rest (acc + reward) i2 w)
        = Some (((t, e), opt'), w')" by blast
    from bind_pair_Some [OF this(2)] obtain u w3 where w: "?pause i2 w2 = Some (u, w3)"
      "sendRewards_loop E P opt1 ofile exchange rest (acc + reward) i2 w3 = Some (((t, e), opt'), w')" by blast
    have "adds (\<lambda>e. \<not> is_send e) w1 w3" using onlyD [OF s1 w2(1)] onlyD [OF s2 w(1)] by (rule adds_trans)
    with w(2) args False show ?thesis by (intro cont) auto
  qed
qed


lemma sendRewards_loop_skip:
  assumes "\<not> positive stat"
  shows "sendRewards_loop E P opt ofile exchange (stat # rest) acc i w = sendRewards_loop E P opt ofile exchange rest acc i w"
  using assms by (auto simp: positive_def split: option.splits)

lemma positiveE:
  assumes "positive stat"
  obtains reward where "Reward stat = Some reward" "0 < reward" "reward_of stat = reward"
    "payable P stat \<longleftrightarrow> \<not> reward < GetDustRewardThreshold P"
  using assms by (auto simp: positive_def payable_def reward_of_def not_less split: option.splits)

lemma not_positive_payable: "\<not> positive stat \<Longrightarrow> \<not> payable P stat"
  by (auto simp: positive_def payable_def split: option.splits)

text \<open>In a dry run every outcome is dust or nothing.\<close>

lemma loop_dry:
  assumes "sendRewards_loop E P opt ofile exchange stats acc i w = Some (((t, e), opt'), w')" "o_DryRun opt"
  shows "adds (\<lambda>e. \<not> is_send e) w w' \<and> t = acc + total_positive stats \<and> e = None \<and> opt' = opt"
  using assms
proof (induction stats arbitrary: opt acc i w)
  case (Cons stat rest)
  show ?case
  proof (cases "positive stat")
    case False
    with Cons show ?thesis by (simp add: sendRewards_loop_skip del: sendRewards_loop.simps(2))
  next
    case True
    then obtain reward where r: "Reward stat = Some reward" "0 < reward" "reward_of stat = reward"
      by (rule positiveE)
    from Cons.prems(1) r(1,2) show ?thesis
    proof (cases rule: sendRewards_loop_Cons)
      case (stop h err args)
      from stop(1) have False using Cons.prems(2) stop(2,3)
        by (cases rule: sendRewardsTransaction_cases) auto
      then show ?thesis ..
    next
      case (cont h err args w1 w2 i2)
      from cont(1) have "args = o_BuildTxArgs opt \<and> w1 = w"
        using Cons.prems(2) by (cases rule: sendRewardsTransaction_cases) auto
      with Cons.IH [OF cont(4)] Cons.prems(2) cont(3) r True show ?thesis by (auto intro: adds_trans)
    qed
  qed
qed simp

text \<open>
  What a paying run broadcasts: a prefix of the payments due, all of them when it reports
  success, and then the rewards counted as sent are those that are positive.
\<close>

lemma loop_pays:
  assumes "sendRewards_loop E P opt ofile exchange stats acc i w = Some (((t, e), opt'), w')" "\<not> o_DryRun opt"
  shows "\<exists>txs. sent w' = sent w @ txs \<and> prefix (map pays txs) (payments E P (o_RewardToken opt) stats)
    \<and> (e = None \<longrightarrow> map pays txs = payments E P (o_RewardToken opt) stats \<and> t = acc + total_positive stats)
    \<and> (e \<noteq> None \<longrightarrow> e = Some errSendTransactionFailed) \<and> (\<exists>args. opt' = opt\<lparr>o_BuildTxArgs := args\<rparr>)"
  using assms
proof (induction stats arbitrary: opt acc i w)
  case Nil
  then show ?case by (auto intro: exI [of _ "[]"] exI [of _ "o_BuildTxArgs opt"])
next
  case (Cons stat rest)
  show ?case
  proof (cases "positive stat")
    case False
    with Cons not_positive_payable [of stat P] show ?thesis
      by (simp add: sendRewards_loop_skip del: sendRewards_loop.simps(2))
  next
    case True
    then obtain reward where r: "Reward stat = Some reward" "0 < reward" "reward_of stat = reward"
      "payable P stat \<longleftrightarrow> \<not> reward < GetDustRewardThreshold P"
      by (rule positiveE)
    let ?pay = "payment E (HexToAddress E (o_RewardToken opt)) (Account stat) reward"
    from Cons.prems(1) r(1,2) show ?thesis
    proof (cases rule: sendRewards_loop_Cons)
      case (stop h err args)
      from stop(1) have "sent w' = sent w" using Cons.prems(2) stop(2,3)
        by (cases rule: sendRewardsTransaction_cases) auto
      with stop show ?thesis by (intro exI [of _ "[]"]) auto
    next
      case (cont h err args w1 w2 i2)
      note cont3 = adds_sent [OF cont(3)]
      from Cons.IH [OF cont(4)] Cons.prems(2) obtain txs args' where IH:
        "sent w' = sent w2 @ txs" "prefix (map pays txs) (payments E P (o_RewardToken opt) rest)"
        "e = None \<Longrightarrow> map pays txs = payments E P (o_RewardToken opt) rest \<and> t = acc + reward + total_positive rest"
        "e \<noteq> None \<Longrightarrow> e = Some errSendTransactionFailed" "opt' = opt\<lparr>o_BuildTxArgs := args'\<rparr>"
        by auto
      from cont(1) show ?thesis
      proof (cases rule: sendRewardsTransaction_cases)
        case dust
        with IH cont3 r True show ?thesis by (intro exI [of _ txs]) auto
      next
        case (sent hash n nonce gasLimit gasPrice q)
        let ?tx = "reward_tx E (Account stat) reward (HexToAddress E (o_RewardToken opt)) nonce gasLimit gasPrice"
        from sent IH cont3 r True show ?thesis by (intro exI [of _ "?tx # txs"]) auto
      qed (use Cons.prems(2) cont(2) in auto)
    qed
  qed
qed


section \<open>What a distribution pays\<close>

text \<open>The options a paying run leaves differ in the transaction arguments and the open files only.\<close>

definition same_setup :: "Opt \<Rightarrow> Opt \<Rightarrow> bool" where
  "same_setup opt opt' \<longleftrightarrow> (\<exists>args files. opt' = opt\<lparr>o_BuildTxArgs := args, o_outputFiles := files\<rparr>)"

lemma same_setup_refl [simp]: "same_setup opt opt"
  unfolding same_setup_def by (intro exI [of _ "o_BuildTxArgs opt"] exI [of _ "o_outputFiles opt"]) simp

lemma same_setup_trans [trans]: "same_setup a b \<Longrightarrow> same_setup b c \<Longrightarrow> same_setup a c"
proof -
  assume "same_setup a b" "same_setup b c"
  then obtain ar f ar' f' where "b = a\<lparr>o_BuildTxArgs := ar, o_outputFiles := f\<rparr>"
      "c = b\<lparr>o_BuildTxArgs := ar', o_outputFiles := f'\<rparr>"
    unfolding same_setup_def by blast
  then have "c = a\<lparr>o_BuildTxArgs := ar', o_outputFiles := f'\<rparr>" by simp
  then show ?thesis unfolding same_setup_def by blast
qed

lemma same_setup_fields:
  assumes "same_setup opt opt'"
  shows "o_DryRun opt' = o_DryRun opt" "o_RewardToken opt' = o_RewardToken opt"
    "o_Exchanges opt' = o_Exchanges opt"
  using assms by (auto simp: same_setup_def)

lemma same_setup_updates [simp]:
  "same_setup opt (opt\<lparr>o_BuildTxArgs := args\<rparr>)" "same_setup opt (opt\<lparr>o_outputFiles := files\<rparr>)"
proof -
  have "opt\<lparr>o_BuildTxArgs := args\<rparr> = opt\<lparr>o_BuildTxArgs := args, o_outputFiles := o_outputFiles opt\<rparr>"
    by simp
  then show "same_setup opt (opt\<lparr>o_BuildTxArgs := args\<rparr>)" unfolding same_setup_def by blast
  have "opt\<lparr>o_outputFiles := files\<rparr> = opt\<lparr>o_BuildTxArgs := o_BuildTxArgs opt, o_outputFiles := files\<rparr>"
    by simp
  then show "same_setup opt (opt\<lparr>o_outputFiles := files\<rparr>)" unfolding same_setup_def by blast
qed

lemma getOutputFile_same_setup:
  "getOutputFile E P opt i w = Some ((r, opt'), w') \<Longrightarrow> same_setup opt opt' \<and> o_BuildTxArgs opt' = o_BuildTxArgs opt"
  by (auto simp: getOutputFile_def openOutputFile_def Let_def split: Option.bind_splits if_splits)

lemma silent_writeSendRewardTitleLine [silent_intros]: "silent (writeSendRewardTitleLine E opt f exchange)"
  unfolding writeSendRewardTitleLine_def [abs_def] by (rule silent_intros only_rules)+

text \<open>\<open>sendRewards\<close> fails before the loop, or runs the loop.\<close>

lemma sendRewards_cases [consumes 1, case_names early loop]:
  assumes "sendRewards E P opt idx exchange stats w = Some (((t, e), opt'), w')"
  obtains (early) "t = None" "e \<noteq> None" "adds (\<lambda>e. \<not> is_send e) w w'" "same_setup opt opt'"
  | (loop) opt1 f w1 t' where "same_setup opt opt1" "o_BuildTxArgs opt1 = o_BuildTxArgs opt" "adds (\<lambda>e. \<not> is_send e) w w1" "t = Some t'"
      "sendRewards_loop E P opt1 f exchange stats 0 0 w1 = Some (((t', e), opt'), w')"
proof -
  from assms obtain f err opt1 w1 where o: "getOutputFile E P opt idx w = Some (((f, err), opt1), w1)"
    by (auto simp: sendRewards_def split: Option.bind_splits)
  note s = getOutputFile_same_setup [OF o, THEN conjunct1] getOutputFile_same_setup [OF o, THEN conjunct2] and a = onlyD [OF silent_getOutputFile o]
  show ?thesis
  proof (cases err)
    case (Some x)
    with assms o s a show ?thesis by (intro early) (auto simp: sendRewards_def)
  next
    case None
    with assms o obtain fname err2 w2 where t: "f = Some fname"
        "writeSendRewardTitleLine E opt1 fname exchange w1 = Some (err2, w2)"
      by (auto simp: sendRewards_def split: Option.bind_splits)
    note a2 = adds_trans [OF a onlyD [OF silent_writeSendRewardTitleLine t(2)]]
    show ?thesis
    proof (cases err2)
      case (Some x)
      with assms o None t s a2 show ?thesis by (intro early) (auto simp: sendRewards_def)
    next
      case e2: None
      with assms o None t s a2 show ?thesis
        by (auto simp: sendRewards_def split: Option.bind_splits intro: loop)
    qed
  qed
qed

lemma silent_dist_info:
  "adds (\<lambda>e. \<not> is_send e) w w'"
  if "(if b then do { let timestamp = Now_Unix E w; let mdist = md timestamp;
         (_, w) \<leftarrow> TryDoTimes (AddDistributeInfo E mdist) (w @ [EvNow]); Some ((), w) } else Some ((), w)) = Some (u, w')"
proof -
  have "silent (\<lambda>w. if b then do { let timestamp = Now_Unix E w; let mdist = md timestamp;
         (_, w) \<leftarrow> TryDoTimes (AddDistributeInfo E mdist) (w @ [EvNow]); Some ((), w) } else Some ((), w))"
    by (rule silent_intros only_rules | rule only_after | simp)+
  from onlyD [OF this that] show ?thesis .
qed

text \<open>One exchange of \<open>dispatchRewards\<close>.\<close>

lemma dispatchRewards_loop_Cons [consumes 1, case_names stop cont]:
  assumes "dispatchRewards_loop E P opt i (exchange # rest) stats w = Some ((e, opt'), w')"
  obtains (stop) t where "i < length stats" "sendRewards E P opt i exchange (stats ! i) w = Some (((t, e), opt'), w')" "e \<noteq> None"
  | (cont) t opt1 w1 w2 where "i < length stats" "sendRewards E P opt i exchange (stats ! i) w = Some (((t, None), opt1), w1)"
      "adds (\<lambda>e. \<not> is_send e) w1 w2"
      "dispatchRewards_loop E P opt1 (Suc i) rest stats w2 = Some ((e, opt'), w')"
proof -
  from assms obtain t err opt1 w1 where s: "i < length stats" "sendRewards E P opt i exchange (stats ! i) w = Some (((t, err), opt1), w1)"
    by (auto simp: not_less split: Option.bind_splits if_splits)
  show ?thesis
  proof (cases err)
    case (Some x)
    with assms s show ?thesis by (intro stop [of t]) auto
  next
    case None
    have i: "(length stats \<le> i) = False" using s(1) by simp
    from assms obtain t' where t: "t = Some t'" using s None i by (auto split: Option.bind_splits)
    let ?info = "\<lambda>w. if o_SaveDB opt1 \<and> t' > 0
             then do {
               let timestamp = Now_Unix E w;
               let mdist = \<lparr>di_Exchange = ToLower exchange, di_Pairs = GetExchangePairs P exchange,
                 di_ByWhat = o_byWhat opt1, di_Start = o_StartHeight opt1, di_End = o_EndHeight opt1,
                 di_RewardToken = o_RewardToken opt1, di_Rewards = big_String t',
                 di_SampleHeight = o_SampleHeight opt1, di_Timestamp = timestamp\<rparr>;
               (_, w) \<leftarrow> TryDoTimes (AddDistributeInfo E mdist) (w @ [EvNow]);
               Some ((), w)
             }
             else Some ((), w)"
    have "?info w1 \<bind> (\<lambda>(_, w). dispatchRewards_loop E P opt1 (Suc i) rest stats w) = Some ((e, opt'), w')"
      using assms by (simp only: dispatchRewards_loop.simps(2) i if_False s(2) None t bind.bind_lunit
          prod.case not_True_eq_False simp_thms)
    from bind_pair_Some [OF this] obtain u w2 where "?info w1 = Some (u, w2)"
        "dispatchRewards_loop E P opt1 (Suc i) rest stats w2 = Some ((e, opt'), w')" by blast
    with silent_dist_info s None show ?thesis by (intro cont) auto
  qed
qed


lemma sendRewards_dry:
  assumes "sendRewards E P opt idx exchange stats w = Some (((t, e), opt'), w')" "o_DryRun opt"
  shows "adds (\<lambda>e. \<not> is_send e) w w' \<and> same_setup opt opt'"
  using assms(1)
proof (cases rule: sendRewards_cases)
  case (loop opt1 f w1 t')
  with assms(2) have "o_DryRun opt1" by (simp add: same_setup_fields)
  from loop_dry [OF loop(5) this] loop(1,3) show ?thesis by (auto intro: adds_trans)
qed auto

lemma sendRewards_pays:
  assumes "sendRewards E P opt idx exchange stats w = Some (((t, e), opt'), w')" "\<not> o_DryRun opt"
  shows "\<exists>txs. sent w' = sent w @ txs \<and> prefix (map pays txs) (payments E P (o_RewardToken opt) stats)
    \<and> (e = None \<longrightarrow> map pays txs = payments E P (o_RewardToken opt) stats \<and> t = Some (total_positive stats))
    \<and> same_setup opt opt'"
  using assms(1)
proof (cases rule: sendRewards_cases)
  case early
  with adds_sent show ?thesis by (intro exI [of _ "[]"]) auto
next
  case (loop opt1 f w1 t')
  then have f: "o_RewardToken opt1 = o_RewardToken opt" and "\<not> o_DryRun opt1"
    using assms(2) by (simp_all add: same_setup_fields)
  from loop_pays [OF loop(5) this(2)] obtain txs args where
    "sent w' = sent w1 @ txs" "prefix (map pays txs) (payments E P (o_RewardToken opt) stats)"
    "e = None \<longrightarrow> map pays txs = payments E P (o_RewardToken opt) stats \<and> t' = total_positive stats"
    "opt' = opt1\<lparr>o_BuildTxArgs := args\<rparr>" by (auto simp: f)
  moreover from this(4) loop(1) have "same_setup opt opt'" by (metis same_setup_trans same_setup_updates(1))
  ultimately show ?thesis using loop(3,4) adds_sent by (intro exI [of _ txs]) auto
qed

lemma dispatch_loop_dry:
  assumes "dispatchRewards_loop E P opt i exs stats w = Some ((e, opt'), w')" "o_DryRun opt"
  shows "adds (\<lambda>e. \<not> is_send e) w w'"
  using assms
proof (induction exs arbitrary: opt i w)
  case (Cons exchange rest)
  from Cons.prems(1) show ?case
  proof (cases rule: dispatchRewards_loop_Cons)
    case (stop t)
    with sendRewards_dry Cons.prems(2) show ?thesis by blast
  next
    case (cont t opt1 w1 w2)
    with sendRewards_dry [OF cont(2) Cons.prems(2)] Cons.prems(2)
    have "adds (\<lambda>e. \<not> is_send e) w w2" "o_DryRun opt1"
      by (auto simp: same_setup_fields intro: adds_trans)
    with Cons.IH [OF cont(4)] show ?thesis by (blast intro: adds_trans)
  qed
qed simp

lemma dispatch_loop_pays:
  assumes "dispatchRewards_loop E P opt i exs stats w = Some ((e, opt'), w')" "\<not> o_DryRun opt"
  shows "\<exists>txs. sent w' = sent w @ txs
    \<and> prefix (map pays txs) (concat (map (payments E P (o_RewardToken opt)) (take (length exs) (drop i stats))))
    \<and> (e = None \<longrightarrow> map pays txs = concat (map (payments E P (o_RewardToken opt)) (take (length exs) (drop i stats))))"
  using assms
proof (induction exs arbitrary: opt i w)
  case (Cons exchange rest)
  from Cons.prems(1) show ?case
  proof (cases rule: dispatchRewards_loop_Cons)
    case (stop t)
    then have "drop i stats = (stats ! i) # drop (Suc i) stats" by (simp add: Cons_nth_drop_Suc)
    with sendRewards_pays [OF stop(2) Cons.prems(2)] stop(3) show ?thesis
      by (auto intro: prefix_order.trans)
  next
    case (cont t opt1 w1 w2)
    let ?pay = "payments E P (o_RewardToken opt)"
    from sendRewards_pays [OF cont(2) Cons.prems(2)] obtain txs where txs:
      "sent w1 = sent w @ txs" "map pays txs = ?pay (stats ! i)" "same_setup opt opt1" by auto
    then have f: "\<not> o_DryRun opt1" "o_RewardToken opt1 = o_RewardToken opt"
      using Cons.prems(2) by (simp_all add: same_setup_fields)
    from Cons.IH [OF cont(4) f(1)] obtain txs' where txs':
      "sent w' = sent w2 @ txs'"
      "prefix (map pays txs') (concat (map ?pay (take (length rest) (drop (Suc i) stats))))"
      "e = None \<longrightarrow> map pays txs' = concat (map ?pay (take (length rest) (drop (Suc i) stats)))"
      unfolding f(2) by blast
    moreover have "drop i stats = (stats ! i) # drop (Suc i) stats"
      using cont(1) by (simp add: Cons_nth_drop_Suc)
    ultimately show ?thesis using txs adds_sent [OF cont(3)] by (intro exI [of _ "txs @ txs'"]) auto
  qed
qed simp

section \<open>Nonces\<close>

lemma u64_max_choice:
  "uint (case r of Inl _ \<Rightarrow> (n :: u64) | Inr m \<Rightarrow> (if m > n then m else n))
     = (case r of Inl _ \<Rightarrow> uint n | Inr m \<Rightarrow> max (uint m) (uint n))"
  by (auto simp: word_less_def split: sum.split)

lemma loop_nonces:
  assumes "sendRewards_loop E P opt ofile exchange stats acc i w = Some (((t, e), opt'), w')" "\<not> o_DryRun opt"
    and "ba_Nonce (o_BuildTxArgs opt) = Some n" "uint n + int (length stats) < 2 ^ 64"
    and "\<forall>w a m. PendingNonceAt E w a = Inr m \<longrightarrow> uint m + int (length stats) < 2 ^ 64"
  shows "\<exists>txs. sent w' = sent w @ txs \<and> sorted_wrt (<) (map rt_Nonce txs) \<and> (\<forall>tx \<in> set txs. n \<le> rt_Nonce tx)"
  using assms
proof (induction stats arbitrary: opt acc i w n)
  case (Cons stat rest)
  have len: "\<forall>w a m. PendingNonceAt E w a = Inr m \<longrightarrow> uint m + int (length rest) < 2 ^ 64"
    and len1: "PendingNonceAt E w a = Inr m \<Longrightarrow> uint m + int (Suc (length rest)) < 2 ^ 64" for w a m
    using Cons.prems(5) by force+
  show ?case
  proof (cases "positive stat")
    case False
    with Cons.prems(1) have "sendRewards_loop E P opt ofile exchange rest acc i w = Some (((t, e), opt'), w')"
      by (simp add: sendRewards_loop_skip del: sendRewards_loop.simps(2))
    from Cons.IH [OF this Cons.prems(2,3) _ len] Cons.prems(4) show ?thesis by simp
  next
    case True
    then obtain reward where r: "Reward stat = Some reward" "0 < reward" by (rule positiveE)
    from Cons.prems(1) r show ?thesis
    proof (cases rule: sendRewards_loop_Cons)
      case (stop h err args)
      from stop(1) have "sent w' = sent w" using Cons.prems(2) stop(2,3)
        by (cases rule: sendRewardsTransaction_cases) auto
      then show ?thesis by (intro exI [of _ "[]"]) simp
    next
      case (cont h err args w1 w2 i2)
      note cont3 = adds_sent [OF cont(3)]
      from cont(1) show ?thesis
      proof (cases rule: sendRewardsTransaction_cases)
        case dust
        with Cons.IH [OF cont(4) _ _ _ len, of n] Cons.prems(2-4) cont3 show ?thesis by simp
      next
        case (sent hash n' nonce gasLimit gasPrice q)
        let ?tx = "reward_tx E (Account stat) reward (HexToAddress E (o_RewardToken opt)) nonce gasLimit gasPrice"
        have nn: "n' = n" using sent(5) Cons.prems(3) by simp
        have "uint nonce + int (Suc (length rest)) < 2 ^ 64"
          using sent(6,7) nn Cons.prems(4)
          by (auto simp: u64_max_choice max_def split: sum.splits dest!: len1)
        then have n1: "uint (nonce + 1) = uint nonce + 1" "uint (nonce + 1) + int (length rest) < 2 ^ 64"
          by (subst uint_add_no_wrap; simp)+
        have "n \<le> nonce" using sent(7) nn by (auto simp: word_le_def u64_max_choice split: sum.splits)
        moreover from Cons.IH [OF cont(4) _ _ n1(2) len] Cons.prems(2) sent(9) obtain txs where
          "sent w' = sent w2 @ txs" "sorted_wrt (<) (map rt_Nonce txs)" "\<forall>tx \<in> set txs. nonce + 1 \<le> rt_Nonce tx"
          by auto
        moreover from this(3) have "\<forall>tx \<in> set txs. nonce < rt_Nonce tx"
          using n1(1) by (auto simp: word_le_def word_less_def)
        ultimately show ?thesis using sent(8) cont3
          by (intro exI [of _ "?tx # txs"]) (auto intro: le_less_trans [THEN order_less_imp_le])
      qed (use Cons.prems(2) cont(2) in auto)
    qed
  qed
qed simp


section \<open>A concrete distribution\<close>

definition paid_stat :: "address \<Rightarrow> int \<Rightarrow> AccountStat" where
  "paid_stat a r = \<lparr>Account = a, Reward = Some r, Share = Some 1, Number = 1\<rparr>"

definition test_stats :: "AccountStat list list" where
  "test_stats = [[paid_stat 20 60, paid_stat 21 0], [paid_stat 22 40]]"

definition nonce_env :: env where
  "nonce_env = base_env\<lparr>PendingNonceAt := (\<lambda>w a. Inr 6)\<rparr>"

lemma test_dispatch:
  "(case dispatchRewards base_env test_params test_opt test_stats [] of
      None \<Rightarrow> False | Some ((e, opt'), w') \<Rightarrow> e = None \<and> length (sent w') = 2)"
  "(case dispatchRewards base_env test_params (test_opt\<lparr>o_DryRun := True\<rparr>) test_stats [] of
      None \<Rightarrow> False | Some ((e, opt'), w') \<Rightarrow> e = None \<and> length w' = 6)"
  "(case sendRewards nonce_env test_params test_opt 0 ''7'' (concat test_stats) [] of
      None \<Rightarrow> False | Some (((t, e), opt'), w') \<Rightarrow> e = None \<and> length (sent w') = 2)"
  by code_simp+

section \<open>Properties\<close>

text \<open>
  C4: A dry run pays nothing: whatever the statistics, the options, the files and the answers of
  the node, while \<open>DryRun\<close> is set \<open>dispatchRewards\<close> never broadcasts a transaction, nor tries to.
\<close>

theorem dispatchRewards_dry_run_pays_nothing:
  assumes "dispatchRewards E P opt stats w = Some ((e, opt'), w')" "o_DryRun opt"
  shows "\<exists>es. w' = w @ es \<and> (\<forall>tx err. EvSendTransaction tx err \<notin> set es)"
proof -
  have "adds (\<lambda>e. \<not> is_send e) w w'"
    using dispatch_loop_dry assms by (simp add: dispatchRewards_def)
  then show ?thesis by (fastforce simp: adds_def)
qed

theorem dispatchRewards_dry_run_pays_nothing_witness:
  "\<exists>e opt' w'. dispatchRewards base_env test_params (test_opt\<lparr>o_DryRun := True\<rparr>) test_stats [] = Some ((e, opt'), w')
     \<and> length w' = 6 \<and> (\<forall>tx err. EvSendTransaction tx err \<notin> set w')"
proof -
  obtain e opt' w' where *: "dispatchRewards base_env test_params (test_opt\<lparr>o_DryRun := True\<rparr>) test_stats [] = Some ((e, opt'), w')"
      "length w' = 6"
    using test_dispatch(2) by (auto split: option.splits)
  from dispatchRewards_dry_run_pays_nothing [OF *(1)] * show ?thesis by auto
qed

text \<open>
  C1: A distribution pays exactly what is due. Without \<open>DryRun\<close>, the transactions that
  \<open>dispatchRewards\<close> gets accepted are, in the order of the exchanges and of the statistics, one
  payment (receiver, amount and call data of the reward token) for every positive reward that
  is not below the dust threshold: all of them when it reports success, and a prefix of them when
  it stops at an error. Nothing is paid twice, skipped, reordered or paid on top.
\<close>

theorem dispatchRewards_pays_due:
  assumes "dispatchRewards E P opt stats w = Some ((e, opt'), w')" "\<not> o_DryRun opt"
    and "length stats = length (o_Exchanges opt)"
  shows "\<exists>txs. sent w' = sent w @ txs
    \<and> prefix (map pays txs) (payments E P (o_RewardToken opt) (concat stats))
    \<and> (e = None \<longrightarrow> map pays txs = payments E P (o_RewardToken opt) (concat stats))"
proof -
  have "concat (map (payments E P (o_RewardToken opt)) stats) = payments E P (o_RewardToken opt) (concat stats)"
    by (induction stats) (auto simp: payments_def)
  moreover have "take (length (o_Exchanges opt)) (drop 0 stats) = stats" using assms(3) by simp
  ultimately show ?thesis
    using dispatch_loop_pays [OF assms(1) [unfolded dispatchRewards_def] assms(2)] by simp
qed

theorem dispatchRewards_pays_due_witness:
  "\<exists>e opt' w'. dispatchRewards base_env test_params test_opt test_stats [] = Some ((e, opt'), w')
     \<and> map pays (sent w') = [(9, 0, transfer_data base_env 20 60), (9, 0, transfer_data base_env 22 40)]"
proof -
  obtain e opt' w' where *: "dispatchRewards base_env test_params test_opt test_stats [] = Some ((e, opt'), w')"
      "e = None"
    using test_dispatch(1) by (auto split: option.splits)
  have "payments base_env test_params (o_RewardToken test_opt) (concat test_stats) =
      [(9, 0, transfer_data base_env 20 60), (9, 0, transfer_data base_env 22 40)]"
    by code_simp
  moreover have "\<not> o_DryRun test_opt" "length test_stats = length (o_Exchanges test_opt)"
    by (simp_all add: test_opt_def test_stats_def)
  note dispatchRewards_pays_due [OF *(1) this]
  ultimately show ?thesis using * by (intro exI) auto
qed

text \<open>
  C13: The nonces of the transactions one \<open>sendRewards\<close> call broadcasts increase strictly, and
  none is below the nonce in the arguments, whatever the node answers about pending nonces, as
  long as no nonce comes near the end of the 64-bit range: no payment replaces another.
\<close>

theorem sendRewards_nonces_increase:
  assumes "sendRewards E P opt idx exchange stats w = Some (((t, e), opt'), w')" "\<not> o_DryRun opt"
    and "ba_Nonce (o_BuildTxArgs opt) = Some n" "uint n + int (length stats) < 2 ^ 64"
    and "\<forall>w a m. PendingNonceAt E w a = Inr m \<longrightarrow> uint m + int (length stats) < 2 ^ 64"
  shows "\<exists>txs. sent w' = sent w @ txs \<and> sorted_wrt (<) (map rt_Nonce txs) \<and> (\<forall>tx \<in> set txs. n \<le> rt_Nonce tx)"
  using assms(1)
proof (cases rule: sendRewards_cases)
  case early
  with adds_sent show ?thesis by (intro exI [of _ "[]"]) auto
next
  case (loop opt1 f w1 t')
  from loop_nonces [OF loop(5) _ _ assms(4,5)] assms(2,3) loop(1-3) adds_sent show ?thesis
    by (auto simp: same_setup_fields)
qed


theorem sendRewards_nonces_increase_witness:
  "\<exists>r opt' w'. sendRewards nonce_env test_params test_opt 0 ''7'' (concat test_stats) [] = Some ((r, opt'), w')
     \<and> length (sent w') = 2 \<and> sorted_wrt (<) (map rt_Nonce (sent w'))"
proof -
  obtain t e opt' w' where *: "sendRewards nonce_env test_params test_opt 0 ''7'' (concat test_stats) [] = Some (((t, e), opt'), w')"
      "length (sent w') = 2"
    using test_dispatch(3) by (auto split: option.splits)
  from sendRewards_nonces_increase [OF *(1), of 5] * show ?thesis
    by (auto simp: test_opt_def test_stats_def nonce_env_def)
qed

end
