(* ===== verification/Budget.thy ===== *)
theory Budget
  imports Dispatch
begin

text \<open>
  The budget of a distribution, shared by \<open>ByLiquidity\<close> and \<open>ByVolume\<close>: what \<open>CalcRewards\<close>,
  \<open>CalcRewardsInBatch\<close> and \<open>CalcWeightedRewards\<close> grant never exceeds the total they are given,
  and what \<open>dispatchRewards\<close> pays never exceeds what was granted. The slices of statistics are
  either unrewarded with shares (samples, files of shares) or rewarded (volumes, files of
  rewards), and belong to accounts that may be rewarded (\<open>ok\<close>).
\<close>

section \<open>Slices of statistics\<close>

definition unpaid :: "(address \<Rightarrow> bool) \<Rightarrow> AccountStat list \<Rightarrow> bool" where
  "unpaid ok s \<longleftrightarrow> (\<forall>stat \<in> set s. ok (Account stat) \<and> Reward stat = None
     \<and> (case Share stat of None \<Rightarrow> False | Some x \<Rightarrow> 0 \<le> x))"

definition paid :: "(address \<Rightarrow> bool) \<Rightarrow> AccountStat list \<Rightarrow> bool" where
  "paid ok s \<longleftrightarrow> (\<forall>stat \<in> set s. ok (Account stat) \<and> (case Reward stat of None \<Rightarrow> False | Some r \<Rightarrow> 0 \<le> r))"

lemma unpaid_simps [simp]:
  "unpaid ok []"
  "unpaid ok (stat # s) \<longleftrightarrow> ok (Account stat) \<and> Reward stat = None
     \<and> (case Share stat of None \<Rightarrow> False | Some x \<Rightarrow> 0 \<le> x) \<and> unpaid ok s"
  by (auto simp: unpaid_def)

lemma paid_simps [simp]:
  "paid ok []"
  "paid ok (stat # s) \<longleftrightarrow> ok (Account stat) \<and> (case Reward stat of None \<Rightarrow> False | Some r \<Rightarrow> 0 \<le> r) \<and> paid ok s"
  by (auto simp: paid_def)

lemma unpaid_shares:
  assumes "unpaid ok s"
  shows "granted s = 0" "\<exists>xs. deref_all (map Share s) = Some xs \<and> (\<forall>x \<in> set xs. 0 \<le> x)"
  using assms by (induction s) (auto split: option.splits)

lemma paid_rewards:
  assumes "paid ok s"
  shows "0 \<le> granted s"
    "\<exists>xs. deref_all (map Reward s) = Some xs \<and> (\<forall>x \<in> set xs. 0 \<le> x) \<and> sum_list xs = granted s"
  using assms by (induction s) (auto split: option.splits)

lemma paid_with_rewards:
  assumes "length s = length rs" "\<forall>r \<in> set rs. 0 \<le> r" "\<forall>stat \<in> set s. ok (Account stat)"
  shows "paid ok (with_rewards s rs)"
  using assms by (induction s rs rule: list_induct2) auto

section \<open>Granted amounts\<close>

lemma CalcRewards_budget:
  assumes "unpaid ok s \<or> paid ok s" "0 < T" "CalcRewards s (Some T) = Some s'"
  shows "granted s' \<le> T \<and> (unpaid ok s' \<or> paid ok s')"
proof (cases "s = []")
  case True
  with assms show ?thesis by (simp add: CalcRewards_unfold)
next
  case False
  let ?f = "if Reward (hd s) \<noteq> None then Reward else Share"
  obtain xs where xs: "deref_all (map ?f s) = Some xs" "\<forall>x \<in> set xs. 0 \<le> x" "granted s \<le> sum_list xs"
    using assms(1)
  proof (rule disjE)
    assume u: "unpaid ok s"
    with False have "Reward (hd s) = None" by (cases s) auto
    moreover obtain xs where "deref_all (map Share s) = Some xs" "\<forall>x \<in> set xs. 0 \<le> x"
      using unpaid_shares(2) [OF u] by blast
    ultimately show ?thesis using that unpaid_shares(1) [OF u] by (simp add: sum_list_nonneg)
  next
    assume p: "paid ok s"
    with False have "Reward (hd s) \<noteq> None" by (cases s) (auto split: option.splits)
    moreover obtain xs where "deref_all (map Reward s) = Some xs" "\<forall>x \<in> set xs. 0 \<le> x" "sum_list xs = granted s"
      using paid_rewards(2) [OF p] by blast
    ultimately show ?thesis using that by simp
  qed
  have len: "length xs = length s" using xs(1) by (metis deref_all_eq_Some length_map)
  show ?thesis
  proof (cases "length (DivideRewards T xs) = length s")
    case True
    then have "0 < sum_list xs" using False len share_out.divide_length_iff [of T xs] by auto
    moreover have "\<forall>r \<in> set (DivideRewards T xs). 0 \<le> r"
      using share_out.divide_nonneg [of T xs] assms(2) xs(2) by auto
    moreover have "\<forall>stat \<in> set s. ok (Account stat)" using assms(1) by (auto simp: unpaid_def paid_def)
    moreover have "s' = with_rewards s (DivideRewards T xs)"
      using assms(2,3) False xs(1) True by (simp add: CalcRewards_unfold)
    ultimately show ?thesis using True
      by (simp add: with_rewards_fields share_out.divide_sum paid_with_rewards)
  next
    case different: False
    then have "sum_list xs \<le> 0" using len share_out.divide_length_iff [of T xs] by auto
    moreover have "s' = s" using assms(2,3) False xs(1) different by (simp add: CalcRewards_unfold)
    ultimately show ?thesis using assms(1,2) xs(3) by auto
  qed
qed

text \<open>
  An amount that is not positive leaves a slice as it is: for one without rewards nothing is
  granted, for one with rewards the old ones stay.
\<close>

lemma CalcRewards_not_positive: "T \<le> 0 \<Longrightarrow> CalcRewards s (Some T) = Some s"
  by (simp add: CalcRewards_unfold)

lemma CalcRewardsInBatch_budget:
  assumes "length stats = length rewards" "\<forall>r \<in> set rewards. 0 \<le> r"
    and "\<forall>(s, r) \<in> set (zip stats rewards). unpaid ok s \<or> (paid ok s \<and> 0 < r)"
    and "CalcRewardsInBatch stats rewards = Some stats'"
  shows "granted (concat stats') \<le> sum_list rewards \<and> (\<forall>s \<in> set stats'. unpaid ok s \<or> paid ok s)
    \<and> length stats' = length stats"
proof -
  have "granted (concat stats') \<le> sum_list rewards \<and> (\<forall>s \<in> set stats'. unpaid ok s \<or> paid ok s)
      \<and> length stats' = length stats"
    if "deref_all (map2 (\<lambda>stat r. CalcRewards stat (Some r)) stats rewards) = Some stats'" for stats'
    using assms(1-3) that
  proof (induction stats rewards arbitrary: stats' rule: list_induct2)
    case (Cons s stats r rewards)
    then obtain s' rest where s': "CalcRewards s (Some r) = Some s'" "stats' = s' # rest"
        "deref_all (map2 (\<lambda>stat r. CalcRewards stat (Some r)) stats rewards) = Some rest"
      by (auto simp: deref_all_eq_Some Cons_eq_map_conv)
    have rest: "granted (concat rest) \<le> sum_list rewards" "\<forall>s \<in> set rest. unpaid ok s \<or> paid ok s"
        "length rest = length stats"
      using Cons.IH [OF _ _ s'(3)] Cons.prems by auto
    have s: "granted s' \<le> r \<and> (unpaid ok s' \<or> paid ok s')"
    proof (cases "0 < r")
      case True
      with Cons.prems(2) s'(1) show ?thesis by (intro CalcRewards_budget [of ok s r s']) auto
    next
      case False
      with Cons.prems s'(1) unpaid_shares(1) [of ok s] show ?thesis by (auto simp: CalcRewards_not_positive)
    qed
    from s rest show ?case by (simp add: s'(2) granted_def)
  qed simp
  with assms(1,4) show ?thesis
    by (cases "rewards = []") (auto simp: CalcRewardsInBatch_def)
qed

lemma SumWeightShares_nonneg:
  assumes "\<forall>s \<in> set stats. unpaid ok s" "deref_all (map2 SumWeightShares stats ws) = Some shares"
  shows "\<forall>x \<in> set shares. 0 \<le> x"
proof
  fix x assume "x \<in> set shares"
  then have "Some x \<in> set (map2 SumWeightShares stats ws)"
    using assms(2) by (metis deref_all_eq_Some image_eqI list.set_map)
  then obtain s wt where s: "s \<in> set stats" "SumWeightShares s wt = Some x"
    by (auto dest: set_zip_leftD)
  obtain xs where "deref_all (map Share s) = Some xs" "\<forall>x \<in> set xs. 0 \<le> x"
    using assms(1) s(1) unpaid_shares(2) by blast
  with s(2) show "0 \<le> x" by (auto simp: SumWeightShares_def intro!: sum_list_nonneg mult_nonneg_nonneg)
qed

lemma granted_unpaid_concat: "\<forall>s \<in> set stats. unpaid ok s \<Longrightarrow> granted (concat stats) = 0"
proof (induction stats)
  case (Cons s stats)
  then show ?case using unpaid_shares(1) [of ok s] by (simp add: granted_def)
qed simp

lemma CalcWeightedRewards_cases:
  assumes "CalcWeightedRewards stats T weights = Some stats'"
  obtains "stats' = stats" | s s' where "stats = [s]" "CalcRewards s (Some T) = Some s'" "stats' = [s']"
    | ws shares where "deref_all (map2 SumWeightShares stats ws) = Some shares" "length ws = length stats"
      "CalcRewardsInBatch stats (DivideRewards T shares) = Some stats'"
proof (cases "weights \<noteq> None \<and> length (the weights) \<noteq> length stats")
  case True
  with assms that(1) show ?thesis by (simp add: CalcWeightedRewards_def)
next
  case False
  let ?ws = "case weights of None \<Rightarrow> replicate (length stats) 1 | Some ws \<Rightarrow> ws"
  have len: "length ?ws = length stats" using False by (auto split: option.split)
  show ?thesis
  proof (cases stats rule: remdups_adj.cases)
    case 1
    with assms False that(1) show ?thesis by (auto simp: CalcWeightedRewards_def)
  next
    case (2 s)
    with assms False that(2) show ?thesis by (auto simp: CalcWeightedRewards_def)
  next
    case (3 s1 s2 rest)
    then have "(case deref_all (map2 SumWeightShares stats ?ws) of None \<Rightarrow> None
        | Some shares \<Rightarrow> CalcRewardsInBatch stats (DivideRewards T shares)) = Some stats'"
      using assms False by (simp only: CalcWeightedRewards_def if_False list.case Let_def)
    then obtain shares where "deref_all (map2 SumWeightShares stats ?ws) = Some shares"
        "CalcRewardsInBatch stats (DivideRewards T shares) = Some stats'"
      by (cases "deref_all (map2 SumWeightShares stats ?ws)") simp_all
    with that(3) len show ?thesis by blast
  qed
qed

lemma CalcWeightedRewards_budget:
  assumes "\<forall>s \<in> set stats. unpaid ok s" "0 < T" "CalcWeightedRewards stats T weights = Some stats'"
  shows "granted (concat stats') \<le> T \<and> (\<forall>s \<in> set stats'. unpaid ok s \<or> paid ok s)
    \<and> length stats' = length stats"
proof -
  have unchanged: ?thesis if "stats' = stats"
    using that assms(1,2) granted_unpaid_concat [OF assms(1)] by auto
  from assms(3) show ?thesis
  proof (cases rule: CalcWeightedRewards_cases)
    case 1
    then show ?thesis by (rule unchanged)
  next
    case (2 s s')
    with assms CalcRewards_budget [of ok s T s'] show ?thesis by auto
  next
    case (3 ws shares)
    show ?thesis
    proof (cases "length stats = length (DivideRewards T shares) \<and> DivideRewards T shares \<noteq> []")
      case True
      have sh: "\<forall>x \<in> set shares. 0 \<le> x" using SumWeightShares_nonneg [OF assms(1) 3(1)] .
      have "0 < sum_list shares" using True share_out.divide_none [of shares T] by (cases "sum_list shares \<le> 0") auto
      moreover have "granted (concat stats') \<le> sum_list (DivideRewards T shares)
          \<and> (\<forall>s \<in> set stats'. unpaid ok s \<or> paid ok s) \<and> length stats' = length stats"
      proof (rule CalcRewardsInBatch_budget [OF _ _ _ 3(3)])
        show "\<forall>r \<in> set (DivideRewards T shares). 0 \<le> r"
          using share_out.divide_nonneg [of T shares] sh assms(2) by auto
        show "\<forall>(s, r) \<in> set (zip stats (DivideRewards T shares)). unpaid ok s \<or> paid ok s \<and> 0 < r"
          using assms(1) by (auto dest: set_zip_leftD)
      qed (use True in simp)
      ultimately show ?thesis by (simp add: share_out.divide_sum)
    next
      case False
      with 3(3) have "stats' = stats" by (auto simp: CalcRewardsInBatch_def split: if_splits)
      then show ?thesis by (rule unchanged)
    qed
  qed
qed

section \<open>Where slices come from\<close>

abbreviation eligible :: "env \<Rightarrow> params \<Rightarrow> address \<Rightarrow> bool" where
  "eligible E P account \<equiv> \<not> IsExcludedRewardAccount E P account"

lemma insert_by_set: "insert_by lessf x ys = Some zs \<Longrightarrow> set zs = insert x (set ys)"
  by (induction ys arbitrary: zs) (auto split: option.splits if_splits)

lemma sort_Sort_set: "sort_Sort lessf xs = Some ys \<Longrightarrow> set ys = set xs"
  by (induction xs arbitrary: ys) (auto split: Option.bind_splits dest: insert_by_set)

lemma ConvertToSortedSlice_set:
  "ConvertToSortedSlice m = Some s \<Longrightarrow> set s = {stat \<in> snd ` set m. has_share stat}"
  using sort_Sort_set [of Less "filter has_share (map snd m)" s] by (simp add: ConvertToSortedSlice_def)

lemma set_AList_update: "set (AList.update k v m) \<subseteq> insert (k, v) (set m)"
  by (induction m) auto

text \<open>A map of unrewarded statistics becomes an unrewarded slice, of positive shares.\<close>

lemma ConvertToSortedSlice_unpaid:
  assumes "ConvertToSortedSlice m = Some s" "\<forall>stat \<in> snd ` set m. ok (Account stat) \<and> Reward stat = None"
  shows "unpaid ok s"
  using assms(2) ConvertToSortedSlice_set [OF assms(1)]
  by (auto simp: unpaid_def has_share_def split: option.splits)

lemma ConvertToSortedSlice_paid:
  assumes "ConvertToSortedSlice m = Some s"
    and "\<forall>stat \<in> snd ` set m. ok (Account stat) \<and> (case Reward stat of None \<Rightarrow> False | Some r \<Rightarrow> 0 \<le> r)"
  shows "paid ok s"
  using assms(2) ConvertToSortedSlice_set [OF assms(1)] by (auto simp: paid_def)

definition unpaid_map :: "env \<Rightarrow> params \<Rightarrow> (address \<times> AccountStat) list \<Rightarrow> bool" where
  "unpaid_map E P m \<longleftrightarrow> (\<forall>stat \<in> snd ` set m. eligible E P (Account stat) \<and> Reward stat = None)"

definition paid_map :: "env \<Rightarrow> params \<Rightarrow> (address \<times> AccountStat) list \<Rightarrow> bool" where
  "paid_map E P m \<longleftrightarrow> (\<forall>stat \<in> snd ` set m. eligible E P (Account stat)
     \<and> (case Reward stat of None \<Rightarrow> False | Some r \<Rightarrow> 0 \<le> r))"

lemma map_of_snd: "map_of m a = Some x \<Longrightarrow> x \<in> snd ` set m"
  by (force dest: map_of_SomeD)

lemma unpaid_map_update:
  "unpaid_map E P m \<Longrightarrow> eligible E P (Account x) \<Longrightarrow> Reward x = None \<Longrightarrow> unpaid_map E P (AList.update a x m)"
  using set_AList_update [of a x m] by (fastforce simp: unpaid_map_def)

lemma paid_map_update:
  "paid_map E P m \<Longrightarrow> eligible E P (Account x) \<Longrightarrow> Reward x = Some r \<Longrightarrow> 0 \<le> r \<Longrightarrow> paid_map E P (AList.update a x m)"
  using set_AList_update [of a x m] by (fastforce simp: paid_map_def)

lemma map_slices:
  assumes "ConvertToSortedSlice m = Some s"
  shows "unpaid_map E P m \<Longrightarrow> unpaid (eligible E P) s" "paid_map E P m \<Longrightarrow> paid (eligible E P) s"
  using ConvertToSortedSlice_unpaid [OF assms] ConvertToSortedSlice_paid [OF assms]
  by (auto simp: unpaid_map_def paid_map_def)

lemma share_of_line_unpaid:
  assumes "share_of_line E P h line = Inr (Some stat)"
  shows "unpaid (eligible E P) [stat]"
  using assms by (auto simp: share_of_line_def Let_def split: if_splits sum.splits)

lemma shares_of_lines_unpaid:
  "shares_of_lines E P h lines stats = Inr s \<Longrightarrow> unpaid (eligible E P) stats \<Longrightarrow> unpaid (eligible E P) s"
proof (induction lines arbitrary: stats)
  case (Cons l lines)
  show ?case
  proof (cases "isCommentedLine (TrimSpace l)")
    case True
    with Cons show ?thesis by simp
  next
    case False
    with Cons.prems obtain r where r: "share_of_line E P h (TrimSpace l) = Inr r"
      by (cases "share_of_line E P h (TrimSpace l)") auto
    show ?thesis
    proof (cases r)
      case None
      with False r Cons show ?thesis by simp
    next
      case (Some stat)
      with r have "unpaid (eligible E P) (stats @ [stat])"
        using Cons.prems(2) share_of_line_unpaid [of E P h "TrimSpace l" stat] by (auto simp: unpaid_def)
      with False r Some Cons show ?thesis by simp
    qed
  qed
qed simp

lemma reward_of_line_paid:
  assumes "reward_of_line E P line = Inr (Some stat)"
  shows "paid (eligible E P) [stat]"
  using assms by (auto simp: reward_of_line_def Let_def split: if_splits sum.splits)

lemma rewards_of_lines_paid:
  "rewards_of_lines E P lines first title stats = Inr (s, t) \<Longrightarrow> paid (eligible E P) stats \<Longrightarrow> paid (eligible E P) s"
proof (induction lines arbitrary: first title stats)
  case (Cons l lines)
  show ?case
  proof (cases "isCommentedLine (TrimSpace l)")
    case True
    with Cons show ?thesis by simp
  next
    case False
    with Cons.prems obtain r where r: "reward_of_line E P (TrimSpace l) = Inr r"
      by (cases "reward_of_line E P (TrimSpace l)") auto
    show ?thesis
    proof (cases r)
      case None
      with False r Cons show ?thesis by simp
    next
      case (Some stat)
      with r have "paid (eligible E P) (stats @ [stat])"
        using Cons.prems(2) reward_of_line_paid [of E P "TrimSpace l" stat] by (auto simp: paid_def)
      with False r Some Cons show ?thesis by simp
    qed
  qed
qed simp

lemma GetAccountsAndShares_unpaid:
  assumes "GetAccountsAndShares E P opt w = Some (Inr stats, w')"
  shows "\<forall>s \<in> set stats. unpaid (eligible E P) s"
proof -
  have "GetAccountsAndShares_loop E P h files w = Some (Inr stats, w') \<Longrightarrow> \<forall>s \<in> set stats. unpaid (eligible E P) s"
    for h files w stats w'
  proof (induction files arbitrary: w stats)
    case (Cons f rest)
    then show ?case
      by (fastforce simp: GetAccountsAndSharesFromFile_def Let_def split: Option.bind_splits sum.splits
          dest: shares_of_lines_unpaid)
  qed simp
  with assms show ?thesis by (auto simp: GetAccountsAndShares_def split: if_splits)
qed

section \<open>Paid amounts\<close>

text \<open>
  The payments due to a list of receivers and amounts, and that a run stayed within a budget: it
  got accepted, in order, payments to accounts that may be rewarded, of positive amounts
  not below the dust threshold, whose sum is at most the total.
\<close>

definition due_payments :: "env \<Rightarrow> string \<Rightarrow> (address \<times> int) list \<Rightarrow> (address \<times> int \<times> byte list) list" where
  "due_payments E token due = map (\<lambda>(account, reward). payment E (HexToAddress E token) account reward) due"

definition within_budget :: "env \<Rightarrow> params \<Rightarrow> int \<Rightarrow> (address \<times> int) list \<Rightarrow> bool" where
  "within_budget E P T due \<longleftrightarrow> sum_list (map snd due) \<le> T \<and>
     (\<forall>(account, reward) \<in> set due. 0 < reward \<and> GetDustRewardThreshold P \<le> reward
        \<and> \<not> IsExcludedRewardAccount E P account)"

lemma sum_payable_le:
  assumes "unpaid ok s \<or> paid ok s"
  shows "sum_list (map reward_of (filter (payable P) s)) \<le> granted s"
proof -
  have "\<forall>stat \<in> set s. 0 \<le> reward_of stat"
    using assms by (force simp: unpaid_def paid_def reward_of_def split: option.splits)
  then have "sum_list (map reward_of (filter (payable P) s)) \<le> sum_list (map reward_of s)"
    by (induction s) auto
  also have "\<dots> = granted s" by (simp add: granted_def reward_of_def [abs_def])
  finally show ?thesis .
qed

lemma sum_payable_concat_le:
  assumes "\<forall>s \<in> set stats. unpaid ok s \<or> paid ok s"
  shows "sum_list (map reward_of (filter (payable P) (concat stats))) \<le> granted (concat stats)"
  using assms
proof (induction stats)
  case (Cons s stats)
  then show ?case using sum_payable_le [of ok s P] by (simp add: granted_def)
qed simp

lemma prefix_map_take: "prefix xs (map f ys) \<longleftrightarrow> (\<exists>n. xs = map f (take n ys))"
  by (metis prefix_def append_take_drop_id map_append take_is_prefix append_eq_conv_conj take_map)

lemma sum_take_le:
  assumes "\<forall>x \<in> set xs. (0::int) \<le> f x"
  shows "sum_list (map f (take n xs)) \<le> sum_list (map f xs)"
proof -
  have "sum_list (map f xs) = sum_list (map f (take n xs)) + sum_list (map f (drop n xs))"
    by (metis append_take_drop_id map_append sum_list_append)
  moreover have "0 \<le> sum_list (map f (drop n xs))"
    using assms by (intro sum_list_nonneg) (auto dest: in_set_dropD)
  ultimately show ?thesis by simp
qed

text \<open>Paying slices that grant at most \<open>T\<close>, with or without \<open>DryRun\<close>, stays within \<open>T\<close>.\<close>

lemma dispatchRewards_within_budget:
  assumes run: "dispatchRewards E P opt stats w = Some ((e, opt'), w')"
    and len: "length stats = length (o_Exchanges opt)"
    and stats: "\<forall>s \<in> set stats. unpaid (eligible E P) s \<or> paid (eligible E P) s"
    and T: "granted (concat stats) \<le> T" "0 \<le> T"
  shows "\<exists>due txs. sent w' = sent w @ txs \<and> map pays txs = due_payments E (o_RewardToken opt) due
    \<and> within_budget E P T due"
proof (cases "o_DryRun opt")
  case True
  have "adds (\<lambda>e. \<not> is_send e) w w'"
    using dispatch_loop_dry [OF run [unfolded dispatchRewards_def] True] .
  with T(2) show ?thesis
    by (intro exI [of _ "[]"]) (auto simp: adds_sent due_payments_def within_budget_def)
next
  case False
  let ?all = "filter (payable P) (concat stats)" and ?tok = "o_RewardToken opt"
  have "take (length (o_Exchanges opt)) (drop 0 stats) = stats" using len by simp
  with dispatch_loop_pays [OF run [unfolded dispatchRewards_def] False] obtain txs where
    "sent w' = sent w @ txs" "prefix (map pays txs) (concat (map (payments E P ?tok) stats))" by auto
  moreover have "concat (map (payments E P ?tok) stats) =
      map (\<lambda>stat. payment E (HexToAddress E ?tok) (Account stat) (reward_of stat)) ?all"
    by (induction stats) (auto simp: payments_def)
  ultimately obtain n where n: "sent w' = sent w @ txs"
      "map pays txs = map (\<lambda>stat. payment E (HexToAddress E ?tok) (Account stat) (reward_of stat)) (take n ?all)"
    by (auto simp: prefix_map_take)
  let ?due = "map (\<lambda>stat. (Account stat, reward_of stat)) (take n ?all)"
  have pos: "0 < reward_of stat \<and> GetDustRewardThreshold P \<le> reward_of stat \<and> eligible E P (Account stat)"
    if "stat \<in> set ?all" for stat
    using that stats by (fastforce simp: payable_def reward_of_def unpaid_def paid_def split: option.splits)
  have "sum_list (map snd ?due) \<le> sum_list (map reward_of ?all)"
    using sum_take_le [of ?all reward_of n] pos by (auto simp: o_def less_imp_le)
  also have "\<dots> \<le> T" using sum_payable_concat_le [OF stats, of P] T(1) by simp
  finally have "within_budget E P T ?due"
    using pos by (auto simp: within_budget_def dest: in_set_takeD)
  moreover have "map pays txs = due_payments E ?tok ?due" using n(2) by (simp add: due_payments_def)
  ultimately show ?thesis using n(1) by blast
qed

end
