(* ===== verification/By_Volume.thy ===== *)
theory By_Volume
  imports Budget
begin

text \<open>
  \<open>distributer/byvolume.go\<close>: the distribution by traded volume. The rewards of every exchange
  come from the database or from files; the total, less the rewards of the cycles without any
  volume, is divided among the exchanges by percentage or by volume (limited by the coins the
  exchange held in the previous cycle, times its weight), and then among its accounts.
\<close>

section \<open>Dividing among the exchanges\<close>

definition divideVolumeRewardsByPercentage :: "Opt \<Rightarrow> int \<Rightarrow> int list" where
  "divideVolumeRewardsByPercentage opt totalReward =
     (if length (weights_list opt) = 1 then [totalReward]
      else DivideRewards totalReward (map SetUint64 (weights_list opt)))"

text \<open>A zero cycle length panics (integer division by zero), and so does a missing configuration.\<close>

definition calcPrevCycleSttEnd :: "params \<Rightarrow> u64 \<Rightarrow> bool \<Rightarrow> (u64 \<times> u64) option" where
  "calcPrevCycleSttEnd P height useTimeMeasurement = do {
     distCfg \<leftarrow> cf_Distribute (config P);
     let startHeight = (if useTimeMeasurement then dc_StartTimestamp distCfg else dc_StartHeight distCfg);
     let cycleLen = (if useTimeMeasurement then dc_ByLiquidCycleDuration distCfg else dc_ByLiquidCycle distCfg);
     if cycleLen = 0 then None
     else
       let preCycleEnd = height - (height - startHeight) mod cycleLen
       in Some (preCycleEnd - cycleLen, preCycleEnd)
   }"

fun exchange_shares ::
  "env \<Rightarrow> Opt \<Rightarrow> int option \<Rightarrow> u64 \<Rightarrow> nat \<Rightarrow> string list \<Rightarrow> AccountStat list list \<Rightarrow> int list action" where
  "exchange_shares E opt sampleBlockNumber prevLen i [] stats w = Some ([], w)"
| "exchange_shares E opt sampleBlockNumber prevLen i (exchange # rest) stats w =
     (if i \<ge> length stats then None
      else do {
        sumShare \<leftarrow> CalcTotalShare (stats ! i);
        (share, w) \<leftarrow>
          (if sumShare = 0 then Some (0, w)
           else do {
             (exCoinBalance, w) \<leftarrow> LoopGetCoinBalance E (HexToAddress E exchange) sampleBlockNumber w;
             let len = o_EndHeight opt - o_StartHeight opt;
             exCoinBalance \<leftarrow>
               (if len \<noteq> prevLen then big_Div (exCoinBalance * SetUint64 len) (SetUint64 prevLen)
                else Some exCoinBalance);
             let totalShare = (if sumShare > exCoinBalance then exCoinBalance else sumShare);
             Some ((if length (weights_list opt) > i \<and> weights_list opt ! i > 1
                    then totalShare * SetUint64 (weights_list opt ! i) else totalShare), w)
           });
        (shares, w) \<leftarrow> exchange_shares E opt sampleBlockNumber prevLen (Suc i) rest stats w;
        Some (share # shares, w)
      })"

definition divideVolumeRewardsByExchange ::
  "env \<Rightarrow> params \<Rightarrow> Opt \<Rightarrow> AccountStat list list \<Rightarrow> int \<Rightarrow> int list action" where
  "divideVolumeRewardsByExchange E P opt stats totalReward w =
     (if length (o_Exchanges opt) = 1 then Some ([totalReward], w)
      else if o_Weights opt \<noteq> None \<and> length (weights_list opt) \<noteq> length (o_Exchanges opt) then Some ([], w)
      else do {
        (preCycleStart, preCycleEnd) \<leftarrow> calcPrevCycleSttEnd P (o_StartHeight opt) (o_UseTimeMeasurement opt);
        (sampleBlockNumber, w) \<leftarrow>
          (if \<not> o_ArchiveMode opt then do { (_, w) \<leftarrow> LoopGetLatestBlockHeader E w; Some (None, w) }
           else do {
             (sampleHeight, w) \<leftarrow> CalcRandomSampleHeight E P preCycleStart preCycleEnd (o_UseTimeMeasurement opt) w;
             Some (Some (SetUint64 sampleHeight), w)
           });
        (exchangeShares, w) \<leftarrow>
          exchange_shares E opt sampleBlockNumber (preCycleEnd - preCycleStart) 0 (o_Exchanges opt) stats w;
        Some (DivideRewards totalReward exchangeShares, w)
      })"

section \<open>ByVolume\<close>

text \<open>The total less the rewards of the cycles without volume; a missing step reward panics.\<close>

definition volume_total :: "Opt \<Rightarrow> int \<Rightarrow> int option" where
  "volume_total opt totalValue =
     (if o_noVolumes opt > 0 then do {
        stepReward \<leftarrow> o_StepReward opt;
        Some (if stepReward > 0 then totalValue - stepReward * SetUint64 (o_noVolumes opt) else totalValue)
      }
      else Some totalValue)"

definition divided :: "env \<Rightarrow> params \<Rightarrow> Opt \<Rightarrow> AccountStat list list \<Rightarrow> int \<Rightarrow> int list action" where
  "divided E P opt stats totalReward w =
     (if o_WeightIsPercentage opt then Some (divideVolumeRewardsByPercentage opt totalReward, w)
      else divideVolumeRewardsByExchange E P opt stats totalReward w)"

definition ByVolume :: "env \<Rightarrow> params \<Rightarrow> Opt \<Rightarrow> (error option \<times> Opt) action" where
  "ByVolume E P opt w = do {
     let opt = opt\<lparr>o_byWhat := byVolumeMethodID\<rparr>;
     (case o_TotalValue opt of
        None \<Rightarrow> Some ((Some errTotalRewardsIsZero, opt), w)
      | Some totalValue \<Rightarrow>
          if totalValue \<le> 0 then Some ((Some errTotalRewardsIsZero, opt), w)
          else do {
            (err, w) \<leftarrow> checkAndInit E P opt w;
            if err \<noteq> None then Some ((Some errCheckOptionFailed, deinit opt), w)
            else do {
              ((r, opt), w) \<leftarrow> GetAccountsAndRewards E P opt w;
              (case r of
                 Inl _ \<Rightarrow> Some ((Some errGetAccountsRewardsFailed, deinit opt), w)
               | Inr accountStats \<Rightarrow>
                   if length accountStats \<noteq> length (o_Exchanges opt)
                   then Some ((Some errAccountsNotComplete, deinit opt), w)
                   else do {
                     totalReward \<leftarrow> volume_total opt totalValue;
                     if totalReward \<le> 0 then Some ((None, deinit opt), w)
                     else do {
                       (rewards, w) \<leftarrow> divided E P opt accountStats totalReward w;
                       if length rewards \<noteq> length accountStats then Some ((None, deinit opt), w)
                       else do {
                         accountStats \<leftarrow> CalcRewardsInBatch accountStats rewards;
                         ((err, opt), w) \<leftarrow> dispatchRewards E P opt accountStats w;
                         Some ((err, deinit opt), w)
                       }
                     }
                   })
            }
          })
   }"

section \<open>The slices are rewarded or have shares\<close>

lemma FindAccountVolumes_unpaid:
  assumes "FindAccountVolumes E P exchange s e t w = Some (stats, w')"
  shows "unpaid (eligible E P) stats"
proof -
  let ?entries = "List.map_filter (counted_volume E P) (Find_VolumeHistory E w (ToLower exchange) t s e)"
  have fold: "unpaid_map E P (foldl add_volume m es)"
    if "\<forall>(a, v) \<in> set es. eligible E P a" "unpaid_map E P m" for es m
    using that
  proof (induction es arbitrary: m)
    case (Cons x es)
    obtain a v where x: "x = (a, v)" by (cases x)
    have "unpaid_map E P (add_volume m x)"
    proof (cases "map_of m a")
      case None
      with Cons.prems x show ?thesis by (simp add: add_volume_def unpaid_map_update)
    next
      case (Some stat)
      with Cons.prems(2) have "eligible E P (Account stat)" "Reward stat = None"
        by (auto simp: unpaid_map_def dest: map_of_snd)
      with Some Cons.prems(2) x show ?thesis by (simp add: add_volume_def unpaid_map_update)
    qed
    with Cons show ?case by simp
  qed simp
  have "\<forall>(a, v) \<in> set ?entries. eligible E P a"
    by (auto simp: List.map_filter_def counted_volume_def Let_def split: option.splits if_splits)
  then have "unpaid_map E P (foldl add_volume [] ?entries)" by (rule fold) (simp add: unpaid_map_def)
  moreover have "ConvertToSortedSlice (foldl add_volume [] ?entries) = Some stats"
    using assms by (auto simp: FindAccountVolumes_def Let_def split: Option.bind_splits)
  ultimately show ?thesis using map_slices(1) by blast
qed

lemma add_percent_nonneg: "0 \<le> x \<Longrightarrow> 0 \<le> x + x * SetUint64 n div 100"
  by (intro add_nonneg_nonneg) (auto simp: pos_imp_zdiv_nonneg_iff)

lemma weighted_loop_unpaid:
  "weighted_loop E P cfg b stats w = Some (stats', w') \<Longrightarrow> unpaid ok stats \<Longrightarrow> unpaid ok stats'"
proof (induction stats arbitrary: w stats')
  case (Cons stat rest)
  let ?one = "if \<not> IsInStakerList P (Account stat) then Some (stat, w)
      else do {
        (stakeAmount, w) \<leftarrow> LoopGetStakeAmount E (HexToAddress E (sk_Contract cfg)) (Account stat) b w;
        let stakeWholeAmount = big_Uint64 (stakeAmount div 1000000000000000000);
        let addPercent = calcAddPercentOfStaking cfg stakeWholeAmount;
        if addPercent = 0 then Some (stat, w)
        else do {
          share \<leftarrow> Share stat;
          Some (stat\<lparr>Share := Some (share + share * SetUint64 addPercent div 100)\<rparr>, w)
        }
      }"
  from Cons.prems(1) obtain stat1 w1 rest' where one: "?one = Some (stat1, w1)"
      "weighted_loop E P cfg b rest w1 = Some (rest', w')" "stats' = stat1 # rest'"
    unfolding weighted_loop.simps by (auto dest!: bind_pair_Some)
  from one(1) Cons.prems(2) have "unpaid ok [stat1]"
    by (auto simp: Let_def add_percent_nonneg split: if_splits Option.bind_splits option.splits)
  with one Cons show ?case by auto
qed simp

lemma getSingleCycleRewardsFromDB_slice:
  assumes "getSingleCycleRewardsFromDB E P (Some T) exchange s e t a w = Some (stats, w')"
  shows "unpaid (eligible E P) stats \<or> paid (eligible E P) stats"
proof -
  have slice: ?thesis if "unpaid (eligible E P) s0" "CalcRewards s0 (Some T) = Some stats" for s0
    using CalcRewards_budget [of "eligible E P" s0 T stats] CalcRewards_not_positive [of T s0] that
    by (cases "0 < T") auto
  from assms obtain s0 w0 where f: "FindAccountVolumes E P exchange s e t w = Some (s0, w0)"
    unfolding getSingleCycleRewardsFromDB_def by (auto dest!: bind_pair_Some)
  show ?thesis
  proof (cases "s0 = []")
    case True
    with assms f show ?thesis by (simp add: getSingleCycleRewardsFromDB_def)
  next
    case False
    with assms f have "\<exists>s1. CalcRewards s1 (Some T) = Some stats \<and>
        (s1 = s0 \<or> (\<exists>b w1. weightedByStakeAmount E P s0 b w0 = Some (s1, w1)))"
      by (auto simp: getSingleCycleRewardsFromDB_def dest!: bind_pair_Some split: if_splits Option.bind_splits)
    then obtain s1 where s1: "CalcRewards s1 (Some T) = Some stats"
        "s1 = s0 \<or> (\<exists>b w1. weightedByStakeAmount E P s0 b w0 = Some (s1, w1))" by blast
    from this(2) have "unpaid (eligible E P) s1"
      using FindAccountVolumes_unpaid [OF f] weighted_loop_unpaid
      by (auto simp: weightedByStakeAmount_def split: Option.bind_splits)
    with s1(1) show ?thesis by (rule slice [rotated])
  qed
qed

lemma merge_stats_paid:
  "merge_stats m stats = Some m' \<Longrightarrow> unpaid (eligible E P) stats \<or> paid (eligible E P) stats \<Longrightarrow> paid_map E P m
    \<Longrightarrow> paid_map E P m'"
proof (induction stats arbitrary: m)
  case (Cons stat rest)
  from Cons.prems(1) obtain m1 where m1: "merge_stat m stat = Some m1" "merge_stats m1 rest = Some m'"
    by (auto split: Option.bind_splits)
  have "eligible E P (Account stat)" using Cons.prems(2) by auto
  with m1(1) Cons.prems(3) have "paid_map E P m1"
    by (auto simp: merge_stat_def paid_map_def ptr_Add_def split: option.splits if_splits Option.bind_splits
        dest!: set_AList_update [THEN subsetD] map_of_snd)
  with m1(2) Cons show ?case by auto
qed simp

lemma steps_loop_paid:
  assumes "steps_loop E P opt (Some T) exchange start m ns w = Some ((m', ns'), w')" "paid_map E P m"
  shows "paid_map E P m'"
proof -
  let ?Q = "\<lambda>a (r, w'). case a of ((((((((E, P), opt), tot), exchange), start), m), ns), w) \<Rightarrow>
      tot \<noteq> None \<longrightarrow> paid_map E P m \<longrightarrow> paid_map E P (fst r)"
  have "?Q ((((((((E, P), opt), Some T), exchange), start), m), ns), w) ((m', ns'), w')"
    using _ assms(1)
    by (rule steps_loop.raw_induct [where Pa = ?Q])
      (auto split: Option.bind_splits if_splits dest!: getSingleCycleRewardsFromDB_slice,
       (blast intro: merge_stats_paid)+)
  with assms(2) show ?thesis by simp
qed

definition same_cycle :: "Opt \<Rightarrow> Opt \<Rightarrow> bool" where
  "same_cycle opt opt' \<longleftrightarrow> opt' = opt\<lparr>o_noVolumes := o_noVolumes opt',
     o_hasNoMissingVolumes := o_hasNoMissingVolumes opt', o_noVolumeStartHeights := o_noVolumeStartHeights opt'\<rparr>"

lemma same_cycle_refl [simp]: "same_cycle opt opt"
  by (simp add: same_cycle_def)

lemma same_cycle_updateNoVolumes [simp]: "same_cycle opt (updateNoVolumes opt ns)"
  by (simp add: same_cycle_def updateNoVolumes_def Let_def)

lemma same_cycle_noVolumes [simp]: "same_cycle opt opt' \<Longrightarrow> same_cycle opt (opt'\<lparr>o_noVolumes := n\<rparr>)"
  by (cases opt; cases opt') (simp add: same_cycle_def)

lemma same_cycle_trans: "same_cycle opt opt1 \<Longrightarrow> same_cycle opt1 opt2 \<Longrightarrow> same_cycle opt opt2"
  by (cases opt; cases opt1; cases opt2) (simp add: same_cycle_def)

lemma same_cycle_fields:
  assumes "same_cycle opt opt'"
  shows "o_TotalValue opt' = o_TotalValue opt" "o_DryRun opt' = o_DryRun opt" "o_RewardToken opt' = o_RewardToken opt"
    "o_Exchanges opt' = o_Exchanges opt" "o_Weights opt' = o_Weights opt" "o_StepReward opt' = o_StepReward opt"
    "o_WeightIsPercentage opt' = o_WeightIsPercentage opt" "o_byWhat opt' = o_byWhat opt"
  using assms by (cases opt; cases opt'; simp add: same_cycle_def)+

lemma GetAccountsAndRewardsFromDB_slice:
  assumes "GetAccountsAndRewardsFromDB E P opt exchange w = Some ((stats, opt'), w')" "o_TotalValue opt = Some T"
  shows "(unpaid (eligible E P) stats \<or> paid (eligible E P) stats) \<and> same_cycle opt opt'"
proof (cases "o_StepCount opt = 0")
  case True
  with assms show ?thesis
    by (auto simp: GetAccountsAndRewardsFromDB_def split: Option.bind_splits dest!: getSingleCycleRewardsFromDB_slice)
next
  case False
  with assms obtain r m ns where "steps_loop E P opt (Some r) exchange (o_StartHeight opt) [] [] w = Some ((m, ns), w')"
      "ConvertToSortedSlice m = Some stats" "opt' = updateNoVolumes opt ns"
    by (auto simp: GetAccountsAndRewardsFromDB_def Let_def split: Option.bind_splits)
  moreover from this(1) have "paid_map E P m" by (rule steps_loop_paid) (simp add: paid_map_def)
  ultimately show ?thesis using map_slices(2) by auto
qed

lemma GetAccountsAndRewards_slices:
  assumes "GetAccountsAndRewards E P opt w = Some ((Inr stats, opt'), w')" "o_TotalValue opt = Some T"
  shows "(\<forall>s \<in> set stats. unpaid (eligible E P) s \<or> paid (eligible E P) s) \<and> same_cycle opt opt'"
proof -
  have loop: "(\<forall>s \<in> set stats. unpaid (eligible E P) s \<or> paid (eligible E P) s) \<and> same_cycle opt opt'"
    if "GetAccountsAndRewards_loop E P opt i exs w = Some ((Inr stats, opt'), w')" "o_TotalValue opt = Some T"
    for i exs w opt opt' stats
    using that
  proof (induction exs arbitrary: i w opt opt' stats)
    case (Cons exchange rest)
    let ?ifile = "getInputFileName opt i"
    let ?get = "if ?ifile = [] then do {
          ((stats, opt), w) \<leftarrow> GetAccountsAndRewardsFromDB E P opt exchange w;
          Some ((Inr stats, opt), w)
        }
        else do {
          (r, w) \<leftarrow> GetAccountsAndRewardsFromFile E P ?ifile w;
          (case r of Inl err \<Rightarrow> Some ((Inl err, opt), w) | Inr st \<Rightarrow> Some ((Inr (fst st), opt), w))
        }"
    from Cons.prems(1) obtain r opt1 w1 where get: "?get = Some ((r, opt1), w1)"
      unfolding GetAccountsAndRewards_loop.simps Let_def by (auto dest!: bind_pair_Some)
    with Cons.prems(1) obtain s0 rest0 where r: "r = Inr s0" "stats = s0 # rest0"
        "GetAccountsAndRewards_loop E P opt1 (Suc i) rest w1 = Some ((Inr rest0, opt'), w')"
      unfolding GetAccountsAndRewards_loop.simps Let_def get bind.bind_lunit prod.case
      by (auto split: sum.splits Option.bind_splits)
    have s0: "(unpaid (eligible E P) s0 \<or> paid (eligible E P) s0) \<and> same_cycle opt opt1"
    proof (cases "?ifile = []")
      case True
      with get r(1) Cons.prems(2) GetAccountsAndRewardsFromDB_slice [of E P opt exchange w s0 opt1 w1 T] show ?thesis
        by (auto split: Option.bind_splits)
    next
      case False
      with get r(1) show ?thesis
        by (auto simp: GetAccountsAndRewardsFromFile_def Let_def split: sum.splits Option.bind_splits
            dest!: rewards_of_lines_paid)
    qed
    then have "o_TotalValue opt1 = Some T" using Cons.prems(2) same_cycle_fields(1) [of opt opt1] by simp
    from Cons.IH [OF r(3) this] s0 show ?case by (auto simp: r(2) intro: same_cycle_trans)
  qed simp
  from assms(1) obtain opt1 where l: "GetAccountsAndRewards_loop E P opt 0 (o_Exchanges opt) w = Some ((Inr stats, opt1), w')"
      "opt' = opt1\<lparr>o_noVolumes := of_nat (length (o_noVolumeStartHeights opt1))\<rparr>"
    by (auto simp: GetAccountsAndRewards_def split: sum.splits Option.bind_splits)
  from loop [OF l(1) assms(2)] l(2) show ?thesis by auto
qed

section \<open>Only the payments broadcast\<close>

lemma silent_exchange_shares [silent_intros]: "silent (exchange_shares E opt b prevLen i exs stats)"
proof (induction exs arbitrary: i)
  case Nil
  show ?case by (simp add: only_def)
next
  case (Cons exchange rest)
  show ?case unfolding exchange_shares.simps [abs_def]
    by (rule silent_intros only_rules Cons.IH | rule only_bind_pure)+
qed

lemma silent_divideVolumeRewardsByExchange [silent_intros]:
  "silent (divideVolumeRewardsByExchange E P opt stats T)"
  unfolding divideVolumeRewardsByExchange_def [abs_def]
  by (rule silent_intros only_rules | rule only_bind_pure)+

lemma silent_divided: "silent (divided E P opt stats T)"
  unfolding divided_def [abs_def] by (rule silent_intros only_rules)+

text \<open>
  A run that returns either ends before the payments, having broadcast nothing, or pays the
  rewards computed from slices that are rewarded or have shares.
\<close>

lemma ByVolume_cases [consumes 2, case_names early pays]:
  assumes "ByVolume E P opt w = Some ((e, opt'), w')" "o_TotalValue opt = Some T"
  obtains (early) "adds (\<lambda>e. \<not> is_send e) w w'"
  | (pays) w0 opt1 stats T' rewards w1 stats' w2 opt2 where
      "adds (\<lambda>e. \<not> is_send e) w w2" "same_cycle (opt\<lparr>o_byWhat := byVolumeMethodID\<rparr>) opt1"
      "checkAndInit E P (opt\<lparr>o_byWhat := byVolumeMethodID\<rparr>) w = Some (None, w0)"
      "\<forall>s \<in> set stats. unpaid (eligible E P) s \<or> paid (eligible E P) s"
      "length stats = length (o_Exchanges opt)" "volume_total opt1 T = Some T'" "0 < T'"
      "divided E P opt1 stats T' w1 = Some (rewards, w2)" "length rewards = length stats"
      "CalcRewardsInBatch stats rewards = Some stats'"
      "dispatchRewards E P opt1 stats' w2 = Some ((e, opt2), w')"
proof (cases "0 < T")
  case False
  with assms early show ?thesis by (simp add: ByVolume_def)
next
  case True
  let ?opt = "opt\<lparr>o_byWhat := byVolumeMethodID\<rparr>"
  have run: "do {
      (err, w) \<leftarrow> checkAndInit E P ?opt w;
      if err \<noteq> None then Some ((Some errCheckOptionFailed, deinit ?opt), w)
      else do {
        ((r, opt), w) \<leftarrow> GetAccountsAndRewards E P ?opt w;
        (case r of
           Inl _ \<Rightarrow> Some ((Some errGetAccountsRewardsFailed, deinit opt), w)
         | Inr accountStats \<Rightarrow>
             if length accountStats \<noteq> length (o_Exchanges opt)
             then Some ((Some errAccountsNotComplete, deinit opt), w)
             else do {
               totalReward \<leftarrow> volume_total opt T;
               if totalReward \<le> 0 then Some ((None, deinit opt), w)
               else do {
                 (rewards, w) \<leftarrow> divided E P opt accountStats totalReward w;
                 if length rewards \<noteq> length accountStats then Some ((None, deinit opt), w)
                 else do {
                   accountStats \<leftarrow> CalcRewardsInBatch accountStats rewards;
                   ((err, opt), w) \<leftarrow> dispatchRewards E P opt accountStats w;
                   Some ((err, deinit opt), w)
                 }
               }
             })
      }
    } = Some ((e, opt'), w')"
    using assms True by (simp add: ByVolume_def Let_def)
  obtain err w0 where c: "checkAndInit E P ?opt w = Some (err, w0)"
    using bind_pair_Some [OF run] by blast
  note a0 = onlyD [OF silent_checkAndInit c]
  note run = run [unfolded c bind.bind_lunit prod.case]
  show ?thesis
  proof (cases err)
    case (Some x)
    with run a0 early show ?thesis by simp
  next
    case None
    with run obtain r opt1 w1 where g: "GetAccountsAndRewards E P ?opt w0 = Some ((r, opt1), w1)"
      by (auto dest!: bind_pair_Some)
    note a1 = adds_trans [OF a0 onlyD [OF silent_GetAccountsAndRewards g]]
    note run = run [unfolded None g bind.bind_lunit prod.case]
    show ?thesis
    proof (cases r)
      case (Inl x)
      with run a1 early show ?thesis by simp
    next
      case (Inr stats)
      note slices = GetAccountsAndRewards_slices [OF g [unfolded Inr], of T]
      have s: "\<forall>s \<in> set stats. unpaid (eligible E P) s \<or> paid (eligible E P) s" "same_cycle ?opt opt1"
        using slices assms(2) by auto
      have ex: "o_Exchanges opt1 = o_Exchanges opt" using same_cycle_fields(4) [OF s(2)] by simp
      show ?thesis
      proof (cases "length stats = length (o_Exchanges opt)")
        case False
        with run Inr a1 early ex show ?thesis by simp
      next
        case len: True
        with run Inr ex obtain T' where T': "volume_total opt1 T = Some T'" by (auto split: Option.bind_splits)
        note run = run [unfolded Inr sum.case ex T' bind.bind_lunit]
        show ?thesis
        proof (cases "0 < T'")
          case False
          with run len a1 early show ?thesis by simp
        next
          case pos: True
          with run len obtain rewards w2 where d: "divided E P opt1 stats T' w1 = Some (rewards, w2)"
            by (auto dest!: bind_pair_Some)
          note a2 = adds_trans [OF a1 onlyD [OF silent_divided d]]
          show ?thesis
          proof (cases "length rewards = length stats")
            case False
            with run len pos d a2 early show ?thesis by simp
          next
            case True
            with run len pos d obtain stats' where "CalcRewardsInBatch stats rewards = Some stats'"
                "do { ((err, opt), w) \<leftarrow> dispatchRewards E P opt1 stats' w2; Some ((err, deinit opt), w) } = Some ((e, opt'), w')"
              by (auto split: Option.bind_splits)
            moreover from this(2) obtain opt2 where "dispatchRewards E P opt1 stats' w2 = Some ((e, opt2), w')"
              by (auto split: Option.bind_splits)
            ultimately show ?thesis
              using pays [OF a2 s(2) c [unfolded None] s(1) len T' pos d True] by blast
          qed
        qed
      qed
    qed
  qed
qed

lemma ByVolume_dry:
  assumes "ByVolume E P opt w = Some ((e, opt'), w')" "o_DryRun opt"
  shows "adds (\<lambda>e. \<not> is_send e) w w'"
proof (cases "o_TotalValue opt")
  case None
  with assms show ?thesis by (simp add: ByVolume_def)
next
  case (Some T)
  from assms(1) Some show ?thesis
  proof (cases rule: ByVolume_cases)
    case (pays w0 opt1 stats T' rewards w1 stats' w2 opt2)
    from pays(2) assms(2) have "o_DryRun opt1" using same_cycle_fields(2) [OF pays(2)] by simp
    from dispatch_loop_dry [OF pays(11) [unfolded dispatchRewards_def] this]
    show ?thesis by (rule adds_trans [OF pays(1)])
  qed
qed

section \<open>The parts of the exchanges\<close>

lemma volume_total_fields:
  "o_noVolumes opt = o_noVolumes opt' \<Longrightarrow> o_StepReward opt = o_StepReward opt' \<Longrightarrow> volume_total opt T = volume_total opt' T"
  by (cases "o_StepReward opt'") (simp_all add: volume_total_def)

lemma volume_total_no_step: "o_StepReward opt = None \<Longrightarrow> volume_total opt T = Some T' \<Longrightarrow> T' = T"
  by (auto simp: volume_total_def split: if_splits)

lemma volume_total_le: "volume_total opt T = Some T' \<Longrightarrow> T' \<le> T"
  by (auto simp: volume_total_def split: if_splits Option.bind_splits)

lemma checkAndInit_weights:
  assumes "checkAndInit E P opt w = Some (None, w')" "o_byWhat opt = byVolumeMethodID"
  shows "length (weights_list opt) = length (o_Exchanges opt) \<and> (\<forall>n \<in> set (weights_list opt). n \<noteq> 0)
    \<and> o_Exchanges opt \<noteq> []"
proof -
  have "checkWeights opt = None" "CheckBasic E P opt = None"
    using assms(1) by (auto simp: checkAndInit_def split: option.splits)
  with assms(2) show ?thesis by (auto simp: checkWeights_def CheckBasic_def Let_def method_ids split: if_splits)
qed

lemma DivideRewards_positive:
  assumes "\<forall>x \<in> set xs. 0 < x" "xs \<noteq> []" "sum_list xs \<le> T"
  shows "sum_list (DivideRewards T xs) = T \<and> (\<forall>r \<in> set (DivideRewards T xs). 0 < r)"
proof -
  have S: "0 < sum_list xs" using assms(1,2) by (simp add: sum_list_pos_int)
  have "0 < DivideRewards T xs ! i" if "i < length xs" for i
  proof -
    have x: "0 < xs ! i" using that assms(1) by simp
    have "xs ! i * sum_list xs div sum_list xs \<le> T * xs ! i div sum_list xs"
      using S x assms(3) by (intro zdiv_mono1) (auto simp: mult.commute)
    with S x that show ?thesis by (simp add: nth_DivideRewards)
  qed
  then show ?thesis using S by (auto simp: in_set_conv_nth length_DivideRewards sum_list_DivideRewards)
qed

lemma percentage_parts:
  assumes "0 < T" "length (weights_list opt) = n" "0 < n" "\<forall>x \<in> set (weights_list opt). x \<noteq> 0"
    and "n = 1 \<or> sum_list (map uint (weights_list opt)) \<le> T"
  shows "sum_list (divideVolumeRewardsByPercentage opt T) = T
    \<and> (\<forall>r \<in> set (divideVolumeRewardsByPercentage opt T). 0 < r)"
proof (cases "n = 1")
  case True
  with assms show ?thesis by (simp add: divideVolumeRewardsByPercentage_def)
next
  case False
  have "\<forall>x \<in> set (map uint (weights_list opt)). 0 < x"
    using assms(4) by (auto simp: word_neq_0_conv word_less_def)
  moreover have "map uint (weights_list opt) \<noteq> []" using assms(2,3) by auto
  moreover have "sum_list (map uint (weights_list opt)) \<le> T" using False assms(5) by simp
  ultimately have "sum_list (DivideRewards T (map uint (weights_list opt))) = T
      \<and> (\<forall>r \<in> set (DivideRewards T (map uint (weights_list opt))). 0 < r)"
    by (rule DivideRewards_positive)
  then show ?thesis
    unfolding divideVolumeRewardsByPercentage_def assms(2) using False by simp
qed

lemma positive_parts_budget:
  assumes "length stats = length rewards" "\<forall>r \<in> set rewards. 0 < r"
    and "\<forall>s \<in> set stats. unpaid ok s \<or> paid ok s" "CalcRewardsInBatch stats rewards = Some stats'"
  shows "granted (concat stats') \<le> sum_list rewards \<and> (\<forall>s \<in> set stats'. unpaid ok s \<or> paid ok s)
    \<and> length stats' = length stats"
proof (rule CalcRewardsInBatch_budget [OF assms(1) _ _ assms(4)])
  show "\<forall>r \<in> set rewards. 0 \<le> r" using assms(2) by (auto intro: less_imp_le)
  show "\<forall>(s, r) \<in> set (zip stats rewards). unpaid ok s \<or> paid ok s \<and> 0 < r"
    using assms(2,3) by (auto dest: set_zip_leftD set_zip_rightD)
qed

section \<open>A concrete distribution\<close>

definition reward_env :: env where
  "reward_env = base_env\<lparr>ReadFile_Lines := \<lambda>w f. Inr [''#account,reward'', ''20 '' @ f, ''21,1'']\<rparr>"

definition volume_opt :: Opt where
  "volume_opt = test_opt\<lparr>o_InputFiles := [''3'', ''5''], o_Weights := Some [60, 40], o_WeightIsPercentage := True\<rparr>"

definition volume_run_opt :: Opt where
  "volume_run_opt = volume_opt\<lparr>o_byWhat := byVolumeMethodID\<rparr>"

definition file_stat :: "address \<Rightarrow> int \<Rightarrow> AccountStat" where
  "file_stat a reward = \<lparr>Account = a, Reward = Some reward, Share = None, Number = 0\<rparr>"

definition file_rewards :: "AccountStat list list" where
  "file_rewards = [[file_stat 20 3, file_stat 21 1], [file_stat 20 5, file_stat 21 1]]"

definition volume_granted :: "AccountStat list list" where
  "volume_granted = the (CalcRewardsInBatch file_rewards [60, 40])"

definition volume_log :: "event list" where
  "volume_log = snd (the (checkAndInit reward_env test_params volume_run_opt []))"

lemma volume_stages:
  "map_option fst (checkAndInit reward_env test_params volume_run_opt []) = Some None"
  "rewards_of_lines reward_env test_params [''#account,reward'', ''20 3'', ''21,1''] True [] []
    = Inr (file_rewards ! 0, ''#account,reward'')"
  "rewards_of_lines reward_env test_params [''#account,reward'', ''20 5'', ''21,1''] True [] []
    = Inr (file_rewards ! 1, ''#account,reward'')"
  "divideVolumeRewardsByPercentage volume_run_opt 100 = [60, 40]"
  "CalcRewardsInBatch file_rewards [60, 40] = Some volume_granted"
  "map_option (\<lambda>((e, opt), w). (e, length (sent w)))
     (dispatchRewards reward_env test_params volume_run_opt volume_granted (volume_log @ [EvOpenFile ''3'', EvOpenFile ''5'']))
     = Some (None, 4)"
  by code_simp+

lemma test_ByVolume:
  "\<exists>e opt' w'. ByVolume reward_env test_params volume_opt [] = Some ((e, opt'), w') \<and> length (sent w') = 4"
proof -
  have opt: "o_TotalValue volume_run_opt = Some 100" "o_noVolumes volume_run_opt = 0"
      "o_Exchanges volume_run_opt = [''7'', ''8'']" "o_InputFiles volume_run_opt = [''3'', ''5'']"
      "o_noVolumeStartHeights volume_run_opt = []" "o_WeightIsPercentage volume_run_opt"
      "volume_run_opt\<lparr>o_noVolumes := 0\<rparr> = volume_run_opt"
    by (simp_all add: volume_run_opt_def volume_opt_def test_opt_def)
  have check: "checkAndInit reward_env test_params volume_run_opt [] = Some (None, volume_log)"
    using volume_stages(1) by (auto simp: volume_log_def)
  have ifile: "ReadFile_Lines reward_env w f = Inr [''#account,reward'', ''20 '' @ f, ''21,1'']" for w f
    by (simp add: reward_env_def)
  have two: "[file_rewards ! 0, file_rewards ! 1] = file_rewards" by (simp add: file_rewards_def)
  have rewards: "GetAccountsAndRewards reward_env test_params volume_run_opt w =
      Some ((Inr file_rewards, volume_run_opt), w @ [EvOpenFile ''3'', EvOpenFile ''5''])" for w
    using two by (simp add: GetAccountsAndRewards_def GetAccountsAndRewardsFromFile_def getInputFileName_def opt ifile
        volume_stages(2,3) Let_def del: rewards_of_lines.simps)
  have len: "length file_rewards = 2" by (simp add: file_rewards_def)
  obtain e opt' w' where "dispatchRewards reward_env test_params volume_run_opt volume_granted
      (volume_log @ [EvOpenFile ''3'', EvOpenFile ''5'']) = Some ((e, opt'), w')" "length (sent w') = 4"
    using volume_stages(6) by auto
  then show ?thesis
    by (simp add: ByVolume_def opt check rewards len volume_total_def divided_def volume_stages(4,5)
        flip: volume_run_opt_def)
qed

section \<open>Within the budget\<close>

lemma ByVolume_budget:
  assumes "ByVolume E P opt w = Some ((e, opt'), w')" "o_TotalValue opt = Some T" "0 \<le> T"
    and parts: "length (o_Exchanges opt) = 1 \<or> o_WeightIsPercentage opt \<and>
      (\<forall>n T'. volume_total (opt\<lparr>o_noVolumes := n\<rparr>) T = Some T' \<longrightarrow> 0 < T' \<longrightarrow> sum_list (map uint (weights_list opt)) \<le> T')"
  shows "\<exists>due txs. sent w' = sent w @ txs \<and> map pays txs = due_payments E (o_RewardToken opt) due
    \<and> within_budget E P T due"
  using assms(1,2)
proof (cases rule: ByVolume_cases)
  case early
  with adds_sent assms(3) show ?thesis
    by (intro exI [of _ "[]"]) (auto simp: due_payments_def within_budget_def)
next
  case (pays w0 opt1 stats T' rewards w1 stats' w2 opt2)
  note f = same_cycle_fields [OF pays(2), simplified]
  have ws: "weights_list opt1 = weights_list opt" by (simp add: weights_list_def f(5))
  have vt: "volume_total (opt\<lparr>o_noVolumes := o_noVolumes opt1\<rparr>) T = Some T'"
    using pays(6) volume_total_fields [of opt1 "opt\<lparr>o_noVolumes := o_noVolumes opt1\<rparr>" T] f(6) by simp
  have w: "length (weights_list opt) = length (o_Exchanges opt)" "\<forall>x \<in> set (weights_list opt). x \<noteq> 0"
      "o_Exchanges opt \<noteq> []"
    using checkAndInit_weights [OF pays(3)] by (simp_all add: weights_list_def)
  have parts': "sum_list rewards = T' \<and> (\<forall>r \<in> set rewards. 0 < r)"
  proof (cases "o_WeightIsPercentage opt")
    case True
    then have "rewards = divideVolumeRewardsByPercentage opt1 T'" using pays(8) by (simp add: divided_def f(7))
    then show ?thesis
      using percentage_parts [of T' opt1 "length (o_Exchanges opt)"] parts vt w pays(7) ws by auto
  next
    case False
    with parts pays(7,8) f(4,7) show ?thesis by (auto simp: divided_def divideVolumeRewardsByExchange_def)
  qed
  have stats': "granted (concat stats') \<le> T'" "\<forall>s \<in> set stats'. unpaid (eligible E P) s \<or> paid (eligible E P) s"
      "length stats' = length (o_Exchanges opt1)"
    using positive_parts_budget [OF pays(9) [symmetric] _ pays(4,10)] parts' pays(5) f(4) by auto
  moreover have "T' \<le> T" using volume_total_le [OF pays(6)] .
  ultimately show ?thesis
    using dispatchRewards_within_budget [OF pays(11) stats'(3,2), of T] assms(3) adds_sent [OF pays(1)] f(3) by auto
qed

section \<open>Properties\<close>

text \<open>
  C3: A distribution by volume stays within its budget and pays only eligible accounts, for one
  exchange, and for exchanges weighted by percentage as long as the total (less the rewards of
  cycles without volume) is at least the sum of the weights, so that every exchange gets a
  positive part. Whatever the volumes, stakes, files, the database and the answers of the node,
  and wherever the run stops, the transactions accepted are payments of the reward token of
  positive amounts, none below the dust threshold, to accounts that are not excluded, and
  their amounts add up to at most \<open>TotalValue\<close>.
\<close>

theorem ByVolume_within_budget:
  assumes "ByVolume E P opt w = Some ((e, opt'), w')" "o_TotalValue opt = Some T" "0 \<le> T"
    and parts: "length (o_Exchanges opt) = 1 \<or> o_WeightIsPercentage opt \<and>
      (\<forall>n T'. volume_total (opt\<lparr>o_noVolumes := n\<rparr>) T = Some T' \<longrightarrow> 0 < T' \<longrightarrow> sum_list (map uint (weights_list opt)) \<le> T')"
  shows "\<exists>due txs. sent w' = sent w @ txs \<and> map pays txs = due_payments E (o_RewardToken opt) due
    \<and> within_budget E P T due"
  by (rule ByVolume_budget [OF assms])

theorem ByVolume_within_budget_witness:
  "\<exists>e opt' w' due. ByVolume reward_env test_params volume_opt [] = Some ((e, opt'), w')
     \<and> map pays (sent w') = due_payments reward_env ''9'' due \<and> length due = 4 \<and> within_budget reward_env test_params 100 due"
proof -
  obtain e opt' w' where *: "ByVolume reward_env test_params volume_opt [] = Some ((e, opt'), w')"
      "length (sent w') = 4"
    using test_ByVolume by blast
  have "o_TotalValue volume_opt = Some 100" "o_RewardToken volume_opt = ''9''" "o_WeightIsPercentage volume_opt"
      "weights_list volume_opt = [60, 40]" "o_StepReward volume_opt = None"
    by (simp_all add: volume_opt_def test_opt_def weights_list_def)
  moreover have "T' = 100" if "volume_total (volume_opt\<lparr>o_noVolumes := n\<rparr>) 100 = Some T'" for n T'
    using _ that by (rule volume_total_no_step) (simp add: volume_opt_def test_opt_def)
  ultimately obtain due where
    "map pays (sent w') = due_payments reward_env ''9'' due" "within_budget reward_env test_params 100 due"
    using ByVolume_within_budget [OF *(1), of 100] by auto
  moreover from this(1) have "length due = length (sent w')"
    by (metis due_payments_def length_map)
  ultimately show ?thesis using * by auto
qed

text \<open>
  Beyond these cases the budget can be exceeded: when an exchange whose accounts already have
  rewards gets a part of zero (it held no coins in the previous cycle, or the total is small),
  the old rewards stay and are paid on top of the parts of the other exchanges.
\<close>

lemma stale_rewards_exceed_total:
  "DivideRewards 100 [5, 0] = [100, 0]
    \<and> map_option (granted \<circ> concat) (CalcRewardsInBatch [[file_stat 20 100], [file_stat 21 100]] [100, 0]) = Some 200"
  by code_simp

end
