(* ===== verification/By_Liquidity.thy ===== *)
theory By_Liquidity
  imports Budget
begin

text \<open>
  \<open>distributer/byliquidity.go\<close>: the distribution by liquidity, sampled at one height. The shares
  come from input files, or from the balances of the accounts at the sample height, converted to
  coins. (The choice of the height is in \<open>Block_Search\<close> and \<open>Options\<close>.)
\<close>

section \<open>Liquidity balances\<close>

text \<open>
  The balance of one account: from the database if it is stored there and readable, else from
  the node.
\<close>

definition liquidity_value ::
  "env \<Rightarrow> string \<Rightarrow> address \<Rightarrow> address \<Rightarrow> u64 \<Rightarrow> int option \<Rightarrow> int action" where
  "liquidity_value E exchange exchangeAddr account height blockNumber w = do {
     ((liquidStr, err), w) \<leftarrow> FindLiquidityBalance E exchange (ToLower (Address_String E account)) height w;
     (case (if err = None then found (GetBigIntFromString liquidStr) else None) of
        Some value \<Rightarrow> Some (value, w)
      | None \<Rightarrow> LoopGetLiquidityBalance E exchangeAddr account blockNumber w)
   }"

text \<open>Adding one account to the statistics; a duplicate keeps the smaller value.\<close>

definition add_balance_stat ::
  "(address \<times> AccountStat) list \<Rightarrow> address \<Rightarrow> int \<Rightarrow> int \<Rightarrow> u64 \<Rightarrow> (address \<times> AccountStat) list option" where
  "add_balance_stat finStatMap account value coinBalance height =
     (case map_of finStatMap account of
        Some finStat \<Rightarrow> do {
          share \<leftarrow> Share finStat;
          Some (if share > value
            then AList.update account (finStat\<lparr>Share := Some coinBalance, Number := height\<rparr>) finStatMap
            else finStatMap)
        }
      | None \<Rightarrow> Some (AList.update account
          \<lparr>Account = account, Reward = None, Share = Some coinBalance, Number = height\<rparr> finStatMap))"

fun balances_loop ::
  "env \<Rightarrow> params \<Rightarrow> string \<Rightarrow> u64 \<Rightarrow> int option \<Rightarrow> int \<Rightarrow> int \<Rightarrow> address list
    \<Rightarrow> (address \<times> AccountStat) list \<Rightarrow> int \<Rightarrow> ((address \<times> AccountStat) list \<times> int) action" where
  "balances_loop E P exchange height blockNumber totalSupply exCoinBalance [] finStatMap totalLiquid w =
     Some ((finStatMap, totalLiquid), w)"
| "balances_loop E P exchange height blockNumber totalSupply exCoinBalance (account # rest) finStatMap totalLiquid w = do {
     let accoutStr = ToLower (Address_String E account);
     (value, w) \<leftarrow> liquidity_value E exchange (HexToAddress E exchange) account height blockNumber w;
     let coinBalance = (if totalSupply > 0 then value * exCoinBalance div totalSupply else value * exCoinBalance);
     let mliq = \<lparr>lb_Key = GetKeyOfLiquidityBalance exchange accoutStr height, lb_Exchange = ToLower exchange,
       lb_Pairs = GetExchangePairs P exchange, lb_Account = accoutStr, lb_BlockNumber = height,
       lb_Liquidity = big_String value\<rparr>;
     (_, w) \<leftarrow> TryDoTimes (AddLiquidityBalance E mliq) w;
     if IsExcludedRewardAccount E P account
     then balances_loop E P exchange height blockNumber totalSupply exCoinBalance rest finStatMap (totalLiquid + value) w
     else do {
       finStatMap \<leftarrow> add_balance_stat finStatMap account value coinBalance height;
       balances_loop E P exchange height blockNumber totalSupply exCoinBalance rest finStatMap (totalLiquid + value) w
     }
   }"

text \<open>The list counts as complete when the balances differ from the supply by at most 5 percent.\<close>

definition getLiquidityBalancesOfExchange ::
  "env \<Rightarrow> params \<Rightarrow> Opt \<Rightarrow> string \<Rightarrow> address list \<Rightarrow> (AccountStat list \<times> bool) action" where
  "getLiquidityBalancesOfExchange E P opt exchange accounts w = do {
     let exchangeAddr = HexToAddress E exchange;
     ((height, blockNumber), w) \<leftarrow>
       (if \<not> o_ArchiveMode opt then do {
          (latestBlock, w) \<leftarrow> LoopGetLatestBlockHeader E w;
          Some ((big_Uint64 (h_Number latestBlock), None), w)
        }
        else Some ((o_SampleHeight opt, Some (SetUint64 (o_SampleHeight opt))), w));
     (totalSupply, w) \<leftarrow> LoopGetExchangeLiquidity E exchangeAddr blockNumber w;
     (exCoinBalance, w) \<leftarrow> LoopGetCoinBalance E exchangeAddr blockNumber w;
     ((finStatMap, totalLiquid), w) \<leftarrow>
       balances_loop E P exchange height blockNumber totalSupply exCoinBalance accounts [] 0 w;
     stats \<leftarrow> ConvertToSortedSlice finStatMap;
     Some ((stats, \<bar>totalSupply - totalLiquid\<bar> * 20 \<le> totalLiquid), w)
   }"

fun getLiquidityBalances_loop ::
  "env \<Rightarrow> params \<Rightarrow> Opt \<Rightarrow> nat \<Rightarrow> string list \<Rightarrow> address list list \<Rightarrow> AccountStat list list action" where
  "getLiquidityBalances_loop E P opt i [] accountsSlice w = Some ([], w)"
| "getLiquidityBalances_loop E P opt i (exchange # rest) accountsSlice w =
     (if i \<ge> length accountsSlice then None
      else do {
        ((stats, _), w) \<leftarrow> getLiquidityBalancesOfExchange E P opt exchange (accountsSlice ! i) w;
        (all, w) \<leftarrow> getLiquidityBalances_loop E P opt (Suc i) rest accountsSlice w;
        Some (stats # all, w)
      })"

definition getLiquidityBalances :: "env \<Rightarrow> params \<Rightarrow> Opt \<Rightarrow> address list list \<Rightarrow> AccountStat list list action" where
  "getLiquidityBalances E P opt accountsSlice w =
     getLiquidityBalances_loop E P opt 0 (o_Exchanges opt) accountsSlice w"

section \<open>ByLiquidity\<close>

text \<open>Without input files, the shares are the balances of the accounts at the sample height.\<close>

definition sampled_stats :: "env \<Rightarrow> params \<Rightarrow> Opt \<Rightarrow> (error + AccountStat list list) action" where
  "sampled_stats E P opt w = do {
     (r, w) \<leftarrow> getAccounts E P opt w;
     (case r of
        Inl err \<Rightarrow> Some (Inl err, w)
      | Inr accounts \<Rightarrow> do {
          (stats, w) \<leftarrow> getLiquidityBalances E P opt accounts w;
          Some (Inr stats, w)
        })
   }"

definition ByLiquidity :: "env \<Rightarrow> params \<Rightarrow> Opt \<Rightarrow> (error option \<times> Opt) action" where
  "ByLiquidity E P opt w = do {
     let opt = opt\<lparr>o_byWhat := byLiquidMethodID\<rparr>;
     (case o_TotalValue opt of
        None \<Rightarrow> Some ((Some errTotalRewardsIsZero, opt), w)
      | Some totalValue \<Rightarrow>
          if totalValue \<le> 0 then Some ((Some errTotalRewardsIsZero, opt), w)
          else do {
            (opt, w) \<leftarrow> CalcSampleHeight E P opt w;
            (err, w) \<leftarrow> checkAndInit E P opt w;
            if err \<noteq> None then Some ((Some errCheckOptionFailed, deinit opt), w)
            else do {
              (r, w) \<leftarrow> GetAccountsAndShares E P opt w;
              (case r of
                 Inl _ \<Rightarrow> Some ((Some errGetAccountsSharesFailed, deinit opt), w)
               | Inr accountStats \<Rightarrow> do {
                   (r, w) \<leftarrow>
                     (if accountStats = [] then sampled_stats E P opt w else Some (Inr accountStats, w));
                   (case r of
                      Inl _ \<Rightarrow> Some ((Some errGetAccountListFailed, deinit opt), w)
                    | Inr accountStats \<Rightarrow>
                        if length accountStats \<noteq> length (o_Exchanges opt)
                        then Some ((Some errAccountsNotComplete, deinit opt), w)
                        else do {
                          accountStats \<leftarrow> CalcWeightedRewards accountStats totalValue (o_Weights opt);
                          ((err, opt), w) \<leftarrow> dispatchRewards E P opt accountStats w;
                          Some ((err, deinit opt), w)
                        })
                 })
            }
          })
   }"

section \<open>The balances are unrewarded statistics\<close>

lemma add_balance_stat_unpaid:
  assumes "add_balance_stat m account value coins h = Some m'" "unpaid_map E P m" "eligible E P account"
  shows "unpaid_map E P m'"
  using assms map_of_snd [of m account]
  by (auto simp: add_balance_stat_def unpaid_map_def split: option.splits Option.bind_splits if_splits
      dest!: set_AList_update [THEN subsetD])

lemma balances_loop_unpaid:
  assumes "balances_loop E P exchange h b supply coins accounts m liquid w = Some ((m', liquid'), w')"
    and "unpaid_map E P m"
  shows "unpaid_map E P m'"
  using assms
proof (induction accounts arbitrary: m liquid w)
  case (Cons account rest)
  from Cons.prems show ?case
    by (auto simp: Let_def split: Option.bind_splits if_splits) (metis Cons.IH Cons.prems(2) add_balance_stat_unpaid)+
qed simp

lemma getLiquidityBalancesOfExchange_unpaid:
  assumes "getLiquidityBalancesOfExchange E P opt exchange accounts w = Some ((stats, complete), w')"
  shows "unpaid (eligible E P) stats"
proof -
  from assms obtain m liquid where "ConvertToSortedSlice m = Some stats" "unpaid_map E P m"
    unfolding getLiquidityBalancesOfExchange_def Let_def
    by (auto split: Option.bind_splits if_splits dest!: balances_loop_unpaid simp: unpaid_map_def)
  then show ?thesis by (intro ConvertToSortedSlice_unpaid) (auto simp: unpaid_map_def)
qed

lemma getLiquidityBalances_unpaid:
  assumes "getLiquidityBalances E P opt accounts w = Some (stats, w')"
  shows "\<forall>s \<in> set stats. unpaid (eligible E P) s"
proof -
  have "getLiquidityBalances_loop E P opt i exs accounts w = Some (stats, w')
      \<Longrightarrow> \<forall>s \<in> set stats. unpaid (eligible E P) s" for i exs w stats
  proof (induction exs arbitrary: i w stats)
    case (Cons exchange rest)
    then show ?case
      by (fastforce split: Option.bind_splits if_splits dest: getLiquidityBalancesOfExchange_unpaid)
  qed simp
  with assms show ?thesis by (simp add: getLiquidityBalances_def)
qed

section \<open>Only the payments broadcast\<close>

lemma silent_liquidity_value [silent_intros]: "silent (liquidity_value E exchange exchangeAddr account h b)"
  unfolding liquidity_value_def [abs_def] by (rule silent_intros only_rules)+

lemma silent_balances_loop [silent_intros]: "silent (balances_loop E P exchange h b supply coins accounts m liquid)"
proof (induction accounts arbitrary: m liquid)
  case Nil
  show ?case by (simp add: only_def)
next
  case (Cons account rest)
  show ?case unfolding balances_loop.simps [abs_def]
    by (rule silent_intros only_rules Cons.IH | rule only_bind_pure)+
qed

lemma silent_getLiquidityBalancesOfExchange [silent_intros]:
  "silent (getLiquidityBalancesOfExchange E P opt exchange accounts)"
  unfolding getLiquidityBalancesOfExchange_def [abs_def]
  by (rule silent_intros only_rules | rule only_bind_pure)+

lemma silent_getLiquidityBalances [silent_intros]: "silent (getLiquidityBalances E P opt accounts)"
proof -
  have "silent (getLiquidityBalances_loop E P opt i exs accounts)" for i exs
  proof (induction exs arbitrary: i)
    case Nil
    show ?case by (simp add: only_def)
  next
    case (Cons exchange rest)
    show ?case unfolding getLiquidityBalances_loop.simps [abs_def]
      by (rule silent_intros only_rules Cons.IH)+
  qed
  then show ?thesis by (simp add: getLiquidityBalances_def [abs_def])
qed

section \<open>The course of a distribution\<close>

lemma CalcSampleHeight_eq:
  assumes "CalcSampleHeight E P opt w = Some (opt', w')"
  shows "\<exists>h. opt' = opt\<lparr>o_SampleHeight := h\<rparr>"
proof (cases "o_SampleHeight opt \<noteq> 0 \<or> \<not> o_ArchiveMode opt")
  case True
  with assms have "opt' = opt" by (auto simp: CalcSampleHeight_def)
  then show ?thesis by (intro exI [of _ "o_SampleHeight opt"]) simp
next
  case False
  with assms show ?thesis by (auto simp: CalcSampleHeight_def split: Option.bind_splits)
qed

lemma silent_sampled_stats [silent_intros]: "silent (sampled_stats E P opt)"
  unfolding sampled_stats_def [abs_def] by (rule silent_intros only_rules)+

lemma sampled_stats_unpaid:
  "sampled_stats E P opt w = Some (Inr stats, w') \<Longrightarrow> \<forall>s \<in> set stats. unpaid (eligible E P) s"
  by (auto simp: sampled_stats_def split: Option.bind_splits sum.splits dest!: getLiquidityBalances_unpaid)

text \<open>
  A run that returns either ends before the payments, having broadcast nothing, or pays the
  rewards computed from unrewarded statistics of accounts that may be rewarded.
\<close>

lemma ByLiquidity_cases [consumes 2, case_names early pays]:
  assumes "ByLiquidity E P opt w = Some ((e, opt'), w')" "o_TotalValue opt = Some T"
  obtains (early) "adds (\<lambda>e. \<not> is_send e) w w'"
  | (pays) h stats stats' w1 opt2 where "0 < T" "adds (\<lambda>e. \<not> is_send e) w w1"
      "\<forall>s \<in> set stats. unpaid (eligible E P) s" "length stats = length (o_Exchanges opt)"
      "CalcWeightedRewards stats T (o_Weights opt) = Some stats'"
      "dispatchRewards E P (opt\<lparr>o_byWhat := byLiquidMethodID, o_SampleHeight := h\<rparr>) stats' w1 = Some ((e, opt2), w')"
proof (cases "0 < T")
  case False
  with assms early show ?thesis by (simp add: ByLiquidity_def)
next
  case True
  let ?opt = "opt\<lparr>o_byWhat := byLiquidMethodID\<rparr>"
  have run: "do {
      (opt, w) \<leftarrow> CalcSampleHeight E P ?opt w;
      (err, w) \<leftarrow> checkAndInit E P opt w;
      if err \<noteq> None then Some ((Some errCheckOptionFailed, deinit opt), w)
      else do {
        (r, w) \<leftarrow> GetAccountsAndShares E P opt w;
        (case r of
           Inl _ \<Rightarrow> Some ((Some errGetAccountsSharesFailed, deinit opt), w)
         | Inr accountStats \<Rightarrow> do {
             (r, w) \<leftarrow> (if accountStats = [] then sampled_stats E P opt w else Some (Inr accountStats, w));
             (case r of
                Inl _ \<Rightarrow> Some ((Some errGetAccountListFailed, deinit opt), w)
              | Inr accountStats \<Rightarrow>
                  if length accountStats \<noteq> length (o_Exchanges opt)
                  then Some ((Some errAccountsNotComplete, deinit opt), w)
                  else do {
                    accountStats \<leftarrow> CalcWeightedRewards accountStats T (o_Weights opt);
                    ((err, opt), w) \<leftarrow> dispatchRewards E P opt accountStats w;
                    Some ((err, deinit opt), w)
                  })
           })
      }
    } = Some ((e, opt'), w')"
    using assms True by (simp add: ByLiquidity_def Let_def)
  obtain h w1 where s: "CalcSampleHeight E P ?opt w = Some (?opt\<lparr>o_SampleHeight := h\<rparr>, w1)"
    using bind_pair_Some [OF run] CalcSampleHeight_eq by blast
  let ?opt1 = "?opt\<lparr>o_SampleHeight := h\<rparr>"
  note run = run [unfolded s bind.bind_lunit prod.case]
  obtain err w2 where c: "checkAndInit E P ?opt1 w1 = Some (err, w2)"
    using bind_pair_Some [OF run] by blast
  have a2: "adds (\<lambda>e. \<not> is_send e) w w2"
    using onlyD [OF silent_CalcSampleHeight s] onlyD [OF silent_checkAndInit c] by (rule adds_trans)
  note run = run [unfolded c bind.bind_lunit prod.case]
  show ?thesis
  proof (cases err)
    case (Some x)
    with run a2 early show ?thesis by simp
  next
    case None
    with run obtain r w3 where g: "GetAccountsAndShares E P ?opt1 w2 = Some (r, w3)"
      by (auto dest!: bind_pair_Some)
    note a3 = adds_trans [OF a2 onlyD [OF silent_GetAccountsAndShares g]]
    note run = run [unfolded None g bind.bind_lunit prod.case]
    show ?thesis
    proof (cases r)
      case (Inl x)
      with run a3 early show ?thesis by simp
    next
      case (Inr shares)
      let ?get = "\<lambda>w. if shares = [] then sampled_stats E P ?opt1 w else Some (Inr shares, w)"
      have quiet: "silent ?get" by (rule silent_intros only_rules)+
      from run Inr obtain r4 w4 where m: "?get w3 = Some (r4, w4)"
        by (auto dest!: bind_pair_Some)
      note a4 = adds_trans [OF a3 onlyD [OF quiet m]]
      show ?thesis
      proof (cases r4)
        case (Inl x)
        with run Inr m a4 early show ?thesis by (simp split: if_splits)
      next
        case (Inr stats)
        have "\<forall>s \<in> set stats. unpaid (eligible E P) s"
          using m Inr g \<open>r = Inr shares\<close> sampled_stats_unpaid GetAccountsAndShares_unpaid
          by (auto split: if_splits)
        moreover have "length stats \<noteq> length (o_Exchanges opt) \<or> (\<exists>stats' opt2.
            CalcWeightedRewards stats T (o_Weights opt) = Some stats'
            \<and> dispatchRewards E P ?opt1 stats' w4 = Some ((e, opt2), w'))"
          using run \<open>r = Inr shares\<close> m Inr by (auto split: Option.bind_splits if_splits)
        moreover have "length stats \<noteq> length (o_Exchanges opt) \<Longrightarrow> w' = w4"
          using run \<open>r = Inr shares\<close> m Inr by (auto split: Option.bind_splits if_splits)
        ultimately show ?thesis using a4 True early pays by blast
      qed
    qed
  qed
qed

lemma ByLiquidity_dry:
  assumes "ByLiquidity E P opt w = Some ((e, opt'), w')" "o_DryRun opt"
  shows "adds (\<lambda>e. \<not> is_send e) w w'"
proof (cases "o_TotalValue opt")
  case None
  with assms show ?thesis by (simp add: ByLiquidity_def)
next
  case (Some T)
  from assms(1) Some show ?thesis
  proof (cases rule: ByLiquidity_cases)
    case (pays h stats stats' w1 opt2)
    from dispatch_loop_dry [OF pays(6) [unfolded dispatchRewards_def]] assms(2)
    have "adds (\<lambda>e. \<not> is_send e) w1 w'" by simp
    with pays(2) show ?thesis by (rule adds_trans)
  qed
qed

section \<open>A concrete distribution\<close>

definition share_env :: env where
  "share_env = base_env\<lparr>ReadFile_Lines := \<lambda>w f. Inr [''#account,share'', ''20 '' @ f, ''21,1'']\<rparr>"

definition liquid_opt :: Opt where
  "liquid_opt = test_opt\<lparr>o_InputFiles := [''3'', ''5'']\<rparr>"

definition liquid_run_opt :: Opt where
  "liquid_run_opt = liquid_opt\<lparr>o_byWhat := byLiquidMethodID\<rparr>"

definition sample_stat :: "address \<Rightarrow> int \<Rightarrow> AccountStat" where
  "sample_stat a share = \<lparr>Account = a, Reward = None, Share = Some share, Number = 0\<rparr>"

definition test_samples :: "AccountStat list list" where
  "test_samples = [[sample_stat 20 3, sample_stat 21 1], [sample_stat 20 5, sample_stat 21 1]]"

definition test_granted :: "AccountStat list list" where
  "test_granted = the (CalcWeightedRewards test_samples 100 (Some [1, 1]))"

definition checked_log :: "event list" where
  "checked_log = snd (the (checkAndInit share_env test_params liquid_run_opt []))"

lemma liquid_stages:
  "map_option fst (checkAndInit share_env test_params liquid_run_opt []) = Some None"
  "shares_of_lines share_env test_params 0 [''#account,share'', ''20 3'', ''21,1''] [] = Inr (test_samples ! 0)"
  "shares_of_lines share_env test_params 0 [''#account,share'', ''20 5'', ''21,1''] [] = Inr (test_samples ! 1)"
  "CalcWeightedRewards test_samples 100 (Some [1, 1]) = Some test_granted"
  "map_option (\<lambda>((e, opt), w). (e, length (sent w)))
     (dispatchRewards share_env test_params liquid_run_opt test_granted (checked_log @ [EvOpenFile ''3'', EvOpenFile ''5'']))
     = Some (None, 4)"
  by code_simp+

lemma test_ByLiquidity:
  "\<exists>e opt' w'. ByLiquidity share_env test_params liquid_opt [] = Some ((e, opt'), w') \<and> length (sent w') = 4"
proof -
  have opt: "o_TotalValue liquid_run_opt = Some 100" "o_Weights liquid_run_opt = Some [1, 1]"
      "o_Exchanges liquid_run_opt = [''7'', ''8'']" "o_InputFiles liquid_run_opt = [''3'', ''5'']"
      "\<not> o_ArchiveMode liquid_run_opt" "o_SampleHeight liquid_run_opt = 0"
    by (simp_all add: liquid_run_opt_def liquid_opt_def test_opt_def)
  have check: "checkAndInit share_env test_params liquid_run_opt [] = Some (None, checked_log)"
    using liquid_stages(1) by (auto simp: checked_log_def)
  have ifile: "ReadFile_Lines share_env w f = Inr [''#account,share'', ''20 '' @ f, ''21,1'']" for w f
    by (simp add: share_env_def)
  have samples: "test_samples \<noteq> []" "length test_samples = 2" by (simp_all add: test_samples_def)
  have two: "[test_samples ! 0, test_samples ! 1] = test_samples" by (simp add: test_samples_def)
  have shares: "GetAccountsAndShares share_env test_params liquid_run_opt w =
      Some (Inr test_samples, w @ [EvOpenFile ''3'', EvOpenFile ''5''])" for w
    using two by (simp add: GetAccountsAndShares_def GetAccountsAndSharesFromFile_def opt ifile liquid_stages(2,3) Let_def
        del: shares_of_lines.simps)
  obtain e opt' w' where "dispatchRewards share_env test_params liquid_run_opt test_granted
      (checked_log @ [EvOpenFile ''3'', EvOpenFile ''5'']) = Some ((e, opt'), w')" "length (sent w') = 4"
    using liquid_stages(5) by auto
  then show ?thesis
    by (simp add: ByLiquidity_def opt CalcSampleHeight_def check shares liquid_stages(4) samples
        flip: liquid_run_opt_def)
qed

section \<open>Within the budget\<close>

lemma ByLiquidity_budget:
  assumes "ByLiquidity E P opt w = Some ((e, opt'), w')" "o_TotalValue opt = Some T" "0 \<le> T"
  shows "\<exists>due txs. sent w' = sent w @ txs \<and> map pays txs = due_payments E (o_RewardToken opt) due
    \<and> within_budget E P T due"
  using assms(1,2)
proof (cases rule: ByLiquidity_cases)
  case early
  with adds_sent assms(3) show ?thesis
    by (intro exI [of _ "[]"]) (auto simp: due_payments_def within_budget_def)
next
  case (pays h stats stats' w1 opt2)
  from CalcWeightedRewards_budget [OF pays(3,1,5)] pays(4) dispatchRewards_within_budget [OF pays(6)] assms(3)
  show ?thesis using adds_sent [OF pays(2)] by auto
qed

section \<open>Properties\<close>

text \<open>
  C2: A distribution by liquidity stays within its budget and pays only eligible accounts. Whatever
  the shares (from files or sampled), the weights, the database and the answers of the node, and
  wherever the run stops, the transactions accepted are payments of the reward token of positive
  amounts, none below the dust threshold, to accounts that are not excluded (no exchange, not
  the zero address), and their amounts add up to at most \<open>TotalValue\<close>.
\<close>

theorem ByLiquidity_within_budget:
  assumes "ByLiquidity E P opt w = Some ((e, opt'), w')" "o_TotalValue opt = Some T" "0 \<le> T"
  shows "\<exists>due txs. sent w' = sent w @ txs \<and> map pays txs = due_payments E (o_RewardToken opt) due
    \<and> within_budget E P T due"
  by (rule ByLiquidity_budget [OF assms])

theorem ByLiquidity_within_budget_witness:
  "\<exists>e opt' w' due. ByLiquidity share_env test_params liquid_opt [] = Some ((e, opt'), w')
     \<and> map pays (sent w') = due_payments share_env ''9'' due \<and> length due = 4 \<and> within_budget share_env test_params 100 due"
proof -
  obtain e opt' w' where *: "ByLiquidity share_env test_params liquid_opt [] = Some ((e, opt'), w')"
      "length (sent w') = 4"
    using test_ByLiquidity by blast
  have "o_TotalValue liquid_opt = Some 100" "o_RewardToken liquid_opt = ''9''"
    by (simp_all add: liquid_opt_def test_opt_def)
  with ByLiquidity_within_budget [OF *(1), of 100] obtain due where
    "map pays (sent w') = due_payments share_env ''9'' due" "within_budget share_env test_params 100 due"
    by auto
  moreover from this(1) have "length due = length (sent w')"
    by (metis due_payments_def length_map)
  ultimately show ?thesis using * by auto
qed

end
