(* ===== verification/Receipts.thy ===== *)
theory Receipts
  imports Mongo_Api Call_Api
begin

text \<open>
  \<open>syncer/parsereceipt.go\<close>, \<open>syncer/exchanges.go\<close> and \<open>syncer/parse.go\<close>: what the syncer records
  of a block. A receipt's logs become receipts of the stored transaction, accounts, volume
  records and daily volumes. The variables of the package the parser reads are the record
  \<open>sync_vars\<close>; the parser also changes the parameters (the known tokens and exchanges, the
  cached routers), so it returns them. Log output is left out.
\<close>

section \<open>Variables of the package\<close>

record sync_vars =
  sv_serverURL :: string
  overwrite :: bool
  sv_jobCount :: u64
  sv_waitInterval :: u64
  sv_stableHeight :: u64
  sv_startHeight :: u64
  sv_endHeight :: u64
  hasSyncToLatest :: bool
  onlySyncAccount :: bool

section \<open>Topics\<close>

definition topicTokenPurchase :: "env \<Rightarrow> hash" where
  "topicTokenPurchase E = HexToHash E ''0xcd60aa75dea3072fbc07ae6d7d856b5dc5f4eee88854f5b4abf7b680ef8bc50f''"
definition topicEthPurchase :: "env \<Rightarrow> hash" where
  "topicEthPurchase E = HexToHash E ''0x7f4091b46c33e918a0f3aa42307641d17bb67029427a5369e54b353984238705''"
definition topicAddLiquidity :: "env \<Rightarrow> hash" where
  "topicAddLiquidity E = HexToHash E ''0x06239653922ac7bea6aa2b19dc486b9361821d37712eb796adfd38d81de278ca''"
definition topicRemoveLiquidity :: "env \<Rightarrow> hash" where
  "topicRemoveLiquidity E = HexToHash E ''0x0fbf06c058b90cb038a618f8c2acbf6145f8b3570fd1fa56abb8f0f3f05b36e8''"
definition topicTransfer :: "env \<Rightarrow> hash" where
  "topicTransfer E = HexToHash E ''0xddf252ad1be2c89b69c2b068fc378daa952ba7f163c4a11628f55a4df523b3ef''"
definition topicApproval :: "env \<Rightarrow> hash" where
  "topicApproval E = HexToHash E ''0x8c5be1e5ebec7d5bd14f71427d1e84f3dd0314c0f7b2291e5b200ac8c7c3b925''"
definition topicCreateExchange :: "env \<Rightarrow> hash" where
  "topicCreateExchange E = HexToHash E ''0x9d42cb017eb05bd8944ab536a8b35bc68085931dd5f4356489801453923953f9''"
definition topicMint :: "env \<Rightarrow> hash" where
  "topicMint E = HexToHash E ''0x4c209b5fc8ad50758f13e2e1088ba56a560dff690a1c6fef26394f4c03821c4f''"
definition topicBurn :: "env \<Rightarrow> hash" where
  "topicBurn E = HexToHash E ''0xdccd412f0b1252819cb1fd330b93224ca42612892bb3f4f789976e6d81936496''"
definition topicSwap :: "env \<Rightarrow> hash" where
  "topicSwap E = HexToHash E ''0xd78ad95fa46c994b6551d0da85fc275fe613ce37657fb8d5e3d130840159d822''"

section \<open>Exchanges (exchanges.go)\<close>

text \<open>
  \<open>addExchanges\<close> returns unless there are exactly two topics, and then reads the third, which
  panics.
\<close>

definition addExchanges :: "env \<Rightarrow> params \<Rightarrow> Log \<Rightarrow> params option" where
  "addExchanges E P rlog =
     (let topics = rl_Topics rlog in
      if length topics \<noteq> 2 then Some P
      else if 2 < length topics
      then Some (AddTokenAndExchange P (BytesToAddress E (Hash_Bytes E (topics ! 1)))
        (BytesToAddress E (Hash_Bytes E (topics ! 2))))
      else None)"

fun init_loop :: "env \<Rightarrow> address \<Rightarrow> u64 \<Rightarrow> nat \<Rightarrow> params \<Rightarrow> params action" where
  "init_loop E factory i 0 P w = Some (P, w)"
| "init_loop E factory i (Suc n) P w = do {
     (token, w) \<leftarrow> LoopGetFactoryTokenWithID E factory i w;
     (exchange, w) \<leftarrow> LoopGetFactoryExchange E factory token w;
     init_loop E factory (i + 1) n (AddTokenAndExchange P token exchange) w
   }"

text \<open>The loop runs from 1 to the count; for the largest count it would not end.\<close>

definition initExchangesInFactory :: "env \<Rightarrow> address \<Rightarrow> params \<Rightarrow> params action" where
  "initExchangesInFactory E factory P w = do {
     (tokenCount, w) \<leftarrow> LoopGetFactoryTokenCount E factory w;
     if tokenCount = -1 then None else init_loop E factory 1 (unat tokenCount) P w
   }"

fun initAllExchanges_loop :: "env \<Rightarrow> address list \<Rightarrow> params \<Rightarrow> params action" where
  "initAllExchanges_loop E [] P w = Some (P, w)"
| "initAllExchanges_loop E (factory # rest) P w = do {
     (P, w) \<leftarrow> initExchangesInFactory E factory P w;
     initAllExchanges_loop E rest P w
   }"

definition initAllExchanges :: "env \<Rightarrow> params \<Rightarrow> params action" where
  "initAllExchanges E P w = (let (factories, P) = GetFactories E P in initAllExchanges_loop E factories P w)"

section \<open>Accounts and volumes\<close>

definition secondsPerDay :: u64 where "secondsPerDay = 24 * 3600"

definition getDayBegin :: "u64 \<Rightarrow> u64" where
  "getDayBegin timestamp = timestamp - timestamp mod secondsPerDay"

definition recordAccounts :: "env \<Rightarrow> string \<Rightarrow> string \<Rightarrow> string \<Rightarrow> unit action" where
  "recordAccounts E exchange pairs account w = do {
     let ma = \<lparr>ma_Key = GetKeyOfExchangeAndAccount exchange account, ma_Exchange = ToLower exchange,
       ma_Pairs = pairs, ma_Account = ToLower account\<rparr>;
     (_, w) \<leftarrow> TryDoTimes (AddAccount E ma) w;
     Some ((), w)
   }"

definition recordTokenAccounts :: "env \<Rightarrow> params \<Rightarrow> string \<Rightarrow> string \<Rightarrow> unit action" where
  "recordTokenAccounts E P token account w = do {
     isExchange \<leftarrow> (if IsConfigedExchange P token then Some True
       else map_option (\<lambda>scan. scan \<and> IsInAllExchanges P (HexToAddress E token)) (IsScanAllExchange P));
     (_, w) \<leftarrow> (if isExchange then recordAccounts E token (GetExchangePairs P token) account w else Some ((), w));
     record_them \<leftarrow> IsRecordTokenAccount P;
     if \<not> record_them then Some ((), w)
     else do {
       let ma = \<lparr>ta_Key = GetKeyOfTokenAndAccount token account, ta_Token = ToLower token,
         ta_Account = ToLower account\<rparr>;
       (_, w) \<leftarrow> TryDoTimes (AddTokenAccount E ma) w;
       Some ((), w)
     }
   }"

text \<open>The record of a trade; \<open>None\<close> for other topics and for buyers that are exchanges.\<close>

definition volume_record ::
  "env \<Rightarrow> params \<Rightarrow> MgoTransaction \<Rightarrow> ExchangeReceipt \<Rightarrow> hash \<Rightarrow> MgoVolumeHistory option" where
  "volume_record E P mt exReceipt logTopic =
     (if \<not> (logTopic = topicTokenPurchase E \<or> logTopic = topicEthPurchase E) then None
      else if IsInAllExchanges P (HexToAddress E (xr_Address exReceipt)) then None
      else Some \<lparr>mh_Key = GetKeyOfVolumeHistory (mt_Hash mt) (xr_LogIndex exReceipt),
        mh_Exchange = xr_Exchange exReceipt, mh_Pairs = xr_Pairs exReceipt, mh_Account = xr_Address exReceipt,
        mh_CoinAmount = (if logTopic = topicTokenPurchase E then xr_TokenFromAmount exReceipt
          else xr_TokenToAmount exReceipt),
        mh_TokenAmount = (if logTopic = topicTokenPurchase E then xr_TokenToAmount exReceipt
          else xr_TokenFromAmount exReceipt),
        mh_BlockNumber = mt_BlockNumber mt, mh_Timestamp = mt_Timestamp mt, mh_TxHash = mt_Hash mt,
        mh_LogType = xr_LogType exReceipt, mh_LogIndex = xr_LogIndex exReceipt\<rparr>)"

definition recordAccountVoumes ::
  "env \<Rightarrow> sync_vars \<Rightarrow> params \<Rightarrow> MgoTransaction \<Rightarrow> ExchangeReceipt \<Rightarrow> hash \<Rightarrow> unit action" where
  "recordAccountVoumes E G P mt exReceipt logTopic w =
     (if onlySyncAccount G then Some ((), w)
      else case volume_record E P mt exReceipt logTopic of
          None \<Rightarrow> Some ((), w)
        | Some mv \<Rightarrow> do { (_, w) \<leftarrow> TryDoTimes (AddVolumeHistory E mv (overwrite G)) w; Some ((), w) })"

definition updateVolumes ::
  "env \<Rightarrow> sync_vars \<Rightarrow> params \<Rightarrow> MgoTransaction \<Rightarrow> ExchangeReceipt \<Rightarrow> hash \<Rightarrow> unit action" where
  "updateVolumes E G P mt exReceipt logTopic w =
     (if onlySyncAccount G then Some ((), w)
      else do {
        syncCfg \<leftarrow> cf_Sync (config P);
        if \<not> sy_UpdateVolume syncCfg then Some ((), w)
        else if \<not> (logTopic = topicTokenPurchase E \<or> logTopic = topicEthPurchase E) then Some ((), w)
        else do {
          let timestamp = getDayBegin (mt_Timestamp mt);
          (_, w) \<leftarrow> TryDoTimes (UpdateVolumeWithReceipt E exReceipt (mt_BlockHash mt) (mt_BlockNumber mt) timestamp) w;
          Some ((), w)
        }
      })"

section \<open>Logs\<close>

definition log_word :: "env \<Rightarrow> Log \<Rightarrow> nat \<Rightarrow> byte list" where
  "log_word E rlog i = Hash_Bytes E (rl_Topics rlog ! i)"

text \<open>The receipt of an exchange log (four topics at least).\<close>

definition exchange_receipt :: "env \<Rightarrow> params \<Rightarrow> Log \<Rightarrow> int \<Rightarrow> string \<Rightarrow> ExchangeReceipt" where
  "exchange_receipt E P rlog logIdx logType =
     (let exchange = ToLower (Address_String E (rl_Address rlog));
          address = BytesToAddress E (log_word E rlog 1)
      in \<lparr>xr_LogType = logType, xr_LogIndex = logIdx, xr_Exchange = exchange,
          xr_Pairs = GetExchangePairs P exchange, xr_Address = ToLower (Address_String E address),
          xr_TokenFromAmount = big_String (of_bytes (log_word E rlog 2)),
          xr_TokenToAmount = big_String (of_bytes (log_word E rlog 3))\<rparr>)"

definition addExchangeReceipt ::
  "env \<Rightarrow> sync_vars \<Rightarrow> params \<Rightarrow> MgoTransaction \<Rightarrow> Log \<Rightarrow> int \<Rightarrow> string \<Rightarrow> (bool \<times> MgoTransaction) action" where
  "addExchangeReceipt E G P mt rlog logIdx logType w = do {
     let exchange = ToLower (Address_String E (rl_Address rlog));
     scanAll \<leftarrow> IsScanAllExchange P;
     if \<not> scanAll \<and> \<not> IsConfigedExchange P exchange then Some ((False, mt), w)
     else if length (rl_Topics rlog) < 4 then Some ((False, mt), w)
     else do {
       let address = BytesToAddress E (log_word E rlog 1);
       let exReceipt = exchange_receipt E P rlog logIdx logType;
       let topic = rl_Topics rlog ! 0;
       (_, w) \<leftarrow>
         (if topic \<noteq> topicAddLiquidity E \<and> topic \<noteq> topicRemoveLiquidity E \<and> topic = topicTokenPurchase E
          then recordTokenAccounts E P (GetExchangeToken P exchange) (xr_Address exReceipt) w
          else Some ((), w));
       let mt = mt\<lparr>mt_ExchangeReceipts := mt_ExchangeReceipts mt @ [exReceipt]\<rparr>;
       (_, w) \<leftarrow> recordAccounts E exchange (xr_Pairs exReceipt) (Address_String E address) w;
       (_, w) \<leftarrow> recordAccountVoumes E G P mt exReceipt topic w;
       (_, w) \<leftarrow> updateVolumes E G P mt exReceipt topic w;
       Some ((True, mt), w)
     }
   }"

definition addErc20Receipt ::
  "env \<Rightarrow> params \<Rightarrow> MgoTransaction \<Rightarrow> Log \<Rightarrow> int \<Rightarrow> string \<Rightarrow> (bool \<times> MgoTransaction) action" where
  "addErc20Receipt E P mt rlog logIdx logType w = do {
     let erc20Address = ToLower (Address_String E (rl_Address rlog));
     known \<leftarrow> (if IsConfigedToken P erc20Address \<or> IsConfigedExchange P erc20Address then Some True
       else map_option (\<lambda>scan. scan \<and> IsInAllTokenAndExchanges P (HexToAddress E erc20Address)) (IsScanAllExchange P));
     if \<not> known then Some ((False, mt), w)
     else if length (rl_Topics rlog) < 3 then Some ((False, mt), w)
     else do {
       let from_addr = BytesToAddress E (log_word E rlog 1);
       let to_addr = BytesToAddress E (log_word E rlog 2);
       let erc20Receipt = \<lparr>er_LogType = logType, er_LogIndex = logIdx, er_Erc20 = erc20Address,
         er_From = ToLower (Address_String E from_addr), er_To = ToLower (Address_String E to_addr),
         er_Value = big_String (of_bytes (rl_Data rlog))\<rparr>;
       let mt = mt\<lparr>mt_Erc20Receipts := mt_Erc20Receipts mt @ [erc20Receipt]\<rparr>;
       (_, w) \<leftarrow> (if rl_Topics rlog ! 0 = topicTransfer E
         then recordTokenAccounts E P erc20Address (er_To erc20Receipt) w else Some ((), w));
       Some ((True, mt), w)
     }
   }"

text \<open>The amounts of a log of the second version, by its topic; \<open>None\<close>: the log is not counted.\<close>

definition v2_amount :: "byte list \<Rightarrow> nat \<Rightarrow> string" where
  "v2_amount bs i = big_String (of_bytes (take 32 (drop (32 * i) bs)))"

definition v2_amounts :: "env \<Rightarrow> Log \<Rightarrow> (string \<times> string \<times> string \<times> string) option" where
  "v2_amounts E rlog =
     (let topics = rl_Topics rlog; bs = rl_Data rlog; topic = topics ! 0 in
      if topic = topicMint E then
        (if length topics \<noteq> 2 \<or> length bs \<noteq> 64 then None else Some (v2_amount bs 0, v2_amount bs 1, [], []))
      else if topic = topicBurn E then
        (if length topics \<noteq> 3 \<or> length bs \<noteq> 64 then None else Some ([], [], v2_amount bs 0, v2_amount bs 1))
      else if topic = topicSwap E then
        (if length topics \<noteq> 3 \<or> length bs \<noteq> 128 then None
         else Some (v2_amount bs 0, v2_amount bs 1, v2_amount bs 2, v2_amount bs 3))
      else None)"

definition addExchangeV2Receipt ::
  "env \<Rightarrow> params \<Rightarrow> MgoTransaction \<Rightarrow> Log \<Rightarrow> int \<Rightarrow> string \<Rightarrow> bool \<times> MgoTransaction \<times> params" where
  "addExchangeV2Receipt E P mt rlog logIdx logType =
     (if length (rl_Topics rlog) < 2 \<or> length (rl_Data rlog) < 64 then (False, mt, P)
      else
        let sender = ToLower (Address_String E (BytesToAddress E (log_word E rlog 1)));
            (isRouter, P) = IsConfigedRouter E P sender
        in if \<not> isRouter then (False, mt, P)
        else case v2_amounts E rlog of
            None \<Rightarrow> (False, mt, P)
          | Some (in0, in1, out0, out1) \<Rightarrow>
              (True, mt\<lparr>mt_ExchangeV2Receipts := mt_ExchangeV2Receipts mt @
                [\<lparr>v2_LogType = logType, v2_LogIndex = logIdx,
                  v2_Exchange = ToLower (Address_String E (rl_Address rlog)), v2_Sender = sender,
                  v2_To = (if length (rl_Topics rlog) = 3
                    then ToLower (Address_String E (BytesToAddress E (log_word E rlog 2))) else []),
                  v2_Amount0In = in0, v2_Amount1In = in1, v2_Amount0Out = out0, v2_Amount1Out = out1\<rparr>]\<rparr>, P))"

text \<open>One log: whether it is to be saved, the transaction and the parameters.\<close>

definition parse_log ::
  "env \<Rightarrow> sync_vars \<Rightarrow> params \<Rightarrow> MgoTransaction \<Rightarrow> int \<Rightarrow> Log \<Rightarrow> (bool \<times> MgoTransaction \<times> params) action" where
  "parse_log E G P mt idx rlog w =
     (let topic = rl_Topics rlog ! 0;
          exchange = (\<lambda>logType. do {
            ((save, mt), w) \<leftarrow> addExchangeReceipt E G P mt rlog idx logType w;
            Some ((save, mt, P), w) });
          erc20 = (\<lambda>logType. do {
            ((save, mt), w) \<leftarrow> addErc20Receipt E P mt rlog idx logType w;
            Some ((save, mt, P), w) });
          exchange2 = (\<lambda>logType. Some (addExchangeV2Receipt E P mt rlog idx logType, w))
      in if topic = topicAddLiquidity E then exchange ''AddLiquidity''
      else if topic = topicRemoveLiquidity E then exchange ''RemoveLiquidity''
      else if topic = topicTokenPurchase E then exchange ''TokenPurchase''
      else if topic = topicEthPurchase E then exchange ''EthPurchase''
      else if topic = topicTransfer E then erc20 ''Transfer''
      else if topic = topicApproval E then erc20 ''Approval''
      else if topic = topicCreateExchange E then do { P \<leftarrow> addExchanges E P rlog; Some ((False, mt, P), w) }
      else if topic = topicMint E then exchange2 ''Mint''
      else if topic = topicBurn E then exchange2 ''Burn''
      else if topic = topicSwap E then exchange2 ''Swap''
      else Some ((False, mt, P), w))"

text \<open>\<open>save\<close> keeps its value when a log does not set it, which does not change \<open>savedb\<close>.\<close>

fun parse_logs ::
  "env \<Rightarrow> sync_vars \<Rightarrow> params \<Rightarrow> MgoTransaction \<Rightarrow> int \<Rightarrow> Log list \<Rightarrow> bool
    \<Rightarrow> (bool \<times> MgoTransaction \<times> params) action" where
  "parse_logs E G P mt idx [] savedb w = Some ((savedb, mt, P), w)"
| "parse_logs E G P mt idx (rlog # rest) savedb w =
     (if rl_Topics rlog = [] \<or> rl_Removed rlog then parse_logs E G P mt (idx + 1) rest savedb w
      else do {
        ((save, mt, P), w) \<leftarrow> parse_log E G P mt idx rlog w;
        parse_logs E G P mt (idx + 1) rest (savedb \<or> save) w
      })"

definition parseReceipt ::
  "env \<Rightarrow> sync_vars \<Rightarrow> params \<Rightarrow> MgoTransaction \<Rightarrow> Receipt option \<Rightarrow> (bool \<times> MgoTransaction \<times> params) action" where
  "parseReceipt E G P mt receipt w =
     (case receipt of
        None \<Rightarrow> Some ((False, mt, P), w)
      | Some r \<Rightarrow>
          if rc_Status r = 0 then Some ((False, mt, P), w)
          else parse_logs E G P mt 0 (rc_Logs r) False w)"

end
