(* ===== verification/Sync.thy ===== *)
theory Sync
  imports Receipts
begin

text \<open>
  \<open>syncer/sync.go\<close>: which blocks the syncer reads. The range of heights is divided among
  workers; a worker reads the heights of its range that the database lacks, with the receipts
  of their transactions, and hands them to its parser (\<open>Parse_Block\<close>) as messages. The messages
  sent so far are the list \<open>msgs\<close>; a nil message, which ends the parser, is the end of the list.
  Pauses are in milliseconds.
\<close>

section \<open>Configuration\<close>

record SyncArguments =
  SyncStartHeight :: "u64 option"
  SyncEndHeight :: "u64 option"
  SyncOverwrite :: "bool option"

definition init_vars :: sync_vars where
  "init_vars = \<lparr>sv_serverURL = [], overwrite = False, sv_jobCount = 4, sv_waitInterval = 6, sv_stableHeight = 0,
     sv_startHeight = 0, sv_endHeight = 0, hasSyncToLatest = False, onlySyncAccount = False\<rparr>"

definition maxJobs :: u64 where "maxJobs = 100"
definition minWorkBlocks :: u64 where "minWorkBlocks = 100"
definition retryDuration :: nat where "retryDuration = 1000"

definition waitDuration :: "sync_vars \<Rightarrow> nat" where
  "waitDuration G = unat (sv_waitInterval G) * 1000"

definition applyArguments :: "env \<Rightarrow> SyncArguments \<Rightarrow> sync_vars \<Rightarrow> sync_vars action" where
  "applyArguments E args G w = do {
     let G = (case SyncStartHeight args of None \<Rightarrow> G | Some h \<Rightarrow> G\<lparr>sv_startHeight := h\<rparr>);
     let G = (case SyncEndHeight args of None \<Rightarrow> G | Some h \<Rightarrow> G\<lparr>sv_endHeight := h\<rparr>);
     let G = (case SyncOverwrite args of None \<Rightarrow> G | Some b \<Rightarrow> G\<lparr>overwrite := b\<rparr>);
     (_, w) \<leftarrow> (if sv_startHeight G \<noteq> 0 \<and> sv_endHeight G = 0
       then TryDoTimes (UpdateSyncInfo E (sv_startHeight G) [] 0) w else Some (None, w));
     Some (G, w)
   }"

definition initConfig :: "env \<Rightarrow> params \<Rightarrow> SyncArguments \<Rightarrow> sync_vars \<Rightarrow> sync_vars action" where
  "initConfig E P args G w = do {
     syncCfg \<leftarrow> cf_Sync (config P);
     let cJobCount = sy_JobCount syncCfg;
     let G = (if cJobCount \<noteq> 0 then G\<lparr>sv_jobCount := if cJobCount > maxJobs then maxJobs else cJobCount\<rparr> else G);
     let G = (if sy_WaitInterval syncCfg \<noteq> 0 then G\<lparr>sv_waitInterval := sy_WaitInterval syncCfg\<rparr> else G);
     gateway \<leftarrow> cf_Gateway (config P);
     let G = G\<lparr>sv_serverURL := APIAddress gateway, sv_stableHeight := sy_Stable syncCfg\<rparr>;
     applyArguments E args G w
   }"

text \<open>
  Other goroutines wait for the flag, which \<open>doLoopWork\<close> sets; \<open>flag w\<close> is its value when the
  waiting goroutine has done \<open>w\<close>.
\<close>

partial_function (option) WaitSyncToLatest :: "(world \<Rightarrow> bool) \<Rightarrow> unit action" where
  "WaitSyncToLatest flag w =
     (if flag w then Some ((), w) else WaitSyncToLatest flag (w @ [EvSleep 60000]))"

definition IsEndlessLoop :: "sync_vars \<Rightarrow> bool" where
  "IsEndlessLoop G \<longleftrightarrow> sv_endHeight G = 0"

section \<open>Dividing the work\<close>

record worker =
  wk_id :: int
  wk_stable :: u64
  wk_start :: u64
  wk_end :: u64

record syncer =
  sc_stable :: u64
  sc_start :: u64
  sc_end :: u64
  sc_last :: u64

definition getStartAndLast :: "env \<Rightarrow> params \<Rightarrow> syncer \<Rightarrow> (u64 \<times> u64) action" where
  "getStartAndLast E P s w = do {
     (start, w) \<leftarrow>
       (if sc_start s = 0 then do {
          (r, w) \<leftarrow> FindLatestSyncInfo E w;
          let start = (case r of Inl _ \<Rightarrow> 0
            | Inr syncInfo \<Rightarrow> if si_Number syncInfo \<noteq> 0 then si_Number syncInfo + 1 else 0);
          Some (if start = 0 then GetMinExchangeCreationHeight P else start, w)
        }
        else Some (sc_start s, w));
     (finish, w) \<leftarrow>
       (if sc_end s = 0 then do {
          (latestHeader, w) \<leftarrow> retry (rpc_HeaderByNumber E None) w;
          let finish = big_Uint64 (h_Number latestHeader);
          Some (if finish > sc_stable s then finish - sc_stable s else finish, w)
        }
        else Some (sc_end s, w));
     Some ((start, finish), w)
   }"

text \<open>The workers of a range: the last one takes what the steps leave.\<close>

definition workers_of :: "u64 \<Rightarrow> u64 \<Rightarrow> u64 \<Rightarrow> u64 \<Rightarrow> u64 \<Rightarrow> worker list" where
  "workers_of stb start finish workerCount stepCount =
     map (\<lambda>i. \<lparr>wk_id = int i + 1, wk_stable = stb, wk_start = start + of_nat i * stepCount,
         wk_end = if of_nat i = workerCount - 1 then finish else start + (of_nat i + 1) * stepCount\<rparr>)
       [0 ..< unat workerCount]"

text \<open>A division by zero panics.\<close>

definition divide_work :: "u64 \<Rightarrow> syncer \<Rightarrow> u64 \<Rightarrow> u64 \<Rightarrow> (syncer \<times> worker list) option" where
  "divide_work jobs s start finish =
     (if finish \<le> start \<and> sc_end s \<noteq> 0 then Some (s, [])
      else
        let s = s\<lparr>sc_start := start, sc_last := finish\<rparr>;
            blockCount = (if finish > start then finish - start else 1)
        in if blockCount < minWorkBlocks \<and> sc_end s = 0 then Some (s\<lparr>sc_last := start\<rparr>, [])
           else
             let workerCount = blockCount div minWorkBlocks;
                 workerCount = (if workerCount > jobs then jobs else if workerCount = 0 then 1 else workerCount)
             in if workerCount = 0 then None
                else Some (s, workers_of (sc_stable s) start finish workerCount (blockCount div workerCount)))"

definition dipatchWork :: "env \<Rightarrow> sync_vars \<Rightarrow> params \<Rightarrow> syncer \<Rightarrow> (syncer \<times> worker list) action" where
  "dipatchWork E G P s w = do {
     ((start, finish), w) \<leftarrow> getStartAndLast E P s w;
     r \<leftarrow> divide_work (sv_jobCount G) s start finish;
     Some (r, w)
   }"

section \<open>Reading blocks\<close>

type_synonym message = "Block \<times> Receipt option list"

definition rpc_TransactionReceipt :: "env \<Rightarrow> hash \<Rightarrow> (error + Receipt option) action" where
  "rpc_TransactionReceipt E txHash w = Some (TransactionReceipt E w txHash, w @ [EvTransactionReceipt txHash])"

definition loopGetReceipt :: "env \<Rightarrow> hash \<Rightarrow> Receipt option action" where
  "loopGetReceipt E txHash w = retry (rpc_TransactionReceipt E txHash) w"

text \<open>One goroutine per transaction, each writing its own index: here in the order of the indices.\<close>

fun getReceipts :: "env \<Rightarrow> Transaction list \<Rightarrow> Receipt option list action" where
  "getReceipts E [] w = Some ([], w)"
| "getReceipts E (tx # txs) w = do {
     (receipt, w) \<leftarrow> loopGetReceipt E (tx_Hash tx) w;
     (receipts, w) \<leftarrow> getReceipts E txs w;
     Some (receipt # receipts, w)
   }"

definition getSynced :: "MgoBlock list \<Rightarrow> u64 \<Rightarrow> MgoBlock option" where
  "getSynced mbs num = find (\<lambda>mb. mb_Number mb = num) mbs"

definition rpc_BlockByNumber :: "env \<Rightarrow> u64 \<Rightarrow> (error + Block) action" where
  "rpc_BlockByNumber E height w =
     Some (BlockByNumber E w (SetUint64 height), w @ [EvBlockByNumber (SetUint64 height)])"

text \<open>
  The inner loop of \<open>syncRange\<close>, up to and including \<open>to\<close>; a failed block is asked for again.
  It returns the next height and the messages.
\<close>

partial_function (option) syncHeights ::
  "env \<Rightarrow> sync_vars \<Rightarrow> MgoBlock list \<Rightarrow> u64 \<Rightarrow> u64 \<Rightarrow> message list \<Rightarrow> (u64 \<times> message list) action" where
  "syncHeights E G mblocks to height msgs w =
     (if \<not> height \<le> to then Some ((height, msgs), w)
      else if overwrite G \<or> getSynced mblocks height = None then do {
        (block, w) \<leftarrow> retry (rpc_BlockByNumber E height) w;
        (receipts, w) \<leftarrow> getReceipts E (bk_Transactions block) w;
        syncHeights E G mblocks to (height + 1) (msgs @ [(block, receipts)]) w
      }
      else syncHeights E G mblocks to (height + 1) msgs w)"

definition range_end :: "u64 \<Rightarrow> u64 \<Rightarrow> u64" where
  "range_end from end = (let step = 10000; to = from + step - 1 in if to > end then end else to)"

partial_function (option) syncRange ::
  "env \<Rightarrow> sync_vars \<Rightarrow> u64 \<Rightarrow> u64 \<Rightarrow> message list \<Rightarrow> message list action" where
  "syncRange E G height end msgs w =
     (if \<not> height \<le> end then Some (msgs, w)
      else do {
        let to = range_end height end;
        (r, w) \<leftarrow> FindBlocksInRange E height to w;
        (case r of
           Inl err \<Rightarrow> syncRange E G height end msgs (w @ [EvSleep retryDuration])
         | Inr mblocks \<Rightarrow>
             if \<not> overwrite G \<and> int (length mblocks) = sint (to - height + 1)
             then syncRange E G (to + 1) end msgs w
             else do {
               ((height, msgs), w) \<leftarrow> syncHeights E G mblocks to height msgs w;
               syncRange E G height end msgs w
             })
      })"

section \<open>The loop of a worker\<close>

text \<open>
  One turn of the loop of \<open>doSync\<close>, on the latest known height, the next height to read and the
  messages sent; the result is whether the loop goes on.
\<close>

definition doSync_turn ::
  "env \<Rightarrow> sync_vars \<Rightarrow> worker \<Rightarrow> u64 \<Rightarrow> u64 \<Rightarrow> message list \<Rightarrow> (bool \<times> u64 \<times> u64 \<times> message list) action" where
  "doSync_turn E G wk latest height msgs w =
     (if wk_end wk > 0 \<and> height \<ge> wk_end wk then Some ((False, latest, height, msgs), w)
      else do {
        ((behind, latest), w) \<leftarrow>
          (if height + wk_stable wk > latest then do {
             (r, w) \<leftarrow> rpc_HeaderByNumber E None w;
             (case r of
                Inl err \<Rightarrow> Some ((True, latest), w @ [EvSleep retryDuration])
              | Inr latestHeader \<Rightarrow>
                  let latest = big_Uint64 (h_Number latestHeader)
                  in if height + wk_stable wk > latest then Some ((True, latest), w @ [EvSleep (waitDuration G)])
                     else Some ((False, latest), w))
           }
           else Some ((False, latest), w));
        if behind then Some ((True, latest, height, msgs), w)
        else do {
          let finish = latest - wk_stable wk;
          let finish = (if wk_end wk > 0 \<and> finish \<ge> wk_end wk then wk_end wk - 1 else finish);
          (msgs, w) \<leftarrow> syncRange E G height finish msgs w;
          Some ((True, latest, finish + 1, msgs), w)
        }
      })"

partial_function (option) doSync_loop ::
  "env \<Rightarrow> sync_vars \<Rightarrow> worker \<Rightarrow> u64 \<Rightarrow> u64 \<Rightarrow> message list \<Rightarrow> message list action" where
  "doSync_loop E G wk latest height msgs w = do {
     ((go_on, latest, height, msgs), w) \<leftarrow> doSync_turn E G wk latest height msgs w;
     if go_on then doSync_loop E G wk latest height msgs w else Some (msgs, w)
   }"

definition doSync :: "env \<Rightarrow> sync_vars \<Rightarrow> worker \<Rightarrow> message list action" where
  "doSync E G wk w = doSync_loop E G wk (wk_end wk) (wk_start wk) [] w"

text \<open>
  The workers run at the same time; here one after the other, which is one of the orders. The
  check that follows reads the whole range once more.
\<close>

fun run_workers :: "env \<Rightarrow> sync_vars \<Rightarrow> worker list \<Rightarrow> message list list action" where
  "run_workers E G [] w = Some ([], w)"
| "run_workers E G (wk # wks) w = do {
     (msgs, w) \<leftarrow> doSync E G wk w;
     (rest, w) \<leftarrow> run_workers E G wks w;
     Some (msgs # rest, w)
   }"

definition checkSync :: "env \<Rightarrow> sync_vars \<Rightarrow> syncer \<Rightarrow> u64 \<Rightarrow> u64 \<Rightarrow> message list action" where
  "checkSync E G s start end w =
     doSync E G \<lparr>wk_id = -1, wk_stable = sc_stable s, wk_start = start, wk_end = end\<rparr> w"

definition doSyncWork :: "env \<Rightarrow> sync_vars \<Rightarrow> syncer \<Rightarrow> worker list \<Rightarrow> message list list action" where
  "doSyncWork E G s wks w = do {
     (batches, w) \<leftarrow> run_workers E G wks w;
     if onlySyncAccount G then Some (batches, w)
     else do {
       (msgs, w) \<leftarrow> checkSync E G s (sc_start s) (sc_last s) w;
       Some (batches @ [msgs], w)
     }
   }"

text \<open>The worker that follows the chain, without an end.\<close>

definition loop_worker :: "syncer \<Rightarrow> worker" where
  "loop_worker s = \<lparr>wk_id = 0, wk_stable = sc_stable s, wk_start = sc_last s, wk_end = 0\<rparr>"

definition doLoopWork :: "env \<Rightarrow> sync_vars \<Rightarrow> syncer \<Rightarrow> message list action" where
  "doLoopWork E G s w = doSync E (G\<lparr>hasSyncToLatest := True\<rparr>) (loop_worker s) w"

definition doWork :: "env \<Rightarrow> sync_vars \<Rightarrow> syncer \<Rightarrow> worker list \<Rightarrow> message list list action" where
  "doWork E G s wks w = do {
     (batches, w) \<leftarrow> (if wks \<noteq> [] then doSyncWork E G s wks w else Some ([], w));
     if sc_end s = 0 then do { (msgs, w) \<leftarrow> doLoopWork E G s w; Some (batches @ [msgs], w) }
     else Some (batches, w)
   }"

section \<open>The syncer\<close>

definition dialServer :: "env \<Rightarrow> sync_vars \<Rightarrow> error option action" where
  "dialServer E G w =
     (let err = DialServer_rpc E w (sv_serverURL G) in Some (err, w @ [EvDialServer (sv_serverURL G) err]))"

partial_function (option) dialServer_loop :: "env \<Rightarrow> sync_vars \<Rightarrow> unit action" where
  "dialServer_loop E G w = do {
     (err, w) \<leftarrow> dialServer E G w;
     if err = None then Some ((), w) else dialServer_loop E G (w @ [EvSleep 3000])
   }"

definition syncer_sync :: "env \<Rightarrow> sync_vars \<Rightarrow> params \<Rightarrow> syncer \<Rightarrow> message list list action" where
  "syncer_sync E G P s w = do {
     (_, w) \<leftarrow> dialServer_loop E G w;
     ((s, wks), w) \<leftarrow> dipatchWork E G P s w;
     doWork E G s wks w
   }"

text \<open>The start: the syncer, which then runs (\<open>syncer_sync\<close>), and the variables.\<close>

definition syncer_Start ::
  "env \<Rightarrow> params \<Rightarrow> SyncArguments \<Rightarrow> sync_vars \<Rightarrow> bool \<Rightarrow> (syncer \<times> sync_vars \<times> params) action" where
  "syncer_Start E P args G onlySyncAcc w = do {
     (G, w) \<leftarrow> initConfig E P args G w;
     (P, w) \<leftarrow> initAllExchanges E P w;
     let newSyncer = \<lparr>sc_stable = sv_stableHeight G, sc_start = sv_startHeight G, sc_end = sv_endHeight G, sc_last = 0\<rparr>;
     let G = (if onlySyncAcc then G\<lparr>onlySyncAccount := True\<rparr> else G);
     Some ((newSyncer, G, P), w)
   }"

end
