(* ===== verification/Distributer.thy ===== *)
theory Distributer
  imports By_Volume By_Liquidity Sync
begin

text \<open>
  \<open>distributer/distribute.go\<close>: the runner that settles cycle after cycle. Its configuration is
  fixed by \<open>initDistributer\<close>; every cycle of liquidity is settled by one distribution by
  liquidity, and by one distribution by volume or one per cycle of volume. All distributions of
  the runner are dry runs: they compute and write out the rewards. The transaction arguments are
  shared with the options (a pointer), so a distribution may change those of the runner.
\<close>

section \<open>The runner\<close>

record distributeRunner =
  dr_liquidExchanges :: "string list"
  dr_liquidWeights :: "u64 list"
  dr_tradeExchanges :: "string list"
  dr_tradeWeights :: "u64 list"
  dr_sampleHeight :: u64
  dr_rewardToken :: string
  dr_start :: u64
  dr_stable :: u64
  dr_byLiquidCycleLen :: u64
  dr_byLiquidCycleRewards :: int
  dr_byVolumeCycleLen :: u64
  dr_byVolumeCycleRewards :: int
  dr_totalVolumeCycles :: u64
  dr_totalVolumeRewards :: int
  dr_quickSettleVolumeRewards :: bool
  dr_useTimeMeasurement :: bool
  dr_isArchiveMode :: bool
  dr_tradeWeightIsPercentage :: bool
  dr_byLiquidArgs :: BuildTxArgs
  dr_byVolumeArgs :: BuildTxArgs

definition IsCustomMethod :: "string \<Rightarrow> bool" where
  "IsCustomMethod m \<longleftrightarrow> m = customMethodID"

definition zero_BuildTxArgs :: BuildTxArgs where
  "zero_BuildTxArgs = \<lparr>ba_Sender = [], ba_KeystoreFile = [], ba_PasswordFile = [], ba_Nonce = None,
     ba_GasLimit = None, ba_GasPrice = None, ba_keyWrapper = None, ba_fromAddr = 0,
     ba_chainID = None, ba_chainSigner = None\<rparr>"

definition getBuildTxArgs :: "env \<Rightarrow> DistributeConfig \<Rightarrow> (error + BuildTxArgs) action" where
  "getBuildTxArgs E distCfg w = do {
     let gasLimitPtr = (if dc_GasLimit distCfg \<noteq> 0 then Some (dc_GasLimit distCfg) else None);
     let gasPrice = (if dc_GasPrice distCfg \<noteq> [] then found (GetBigIntFromString (dc_GasPrice distCfg)) else None);
     ((err, args), w) \<leftarrow> Check E (zero_BuildTxArgs\<lparr>ba_GasLimit := gasLimitPtr, ba_GasPrice := gasPrice\<rparr>) True w;
     (case err of Some e \<Rightarrow> Some (Inl e, w) | None \<Rightarrow> Some (Inr args, w))
   }"

text \<open>The runner of a configuration once the transaction arguments are there.\<close>

definition runner_of :: "params \<Rightarrow> DistributeConfig \<Rightarrow> BuildTxArgs \<Rightarrow> BuildTxArgs \<Rightarrow> error + distributeRunner" where
  "runner_of P distCfg liquidArgs volumeArgs =
     (let t = dc_UseTimeMeasurement distCfg;
          start = (if t then dc_StartTimestamp distCfg else dc_StartHeight distCfg);
          stb = (if t then dc_StableDuration distCfg else dc_StableHeight distCfg);
          liquidLen = (if t then dc_ByLiquidCycleDuration distCfg else dc_ByLiquidCycle distCfg);
          volumeLen = (if t then dc_ByVolumeCycleDuration distCfg else dc_ByVolumeCycle distCfg)
      in if liquidLen = 0 then Inl (Errorf ''liquidity cycle length is zero'')
      else if volumeLen = 0 then Inl (Errorf ''volume cycle length is zero'')
      else if liquidLen mod volumeLen \<noteq> 0
      then Inl (Errorf ''liquid cycle %v is not multiple intergral of volume cycle %v'')
      else
        let liquid = filter (\<lambda>ex. ex_LiquidWeight ex > 0) (exchanges P);
            trade = filter (\<lambda>ex. ex_TradeWeight ex > 0) (exchanges P)
        in if trade = [] \<and> liquid = [] then Inl (Errorf ''[distribute] stop as no exchange exists'')
           else Inr \<lparr>dr_liquidExchanges = map ex_Exchange liquid, dr_liquidWeights = map ex_LiquidWeight liquid,
             dr_tradeExchanges = map ex_Exchange trade, dr_tradeWeights = map ex_TradeWeight trade,
             dr_sampleHeight = 0, dr_rewardToken = dc_RewardToken distCfg, dr_start = start, dr_stable = stb,
             dr_byLiquidCycleLen = liquidLen, dr_byLiquidCycleRewards = GetByLiquidCycleRewards distCfg,
             dr_byVolumeCycleLen = volumeLen, dr_byVolumeCycleRewards = GetByVolumeCycleRewards distCfg,
             dr_totalVolumeCycles = liquidLen div volumeLen,
             dr_totalVolumeRewards = GetByVolumeCycleRewards distCfg * SetUint64 (liquidLen div volumeLen),
             dr_quickSettleVolumeRewards = dc_QuickSettleVolumeRewards distCfg, dr_useTimeMeasurement = t,
             dr_isArchiveMode = dc_ArchiveMode distCfg,
             dr_tradeWeightIsPercentage = dc_TradeWeightIsPercentage distCfg,
             dr_byLiquidArgs = liquidArgs, dr_byVolumeArgs = volumeArgs\<rparr>)"

definition initDistributer :: "env \<Rightarrow> params \<Rightarrow> DistributeConfig \<Rightarrow> (error + distributeRunner) action" where
  "initDistributer E P distCfg w = do {
     (liquidArgs, w) \<leftarrow> getBuildTxArgs E distCfg w;
     (case liquidArgs of
        Inl err \<Rightarrow> Some (Inl err, w)
      | Inr liquidArgs \<Rightarrow> do {
          (volumeArgs, w) \<leftarrow> getBuildTxArgs E distCfg w;
          (case volumeArgs of
             Inl err \<Rightarrow> Some (Inl err, w)
           | Inr volumeArgs \<Rightarrow> Some (runner_of P distCfg liquidArgs volumeArgs, w))
        })
   }"

section \<open>Waiting\<close>

partial_function (option) waitNodeSyncFinish :: "env \<Rightarrow> unit action" where
  "waitNodeSyncFinish E w = do {
     (syncProgress, w) \<leftarrow> GetSyncProgress E w;
     (case syncProgress of
        None \<Rightarrow> Some ((), w)
      | Some p \<Rightarrow>
          if sp_CurrentBlock p + 100 > sp_HighestBlock p then Some ((), w)
          else waitNodeSyncFinish E (w @ [EvSleep 60000]))
   }"

text \<open>The name and the start of the cycle are only logged; the interval is in milliseconds.\<close>

partial_function (option) waitCycleEnd :: "env \<Rightarrow> u64 \<Rightarrow> u64 \<Rightarrow> nat \<Rightarrow> bool \<Rightarrow> unit action" where
  "waitCycleEnd E cycleEnd stb waitFor useTimeMeasurement w = do {
     (r, w) \<leftarrow> FindLatestSyncInfo E w;
     (case r of
        Inl err \<Rightarrow> waitCycleEnd E cycleEnd stb waitFor useTimeMeasurement (w @ [EvSleep waitFor])
      | Inr syncInfo \<Rightarrow>
          let latest = (if useTimeMeasurement then si_Timestamp syncInfo else si_Number syncInfo)
          in if latest \<ge> cycleEnd + stb then Some ((), w)
             else waitCycleEnd E cycleEnd stb waitFor useTimeMeasurement (w @ [EvSleep waitFor]))
   }"

text \<open>A cycle length of zero panics.\<close>

definition cycle_start :: "u64 \<Rightarrow> u64 \<Rightarrow> u64 \<Rightarrow> u64 \<Rightarrow> u64 option" where
  "cycle_start start stb cycleLen latest =
     (if cycleLen = 0 then None
      else Some (start + (latest - start - stb) div cycleLen * cycleLen))"

definition calcCurCycleStart :: "env \<Rightarrow> u64 \<Rightarrow> u64 \<Rightarrow> u64 \<Rightarrow> bool \<Rightarrow> u64 action" where
  "calcCurCycleStart E start stb cycleLen useTimeMeasurement w = do {
     (latest, w) \<leftarrow> calcLatestBlockNumberOrTimestamp E useTimeMeasurement w;
     curCycleStart \<leftarrow> cycle_start start stb cycleLen latest;
     Some (curCycleStart, w)
   }"

section \<open>Distributions of the runner\<close>

text \<open>The fields the literals of \<open>Option\<close> leave out are zero.\<close>

definition zero_Option :: "BuildTxArgs \<Rightarrow> Opt" where
  "zero_Option args = \<lparr>o_BuildTxArgs = args, o_TotalValue = None, o_StartHeight = 0, o_EndHeight = 0,
     o_StableHeight = 0, o_StepCount = 0, o_StepReward = None, o_Exchanges = [], o_Weights = None,
     o_RewardToken = [], o_InputFiles = [], o_OutputFiles = [], o_SampleHeight = 0, o_SaveDB = False,
     o_DryRun = False, o_ArchiveMode = False, o_WeightIsPercentage = False, o_BatchCount = 0,
     o_BatchInterval = 0, o_UseTimeMeasurement = False, o_ScalingNumerator = None,
     o_ScalingDenominator = None, o_byWhat = [], o_noVolumes = 0, o_hasNoMissingVolumes = False,
     o_noVolumeStartHeights = [], o_outputFiles = []\<rparr>"

definition volume_option :: "distributeRunner \<Rightarrow> int \<Rightarrow> u64 \<Rightarrow> u64 \<Rightarrow> Opt" where
  "volume_option runner rewards start end = (zero_Option (dr_byVolumeArgs runner))\<lparr>
     o_TotalValue := Some rewards, o_StartHeight := start, o_EndHeight := end,
     o_StableHeight := dr_stable runner, o_StepCount := dr_byVolumeCycleLen runner,
     o_StepReward := Some (dr_byVolumeCycleRewards runner), o_Exchanges := dr_tradeExchanges runner,
     o_Weights := Some (dr_tradeWeights runner), o_RewardToken := dr_rewardToken runner, o_DryRun := True,
     o_UseTimeMeasurement := dr_useTimeMeasurement runner, o_ArchiveMode := dr_isArchiveMode runner,
     o_WeightIsPercentage := dr_tradeWeightIsPercentage runner\<rparr>"

definition liquid_option :: "distributeRunner \<Rightarrow> int \<Rightarrow> u64 \<Rightarrow> u64 \<Rightarrow> string list \<Rightarrow> Opt" where
  "liquid_option runner rewards start end inputFiles = (zero_Option (dr_byLiquidArgs runner))\<lparr>
     o_TotalValue := Some rewards, o_StartHeight := start, o_EndHeight := end,
     o_StableHeight := dr_stable runner, o_Exchanges := dr_liquidExchanges runner,
     o_Weights := Some (dr_liquidWeights runner), o_SampleHeight := dr_sampleHeight runner,
     o_RewardToken := dr_rewardToken runner, o_DryRun := True,
     o_UseTimeMeasurement := dr_useTimeMeasurement runner, o_ArchiveMode := dr_isArchiveMode runner,
     o_InputFiles := inputFiles\<rparr>"

text \<open>The result is the error, or the number of cycles without volume.\<close>

definition sendVolumeRewards ::
  "env \<Rightarrow> params \<Rightarrow> distributeRunner \<Rightarrow> int \<Rightarrow> u64 \<Rightarrow> u64 \<Rightarrow> ((error + u64) \<times> distributeRunner) action" where
  "sendVolumeRewards E P runner rewards start end w =
     (if dr_tradeExchanges runner = [] \<or> rewards \<le> 0 then Some ((Inr 0, runner), w)
      else do {
        ((err, opt), w) \<leftarrow> ByVolume E P (volume_option runner rewards start end) w;
        Some ((case err of Some e \<Rightarrow> Inl e | None \<Rightarrow> Inr (o_noVolumes opt),
          runner\<lparr>dr_byVolumeArgs := o_BuildTxArgs opt\<rparr>), w)
      })"

definition sendLiquidRewards ::
  "env \<Rightarrow> params \<Rightarrow> distributeRunner \<Rightarrow> int \<Rightarrow> u64 \<Rightarrow> u64 \<Rightarrow> string list \<Rightarrow> (error option \<times> distributeRunner) action" where
  "sendLiquidRewards E P runner rewards start end inputFiles w =
     (if dr_liquidExchanges runner = [] \<or> rewards \<le> 0 then Some ((None, runner), w)
      else do {
        ((err, opt), w) \<leftarrow> ByLiquidity E P (liquid_option runner rewards start end inputFiles) w;
        Some ((err, runner\<lparr>dr_byLiquidArgs := o_BuildTxArgs opt\<rparr>), w)
      })"

section \<open>Settling a cycle\<close>

text \<open>
  Quick settlement: one distribution per cycle of volume. A cycle that ended before the latest
  block is left out, an error is only logged.
\<close>

partial_function (option) settle_steps ::
  "env \<Rightarrow> params \<Rightarrow> u64 \<Rightarrow> u64 \<Rightarrow> u64 \<Rightarrow> distributeRunner \<Rightarrow> u64 \<Rightarrow> u64 \<Rightarrow> (u64 \<times> distributeRunner) action" where
  "settle_steps E P latest cycleEnd step runner start missVolumeCycles w =
     (if \<not> start < cycleEnd then Some ((missVolumeCycles, runner), w)
      else if start + step < latest
      then settle_steps E P latest cycleEnd step runner (start + step) missVolumeCycles w
      else do {
        (_, w) \<leftarrow> waitCycleEnd E (start + step) (dr_stable runner) 20000 (dr_useTimeMeasurement runner) w;
        ((r, runner), w) \<leftarrow> sendVolumeRewards E P runner (dr_byVolumeCycleRewards runner) start (start + step) w;
        settle_steps E P latest cycleEnd step runner (start + step)
          (case r of Inl err \<Rightarrow> missVolumeCycles | Inr missing \<Rightarrow> missVolumeCycles + missing) w
      })"

definition settleVolumeRewards ::
  "env \<Rightarrow> params \<Rightarrow> distributeRunner \<Rightarrow> u64 \<Rightarrow> u64 \<Rightarrow> ((error + u64) \<times> distributeRunner) action" where
  "settleVolumeRewards E P runner cycleStart cycleEnd w =
     (if \<not> dr_quickSettleVolumeRewards runner then do {
        (_, w) \<leftarrow> waitCycleEnd E cycleEnd (dr_stable runner) 60000 (dr_useTimeMeasurement runner) w;
        sendVolumeRewards E P runner (dr_totalVolumeRewards runner) cycleStart cycleEnd w
      }
      else do {
        (latest, w) \<leftarrow> calcLatestBlockNumberOrTimestamp E (dr_useTimeMeasurement runner) w;
        ((missing, runner), w) \<leftarrow>
          settle_steps E P latest cycleEnd (dr_byVolumeCycleLen runner) runner cycleStart 0 w;
        Some ((Inr missing, runner), w)
      })"

section \<open>The two loops\<close>

text \<open>
  \<open>runVolumeDistribute\<close> and \<open>runLiquidDistribute\<close> are endless loops over the cycles, unless they
  stop at once. A turn of a loop takes the start of a cycle and returns the start of the following
  one; the loops are the relation \<open>run_step\<close>, in which one of the two goroutines makes its turn.
\<close>

definition volume_enabled :: "distributeRunner \<Rightarrow> bool" where
  "volume_enabled runner \<longleftrightarrow> dr_tradeExchanges runner \<noteq> [] \<and> dr_byVolumeCycleRewards runner > 0"

definition liquid_enabled :: "distributeRunner \<Rightarrow> bool" where
  "liquid_enabled runner \<longleftrightarrow> dr_liquidExchanges runner \<noteq> [] \<and> dr_byLiquidCycleRewards runner > 0"

definition volume_turn :: "env \<Rightarrow> params \<Rightarrow> distributeRunner \<Rightarrow> u64 \<Rightarrow> (u64 \<times> distributeRunner) action" where
  "volume_turn E P runner curCycleStart w = do {
     let curCycleEnd = curCycleStart + dr_byLiquidCycleLen runner;
     ((_, runner), w) \<leftarrow> settleVolumeRewards E P runner curCycleStart curCycleEnd w;
     Some ((curCycleEnd, runner), w)
   }"

definition liquid_turn :: "env \<Rightarrow> params \<Rightarrow> distributeRunner \<Rightarrow> u64 \<Rightarrow> (u64 \<times> distributeRunner) action" where
  "liquid_turn E P runner curCycleStart w = do {
     let curCycleEnd = curCycleStart + dr_byLiquidCycleLen runner;
     let t = dr_useTimeMeasurement runner;
     (sampleHeight, w) \<leftarrow> CalcRandomSample E P curCycleStart curCycleEnd t w;
     (_, w) \<leftarrow> waitCycleEnd E sampleHeight (dr_stable runner) 60000 t w;
     ((_, runner), w) \<leftarrow> sendLiquidRewards E P runner (dr_byLiquidCycleRewards runner) curCycleStart curCycleEnd [] w;
     (_, w) \<leftarrow> waitCycleEnd E curCycleEnd (dr_stable runner) 60000 t w;
     Some ((curCycleEnd, runner), w)
   }"

record run_state =
  rs_runner :: distributeRunner
  rs_volumeStart :: u64
  rs_liquidStart :: u64
  rs_world :: world

text \<open>\<open>run\<close> up to the start of the goroutines; \<open>flag\<close> is when the syncer has reached the latest block.\<close>

definition run :: "env \<Rightarrow> (world \<Rightarrow> bool) \<Rightarrow> distributeRunner \<Rightarrow> world \<Rightarrow> run_state option" where
  "run E flag runner w = do {
     (_, w) \<leftarrow> waitNodeSyncFinish E w;
     (_, w) \<leftarrow> WaitSyncToLatest flag w;
     (curCycleStart, w) \<leftarrow> calcCurCycleStart E (dr_start runner) (dr_stable runner)
       (dr_byLiquidCycleLen runner) (dr_useTimeMeasurement runner) w;
     Some \<lparr>rs_runner = runner, rs_volumeStart = curCycleStart, rs_liquidStart = curCycleStart, rs_world = w\<rparr>
   }"

inductive run_step :: "env \<Rightarrow> params \<Rightarrow> run_state \<Rightarrow> run_state \<Rightarrow> bool" for E P where
  volume: "volume_enabled (rs_runner s) \<Longrightarrow>
    volume_turn E P (rs_runner s) (rs_volumeStart s) (rs_world s) = Some ((start, runner), w) \<Longrightarrow>
    run_step E P s (s\<lparr>rs_runner := runner, rs_volumeStart := start, rs_world := w\<rparr>)"
| liquid: "liquid_enabled (rs_runner s) \<Longrightarrow>
    liquid_turn E P (rs_runner s) (rs_liquidStart s) (rs_world s) = Some ((start, runner), w) \<Longrightarrow>
    run_step E P s (s\<lparr>rs_runner := runner, rs_liquidStart := start, rs_world := w\<rparr>)"

text \<open>\<open>Start\<close>: the state in which the goroutines start, unless distribution is disabled or fails.\<close>

definition dist_Start :: "env \<Rightarrow> params \<Rightarrow> (world \<Rightarrow> bool) \<Rightarrow> world \<Rightarrow> run_state option" where
  "dist_Start E P flag w = do {
     distCfg \<leftarrow> cf_Distribute (config P);
     if \<not> dc_Enable distCfg then None
     else do {
       (runner, w) \<leftarrow> initDistributer E P distCfg w;
       (case runner of Inl err \<Rightarrow> None | Inr runner \<Rightarrow> run E flag runner w)
     }
   }"

section \<open>Computing the rewards of a range\<close>

definition CalcBothRewards :: string where "CalcBothRewards = ''both''"
definition CalcVolumeRewards :: string where "CalcVolumeRewards = ''volume''"
definition CalcLiquidRewards :: string where "CalcLiquidRewards = ''liquid''"

definition calc_volume :: "string \<Rightarrow> bool" where
  "calc_volume calcType \<longleftrightarrow> calcType = CalcVolumeRewards \<or> calcType = CalcBothRewards"
definition calc_liquid :: "string \<Rightarrow> bool" where
  "calc_liquid calcType \<longleftrightarrow> calcType = CalcLiquidRewards \<or> calcType = CalcBothRewards"

definition checkStartEndHeight :: "distributeRunner \<Rightarrow> u64 \<Rightarrow> u64 \<Rightarrow> string \<Rightarrow> error option" where
  "checkStartEndHeight runner startHeight endHeight calcType =
     (if startHeight \<ge> endHeight
      then Some (Errorf ''start height %v is not lower than than end height %v'')
      else if startHeight < dr_start runner
      then Some (Errorf ''height %v is lower than distribute start height %v'')
      else if (calc_liquid calcType \<or> (calc_volume calcType \<and> \<not> dr_quickSettleVolumeRewards runner))
        \<and> startHeight + dr_byLiquidCycleLen runner \<noteq> endHeight
      then Some (Errorf ''wrong start or end height, start=%v end=%v byLiquidCycleLen=%v'')
      else if calc_volume calcType \<and> dr_quickSettleVolumeRewards runner
        \<and> (endHeight - startHeight) mod dr_byVolumeCycleLen runner \<noteq> 0
      then Some (Errorf ''wrong start or end height, start=%v end=%v byVolumeCycleLen=%v'')
      else None)"

definition checkSampleHeight :: "distributeRunner \<Rightarrow> u64 \<Rightarrow> u64 \<Rightarrow> u64 \<Rightarrow> error option" where
  "checkSampleHeight runner sampleHeight startHeight endHeight =
     (if sampleHeight = 0 \<or> \<not> dr_isArchiveMode runner then None
      else if sampleHeight \<ge> startHeight \<and> sampleHeight < endHeight then None
      else Some (Errorf ''sample height %v not in the range of start %v to end %v''))"

partial_function (option) volume_steps ::
  "env \<Rightarrow> params \<Rightarrow> u64 \<Rightarrow> u64 \<Rightarrow> distributeRunner \<Rightarrow> u64 \<Rightarrow> u64 \<Rightarrow> ((error + u64) \<times> distributeRunner) action" where
  "volume_steps E P endHeight step runner start missingCycles w =
     (if \<not> start < endHeight then Some ((Inr missingCycles, runner), w)
      else do {
        (_, w) \<leftarrow> waitCycleEnd E (start + step) (dr_stable runner) 20000 (dr_useTimeMeasurement runner) w;
        ((r, runner), w) \<leftarrow> sendVolumeRewards E P runner (dr_byVolumeCycleRewards runner) start (start + step) w;
        (case r of
           Inl err \<Rightarrow> Some ((Inl err, runner), w)
         | Inr missing \<Rightarrow> volume_steps E P endHeight step runner (start + step) (missingCycles + missing) w)
      })"

definition calcVolumeRewards ::
  "env \<Rightarrow> params \<Rightarrow> distributeRunner \<Rightarrow> u64 \<Rightarrow> u64 \<Rightarrow> (error option \<times> distributeRunner) action" where
  "calcVolumeRewards E P runner startHeight endHeight w = do {
     ((r, runner), w) \<leftarrow>
       (if \<not> dr_quickSettleVolumeRewards runner then do {
          (_, w) \<leftarrow> waitCycleEnd E endHeight (dr_stable runner) 60000 (dr_useTimeMeasurement runner) w;
          sendVolumeRewards E P runner (dr_totalVolumeRewards runner) startHeight endHeight w
        }
        else volume_steps E P endHeight (dr_byVolumeCycleLen runner) runner startHeight 0 w);
     Some ((case r of Inl err \<Rightarrow> Some err | Inr missing \<Rightarrow> None, runner), w)
   }"

definition calcLiquidRewards ::
  "env \<Rightarrow> params \<Rightarrow> distributeRunner \<Rightarrow> u64 \<Rightarrow> u64 \<Rightarrow> string list \<Rightarrow> (error option \<times> distributeRunner) action" where
  "calcLiquidRewards E P runner startHeight endHeight inputs w = do {
     (_, w) \<leftarrow> (if dr_sampleHeight runner \<noteq> 0 \<and> dr_isArchiveMode runner
       then waitCycleEnd E (dr_sampleHeight runner) (dr_stable runner) 60000 (dr_useTimeMeasurement runner) w
       else Some ((), w));
     if inputs \<noteq> [] \<and> length inputs \<noteq> length (dr_liquidExchanges runner)
     then Some ((Some (Errorf ''count of input files %v and liquid exchanges %v are not equal''), runner), w)
     else sendLiquidRewards E P runner (dr_byLiquidCycleRewards runner) startHeight endHeight inputs w
   }"

text \<open>\<open>CalcRewards\<close> of the package \<open>distributer\<close>.\<close>

definition dist_CalcRewards ::
  "env \<Rightarrow> params \<Rightarrow> u64 \<Rightarrow> u64 \<Rightarrow> u64 \<Rightarrow> string \<Rightarrow> string list \<Rightarrow> error option action" where
  "dist_CalcRewards E P startHeight endHeight sampleHeight calcType inputs w = do {
     distCfg \<leftarrow> cf_Distribute (config P);
     (runner, w) \<leftarrow> initDistributer E P distCfg w;
     (case runner of
        Inl err \<Rightarrow> Some (Some err, w)
      | Inr runner \<Rightarrow>
        (case checkStartEndHeight runner startHeight endHeight calcType of Some err \<Rightarrow> Some (Some err, w) | None \<Rightarrow>
        (case checkSampleHeight runner sampleHeight startHeight endHeight of Some err \<Rightarrow> Some (Some err, w) | None \<Rightarrow> do {
           ((err, runner), w) \<leftarrow> (if calc_volume calcType
             then calcVolumeRewards E P runner startHeight endHeight w else Some ((None, runner), w));
           if err \<noteq> None then Some (err, w)
           else do {
             ((err, runner), w) \<leftarrow> (if calc_liquid calcType
               then calcLiquidRewards E P (runner\<lparr>dr_sampleHeight := sampleHeight\<rparr>) startHeight endHeight inputs w
               else Some ((None, runner), w));
             Some (err, w)
           }
         })))
   }"

section \<open>The runner never broadcasts\<close>

lemma silent_setDefaults_loop [silent_intros]: "silent (setDefaults_loop E sender args)"
proof (rule only_rec)
  fix w y assume run: "setDefaults_loop E sender args w = Some y"
  show "adds (\<lambda>e. \<not> is_send e) w (snd y)"
  proof (rule setDefaults_loop.raw_induct [where P = "\<lambda>E s a w y. adds (\<lambda>e. \<not> is_send e) w (snd y)", OF _ run], goal_cases)
    case (1 rec E s a w y)
    note rec = only_rec [OF 1(1)]
    from 1(2) show ?case
      by (rule only_body [where w = w]) (rule rec silent_intros only_rules only_after | simp)+
  qed
qed

lemma silent_setDefaults [silent_intros]: "silent (setDefaults E args)"
  unfolding setDefaults_def [abs_def] by (rule silent_intros)

lemma silent_loadKeyStore [silent_intros]: "silent (loadKeyStore E args)"
  unfolding loadKeyStore_def [abs_def] by (rule only_rules | simp)+

lemma silent_Check [silent_intros]: "silent (Check E args dryRun)"
  unfolding Check_def [abs_def] by (rule silent_intros only_rules)+

lemma silent_getBuildTxArgs [silent_intros]: "silent (getBuildTxArgs E distCfg)"
  unfolding getBuildTxArgs_def [abs_def] by (rule silent_intros only_rules)+

lemma silent_initDistributer [silent_intros]: "silent (initDistributer E P distCfg)"
  unfolding initDistributer_def [abs_def] by (rule silent_intros only_rules)+

lemma silent_waitNodeSyncFinish [silent_intros]: "silent (waitNodeSyncFinish E)"
proof (rule only_rec)
  fix w y assume run: "waitNodeSyncFinish E w = Some y"
  show "adds (\<lambda>e. \<not> is_send e) w (snd y)"
  proof (rule waitNodeSyncFinish.raw_induct [where P = "\<lambda>E w y. adds (\<lambda>e. \<not> is_send e) w (snd y)", OF _ run], goal_cases)
    case (1 rec E w y)
    note rec = only_rec [OF 1(1)]
    from 1(2) show ?case
      by (rule only_body [where w = w]) (rule rec silent_intros only_rules only_after | simp)+
  qed
qed

lemma silent_waitCycleEnd [silent_intros]: "silent (waitCycleEnd E cycleEnd stb n t)"
proof (rule only_rec)
  fix w y assume run: "waitCycleEnd E cycleEnd stb n t w = Some y"
  show "adds (\<lambda>e. \<not> is_send e) w (snd y)"
  proof (rule waitCycleEnd.raw_induct [where P = "\<lambda>E c s n t w y. adds (\<lambda>e. \<not> is_send e) w (snd y)", OF _ run], goal_cases)
    case (1 rec E c s n t w y)
    note rec = only_rec [OF 1(1)]
    from 1(2) show ?case
      by (rule only_body [where w = w]) (rule rec silent_intros only_rules only_after | simp)+
  qed
qed

lemma silent_WaitSyncToLatest [silent_intros]: "silent (WaitSyncToLatest flag)"
proof (rule only_rec)
  fix w y assume run: "WaitSyncToLatest flag w = Some y"
  show "adds (\<lambda>e. \<not> is_send e) w (snd y)"
  proof (rule WaitSyncToLatest.raw_induct [where P = "\<lambda>f w y. adds (\<lambda>e. \<not> is_send e) w (snd y)", OF _ run], goal_cases)
    case (1 rec f w y)
    note rec = only_rec [OF 1(1)]
    from 1(2) show ?case
      by (rule only_body [where w = w]) (rule rec silent_intros only_rules only_after | simp)+
  qed
qed

lemma silent_calcCurCycleStart [silent_intros]: "silent (calcCurCycleStart E start stb len t)"
  unfolding calcCurCycleStart_def [abs_def] by (rule silent_intros only_rules | rule only_bind_pure)+

lemma silent_run: "run E flag runner w = Some s \<Longrightarrow> adds (\<lambda>e. \<not> is_send e) w (rs_world s)"
proof -
  assume run: "run E flag runner w = Some s"
  let ?start = "\<lambda>w. do {
     (_, w) \<leftarrow> waitNodeSyncFinish E w;
     (_, w) \<leftarrow> WaitSyncToLatest flag w;
     calcCurCycleStart E (dr_start runner) (dr_stable runner) (dr_byLiquidCycleLen runner) (dr_useTimeMeasurement runner) w }"
  have "silent ?start" by (rule silent_intros only_rules)+
  from run have "\<exists>c. ?start w = Some (c, rs_world s)"
    by (auto simp: run_def split: Option.bind_splits)
  with \<open>silent ?start\<close> show ?thesis by (blast dest: onlyD)
qed

lemma silent_sendVolumeRewards [silent_intros]: "silent (sendVolumeRewards E P runner rewards start end)"
proof (rule onlyI)
  fix w r w' assume "sendVolumeRewards E P runner rewards start end w = Some (r, w')"
  then show "adds (\<lambda>e. \<not> is_send e) w w'"
    by (auto simp: sendVolumeRewards_def volume_option_def split: if_splits Option.bind_splits dest!: ByVolume_dry)
qed

lemma silent_sendLiquidRewards [silent_intros]: "silent (sendLiquidRewards E P runner rewards start end inputs)"
proof (rule onlyI)
  fix w r w' assume "sendLiquidRewards E P runner rewards start end inputs w = Some (r, w')"
  then show "adds (\<lambda>e. \<not> is_send e) w w'"
    by (auto simp: sendLiquidRewards_def liquid_option_def split: if_splits Option.bind_splits dest!: ByLiquidity_dry)
qed

lemma silent_settle_steps [silent_intros]: "silent (settle_steps E P latest cycleEnd step runner start miss)"
proof (rule only_rec)
  fix w y assume run: "settle_steps E P latest cycleEnd step runner start miss w = Some y"
  show "adds (\<lambda>e. \<not> is_send e) w (snd y)"
  proof (rule settle_steps.raw_induct [where Pa = "\<lambda>x y. adds (\<lambda>e. \<not> is_send e) (snd x) (snd y)",
    OF _ run, unfolded snd_conv], goal_cases)
    case (1 rec E P l c s r st m w y)
    note rec = only_rec [OF 1(1)]
    from 1(2) show ?case
      by (rule only_body [where w = w]) (rule rec silent_intros only_rules only_after | simp)+
  qed
qed

lemma silent_volume_steps [silent_intros]: "silent (volume_steps E P endHeight step runner start miss)"
proof (rule only_rec)
  fix w y assume run: "volume_steps E P endHeight step runner start miss w = Some y"
  show "adds (\<lambda>e. \<not> is_send e) w (snd y)"
  proof (rule volume_steps.raw_induct [where Pa = "\<lambda>x y. adds (\<lambda>e. \<not> is_send e) (snd x) (snd y)",
    OF _ run, unfolded snd_conv], goal_cases)
    case (1 rec E P c s r st m w y)
    note rec = only_rec [OF 1(1)]
    from 1(2) show ?case
      by (rule only_body [where w = w]) (rule rec silent_intros only_rules only_after | simp)+
  qed
qed

lemma silent_settleVolumeRewards [silent_intros]: "silent (settleVolumeRewards E P runner cycleStart cycleEnd)"
  unfolding settleVolumeRewards_def [abs_def] by (rule silent_intros only_rules)+

lemma silent_turns [silent_intros]:
  "silent (volume_turn E P runner start)" "silent (liquid_turn E P runner start)"
  unfolding volume_turn_def [abs_def] liquid_turn_def [abs_def] by (rule silent_intros only_rules)+

lemma silent_calcVolumeRewards [silent_intros]: "silent (calcVolumeRewards E P runner startH endH)"
  unfolding calcVolumeRewards_def [abs_def] by (rule silent_intros only_rules)+

lemma silent_calcLiquidRewards [silent_intros]: "silent (calcLiquidRewards E P runner startH endH inputs)"
  unfolding calcLiquidRewards_def [abs_def] by (rule silent_intros only_rules)+

lemma silent_dist_CalcRewards: "silent (dist_CalcRewards E P startH endH sampleH calcType inputs)"
  unfolding dist_CalcRewards_def [abs_def] by (rule silent_intros only_rules | rule only_bind_pure)+

end
