(* ===== verification/Runner.thy ===== *)
theory Runner
  imports Distributer
begin

text \<open>
  Properties of the runner (\<open>distributer/distribute.go\<close>): the cycles it settles, what it waits
  for, that its options pass the checks of the distributions, and that it never broadcasts.
\<close>

section \<open>Cycles\<close>

text \<open>A turn changes the runner at most in the transaction arguments.\<close>

definition same_runner :: "distributeRunner \<Rightarrow> distributeRunner \<Rightarrow> bool" where
  "same_runner r r' \<longleftrightarrow> r' = r\<lparr>dr_byLiquidArgs := dr_byLiquidArgs r', dr_byVolumeArgs := dr_byVolumeArgs r'\<rparr>"

lemma same_runner_refl [simp]: "same_runner r r"
  by (simp add: same_runner_def)

lemma same_runner_args [simp]:
  "same_runner r (r\<lparr>dr_byVolumeArgs := a\<rparr>)" "same_runner r (r\<lparr>dr_byLiquidArgs := a\<rparr>)"
  by (simp_all add: same_runner_def)

lemma same_runner_trans: "same_runner r r' \<Longrightarrow> same_runner r' r'' \<Longrightarrow> same_runner r r''"
  by (cases r; cases r'; cases r'') (simp add: same_runner_def)

lemma same_runner_fields:
  assumes "same_runner r r'"
  shows "dr_byLiquidCycleLen r' = dr_byLiquidCycleLen r" "dr_byVolumeCycleLen r' = dr_byVolumeCycleLen r"
    "dr_tradeExchanges r' = dr_tradeExchanges r" "dr_liquidExchanges r' = dr_liquidExchanges r"
    "dr_start r' = dr_start r"
  using assms by (cases r; cases r'; simp add: same_runner_def)+

lemma sendVolumeRewards_same: "sendVolumeRewards E P r rewards s e w = Some ((res, r'), w') \<Longrightarrow> same_runner r r'"
  by (auto simp: sendVolumeRewards_def split: if_splits Option.bind_splits)

lemma sendLiquidRewards_same: "sendLiquidRewards E P r rewards s e i w = Some ((res, r'), w') \<Longrightarrow> same_runner r r'"
  by (auto simp: sendLiquidRewards_def split: if_splits Option.bind_splits)

lemma settle_steps_same:
  assumes run: "settle_steps E P latest cycleEnd step r start miss w = Some y"
  shows "same_runner r (snd (fst y))"
proof -
  have "(\<lambda>((((((((E, P), latest), cycleEnd), step), r), start), miss), w) y. same_runner r (snd (fst y)))
      ((((((((E, P), latest), cycleEnd), step), r), start), miss), w) y"
  proof (rule settle_steps.raw_induct [OF _ run], goal_cases)
    case (1 rec E P l c s r st m w y)
    then show ?case
      by (cases y) (auto split: if_splits Option.bind_splits dest!: sendVolumeRewards_same, blast intro: same_runner_trans)
  qed
  then show ?thesis by simp
qed

lemma turn_same:
  "volume_turn E P r start w = Some ((start', r'), w') \<Longrightarrow>
    start' = start + dr_byLiquidCycleLen r \<and> same_runner r r'"
  "liquid_turn E P r start w = Some ((start', r'), w') \<Longrightarrow>
    start' = start + dr_byLiquidCycleLen r \<and> same_runner r r'"
  by (auto simp: volume_turn_def settleVolumeRewards_def liquid_turn_def Let_def split: if_splits Option.bind_splits
      dest!: sendVolumeRewards_same sendLiquidRewards_same settle_steps_same)

inductive_cases run_stepE: "run_step E P s s'"

lemma run_step_turns:
  assumes "run_step E P s s'"
  shows "adds (\<lambda>e. \<not> is_send e) (rs_world s) (rs_world s')" "same_runner (rs_runner s) (rs_runner s')"
    "\<exists>i j. i + j = 1 \<and> rs_volumeStart s' = rs_volumeStart s + of_nat i * dr_byLiquidCycleLen (rs_runner s) \<and>
      rs_liquidStart s' = rs_liquidStart s + of_nat j * dr_byLiquidCycleLen (rs_runner s)"
proof -
  show "adds (\<lambda>e. \<not> is_send e) (rs_world s) (rs_world s')"
    using assms by (cases rule: run_stepE) (auto dest: onlyD [OF silent_turns(1)] onlyD [OF silent_turns(2)])
  show "same_runner (rs_runner s) (rs_runner s')"
    using assms by (cases rule: run_stepE) (auto dest: turn_same)
  from assms show "\<exists>i j. i + j = 1 \<and> rs_volumeStart s' = rs_volumeStart s + of_nat i * dr_byLiquidCycleLen (rs_runner s) \<and>
      rs_liquidStart s' = rs_liquidStart s + of_nat j * dr_byLiquidCycleLen (rs_runner s)"
  proof (cases rule: run_step.cases)
    case (volume start runner w)
    with turn_same(1) show ?thesis by (intro exI [of _ 1] exI [of _ 0]) fastforce
  next
    case (liquid start runner w)
    with turn_same(2) show ?thesis by (intro exI [of _ 0] exI [of _ 1]) fastforce
  qed
qed

lemma reachable_turns:
  assumes "(run_step E P)\<^sup>*\<^sup>* s s'"
  shows "adds (\<lambda>e. \<not> is_send e) (rs_world s) (rs_world s') \<and> same_runner (rs_runner s) (rs_runner s') \<and>
    (\<exists>i j. rs_volumeStart s' = rs_volumeStart s + of_nat i * dr_byLiquidCycleLen (rs_runner s) \<and>
      rs_liquidStart s' = rs_liquidStart s + of_nat j * dr_byLiquidCycleLen (rs_runner s))"
  using assms
proof (induction rule: rtranclp_induct)
  case base
  show ?case by (auto intro: exI [of _ 0])
next
  case (step s1 s2)
  from step.IH obtain i j where IH: "rs_volumeStart s1 = rs_volumeStart s + of_nat i * dr_byLiquidCycleLen (rs_runner s)"
      "rs_liquidStart s1 = rs_liquidStart s + of_nat j * dr_byLiquidCycleLen (rs_runner s)" by blast
  have len: "dr_byLiquidCycleLen (rs_runner s1) = dr_byLiquidCycleLen (rs_runner s)"
    using step.IH same_runner_fields by blast
  from run_step_turns(3) [OF step.hyps(2)] obtain i' j' where
      "rs_volumeStart s2 = rs_volumeStart s1 + of_nat i' * dr_byLiquidCycleLen (rs_runner s)"
      "rs_liquidStart s2 = rs_liquidStart s1 + of_nat j' * dr_byLiquidCycleLen (rs_runner s)" unfolding len by blast
  with IH have "rs_volumeStart s2 = rs_volumeStart s + of_nat (i + i') * dr_byLiquidCycleLen (rs_runner s)"
      "rs_liquidStart s2 = rs_liquidStart s + of_nat (j + j') * dr_byLiquidCycleLen (rs_runner s)"
    by (simp_all add: algebra_simps)
  with step.IH run_step_turns(1,2) [OF step.hyps(2)] show ?case
    by (blast intro: adds_trans same_runner_trans)
qed

lemma cycle_start_bounds:
  assumes len: "len \<noteq> 0" and passed: "uint start + uint stb \<le> uint latest"
  shows "\<exists>c k. cycle_start start stb len latest = Some c \<and> uint c = uint start + int k * uint len \<and>
    uint c + uint stb \<le> uint latest \<and> uint latest < uint c + uint stb + uint len"
proof -
  let ?d = "uint latest - uint start - uint stb"
  have diff: "uint (latest - start - stb) = ?d"
  proof -
    have "uint (latest - start) = uint latest - uint start"
      using passed uint_ge_0 [of stb] by (intro word_diff_less_self) (unfold word_le_def, linarith)
    moreover from this passed have "uint (latest - start - stb) = uint (latest - start) - uint stb"
      by (intro word_diff_less_self) (unfold word_le_def, linarith)
    ultimately show ?thesis by simp
  qed
  have pos: "0 < uint len" using len uint_ge_0 [of len] uint_0_iff [of len] by linarith
  let ?q = "(latest - start - stb) div len"
  have q: "uint ?q = ?d div uint len" by (simp add: uint_div diff)
  have le: "?d div uint len * uint len \<le> ?d" and gt: "?d < ?d div uint len * uint len + uint len"
    using pos pos_mod_bound [OF pos, of ?d] pos_mod_sign [OF pos, of ?d] div_mult_mod_eq [of ?d "uint len"] by linarith+
  have b: "?d div uint len * uint len < 18446744073709551616"
      "uint start + ?d div uint len * uint len < 18446744073709551616"
    using le u64_max_bound [of latest] uint_ge_0 [of start] uint_ge_0 [of stb] by linarith+
  have m: "uint (?q * len) = ?d div uint len * uint len"
    by (subst uint_mult_no_wrap) (simp_all add: q b)
  have c: "uint (start + ?q * len) = uint start + ?d div uint len * uint len"
    by (subst uint_add_no_wrap) (simp_all add: m b)
  have "0 \<le> ?d div uint len" using pos passed by (simp add: pos_imp_zdiv_nonneg_iff)
  then have "uint (start + ?q * len) = uint start + int (nat (?d div uint len)) * uint len" using c by simp
  with c le gt len show ?thesis
    by (intro exI [of _ "start + ?q * len"] exI [of _ "nat (?d div uint len)"]) (simp add: cycle_start_def)
qed

definition sync_time :: "bool \<Rightarrow> MgoSyncInfo \<Rightarrow> u64" where
  "sync_time t si = (if t then si_Timestamp si else si_Number si)"

text \<open>
  C26: Waiting for the end of a cycle returns, once the syncer has stored a height (or a time) at
  the end of the cycle plus the stable height, and not before: the last query of the wait found
  such an entry, and nothing but queries and pauses happened meanwhile.
\<close>

theorem waitCycleEnd_reached:
  assumes "\<And>w. N \<le> length w \<Longrightarrow>
      \<exists>si. FindId_SyncInfo E w KeyOfLatestSyncInfo = Inr si \<and> cycleEnd + stb \<le> sync_time t si"
  shows "\<exists>w1 si. waitCycleEnd E cycleEnd stb n t w = Some ((), w1 @ [EvFind tbSyncInfo KeyOfLatestSyncInfo]) \<and>
    FindId_SyncInfo E w1 KeyOfLatestSyncInfo = Inr si \<and> cycleEnd + stb \<le> sync_time t si \<and> adds is_db w w1"
proof (induction "N - length w" arbitrary: w rule: less_induct)
  case less
  let ?find = "[EvFind tbSyncInfo KeyOfLatestSyncInfo]" and ?again = "w @ [EvFind tbSyncInfo KeyOfLatestSyncInfo, EvSleep n]"
  show ?case
  proof (cases "\<exists>si. FindId_SyncInfo E w KeyOfLatestSyncInfo = Inr si \<and> cycleEnd + stb \<le> sync_time t si")
    case True
    then show ?thesis
      by (subst waitCycleEnd.simps) (auto simp: FindLatestSyncInfo_def sync_time_def intro!: exI [of _ w])
  next
    case False
    then have "waitCycleEnd E cycleEnd stb n t w = waitCycleEnd E cycleEnd stb n t ?again"
      by (subst waitCycleEnd.simps) (auto simp: FindLatestSyncInfo_def sync_time_def split: sum.split)
    moreover have "N - length ?again < N - length w"
      using False assms [of w] by (cases "N \<le> length w") auto
    note less [OF this]
    moreover have "adds is_db w ?again" by simp
    ultimately show ?thesis by (metis adds_trans)
  qed
qed

section \<open>The cycles of a range\<close>

text \<open>Consecutive cycles: each begins where the former ended.\<close>

fun windows :: "u64 \<Rightarrow> u64 \<Rightarrow> nat \<Rightarrow> (u64 \<times> u64) list" where
  "windows start step 0 = []"
| "windows start step (Suc n) = (start, start + step) # windows (start + step) step n"

text \<open>Settling a list of cycles one by one; the first error ends it.\<close>

fun settle_each ::
  "env \<Rightarrow> params \<Rightarrow> (u64 \<times> u64) list \<Rightarrow> distributeRunner \<Rightarrow> u64 \<Rightarrow> ((error + u64) \<times> distributeRunner) action" where
  "settle_each E P [] runner missing w = Some ((Inr missing, runner), w)"
| "settle_each E P ((start, end) # rest) runner missing w = do {
     (_, w) \<leftarrow> waitCycleEnd E end (dr_stable runner) 20000 (dr_useTimeMeasurement runner) w;
     ((r, runner), w) \<leftarrow> sendVolumeRewards E P runner (dr_byVolumeCycleRewards runner) start end w;
     (case r of
        Inl err \<Rightarrow> Some ((Inl err, runner), w)
      | Inr m \<Rightarrow> settle_each E P rest runner (missing + m) w)
   }"

text \<open>The same, an error leaving out its cycle.\<close>

fun settle_all ::
  "env \<Rightarrow> params \<Rightarrow> (u64 \<times> u64) list \<Rightarrow> distributeRunner \<Rightarrow> u64 \<Rightarrow> (u64 \<times> distributeRunner) action" where
  "settle_all E P [] runner missing w = Some ((missing, runner), w)"
| "settle_all E P ((start, end) # rest) runner missing w = do {
     (_, w) \<leftarrow> waitCycleEnd E end (dr_stable runner) 20000 (dr_useTimeMeasurement runner) w;
     ((r, runner), w) \<leftarrow> sendVolumeRewards E P runner (dr_byVolumeCycleRewards runner) start end w;
     settle_all E P rest runner (case r of Inl err \<Rightarrow> missing | Inr m \<Rightarrow> missing + m) w
   }"

lemma window_step:
  fixes start step endH :: u64
  assumes "step \<noteq> 0" "uint start + int (Suc n) * uint step = uint endH"
  shows "start < endH" "uint (start + step) + int n * uint step = uint endH" "uint (start + step) = uint start + uint step"
proof -
  have "0 < uint step" using assms(1) uint_ge_0 [of step] uint_0_iff [of step] by linarith
  then have n: "0 \<le> int n * uint step" by simp
  moreover have "uint start + (uint step + int n * uint step) = uint endH" using assms(2) by (simp add: algebra_simps)
  ultimately have le: "uint start + uint step \<le> uint endH" by linarith
  with \<open>0 < uint step\<close> show "start < endH" by (simp add: word_less_def)
  show plus: "uint (start + step) = uint start + uint step"
    using le u64_max_bound [of endH] by (intro uint_add_no_wrap) simp
  with assms(2) show "uint (start + step) + int n * uint step = uint endH" by (simp add: algebra_simps)
qed

lemma volume_steps_windows:
  assumes "step \<noteq> 0" "uint start + int n * uint step = uint endH"
  shows "volume_steps E P endH step runner start missing w = settle_each E P (windows start step n) runner missing w"
  using assms(2)
proof (induction n arbitrary: start runner missing w)
  case 0
  then have "start = endH" by (simp add: word_uint_eq_iff)
  then show ?case by (subst volume_steps.simps) simp
next
  case (Suc n)
  note step = window_step [OF assms(1) Suc.prems]
  show ?case
    by (subst volume_steps.simps) (simp add: step(1) Suc.IH [OF step(2)] cong: sum.case_cong)
qed

lemma settle_steps_windows:
  assumes "step \<noteq> 0" "uint start + int n * uint step = uint endH"
  shows "settle_steps E P latest endH step runner start missing w =
    settle_all E P (filter (\<lambda>(s, e). \<not> e < latest) (windows start step n)) runner missing w"
  using assms(2)
proof (induction n arbitrary: start runner missing w)
  case 0
  then have "start = endH" by (simp add: word_uint_eq_iff)
  then show ?case by (subst settle_steps.simps) simp
next
  case (Suc n)
  note step = window_step [OF assms(1) Suc.prems]
  have IH: "settle_steps E P latest endH step r (start + step) m =
      settle_all E P (filter (\<lambda>(s, e). \<not> e < latest) (windows (start + step) step n)) r m" for r m
    by (rule ext) (rule Suc.IH [OF step(2)])
  show ?case by (subst settle_steps.simps) (simp add: step(1) IH)
qed

lemma windows_tile:
  "step \<noteq> 0 \<Longrightarrow> uint start + int n * uint step = uint endH \<Longrightarrow> windows start step n \<noteq> [] \<Longrightarrow>
    fst (hd (windows start step n)) = start \<and> snd (last (windows start step n)) = endH"
proof (induction n arbitrary: start)
  case (Suc n)
  note step = window_step [OF Suc.prems(1,2)]
  show ?case
  proof (cases n)
    case 0
    with step show ?thesis by (simp add: word_uint_eq_iff)
  next
    case (Suc m)
    with Suc.IH [OF Suc.prems(1) step(2)] show ?thesis by simp
  qed
qed simp

lemma runner_of_cycles:
  assumes "runner_of P c a b = Inr r"
  shows "dr_byVolumeCycleLen r \<noteq> 0" "dr_byLiquidCycleLen r \<noteq> 0"
    "int (unat (dr_totalVolumeCycles r)) * uint (dr_byVolumeCycleLen r) = uint (dr_byLiquidCycleLen r)"
    "dr_totalVolumeRewards r = dr_byVolumeCycleRewards r * int (unat (dr_totalVolumeCycles r))"
    "dr_totalVolumeCycles r \<noteq> 0"
proof -
  show *: "dr_byVolumeCycleLen r \<noteq> 0" "dr_byLiquidCycleLen r \<noteq> 0"
    and "dr_totalVolumeRewards r = dr_byVolumeCycleRewards r * int (unat (dr_totalVolumeCycles r))"
    using assms by (auto simp: runner_of_def Let_def split: if_splits)
  from assms have "dr_byLiquidCycleLen r mod dr_byVolumeCycleLen r = 0"
      and q: "dr_totalVolumeCycles r = dr_byLiquidCycleLen r div dr_byVolumeCycleLen r"
    by (auto simp: runner_of_def Let_def split: if_splits del: mod_0_imp_dvd)
  then have "uint (dr_byLiquidCycleLen r) mod uint (dr_byVolumeCycleLen r) = 0"
    by (metis uint_mod uint_0_eq)
  then show m: "int (unat (dr_totalVolumeCycles r)) * uint (dr_byVolumeCycleLen r) = uint (dr_byLiquidCycleLen r)"
    using div_mult_mod_eq [of "uint (dr_byLiquidCycleLen r)" "uint (dr_byVolumeCycleLen r)"]
    by (simp add: q uint_div)
  show "dr_totalVolumeCycles r \<noteq> 0"
  proof
    assume "dr_totalVolumeCycles r = 0"
    with m have "uint (dr_byLiquidCycleLen r) = 0" by simp
    with *(2) show False by (simp add: word_uint_eq_iff)
  qed
qed

lemma initDistributer_runner_of:
  "initDistributer E P distCfg w = Some (Inr r, w') \<Longrightarrow> \<exists>a b. runner_of P distCfg a b = Inr r"
  by (auto simp: initDistributer_def split: Option.bind_splits sum.splits; blast)

text \<open>
  C22: Computing the volume rewards of a range with quick settlement settles exactly the cycles of
  the range, in order, up to the first error: the check of the range guarantees that it is
  divided into whole cycles, the first beginning at its start and the last ending at its end.
\<close>

theorem calcVolumeRewards_each_cycle:
  assumes "dr_quickSettleVolumeRewards r" "calc_volume calcType" "dr_byVolumeCycleLen r \<noteq> 0"
    and checked: "checkStartEndHeight r startH endH calcType = None"
  defines "cycles \<equiv> windows startH (dr_byVolumeCycleLen r) (unat ((endH - startH) div dr_byVolumeCycleLen r))"
  shows "calcVolumeRewards E P r startH endH w =
      do { ((res, r), w) \<leftarrow> settle_each E P cycles r 0 w;
           Some ((case res of Inl err \<Rightarrow> Some err | Inr missing \<Rightarrow> None, r), w) } \<and>
    cycles \<noteq> [] \<and> fst (hd cycles) = startH \<and> snd (last cycles) = endH"
proof -
  let ?len = "dr_byVolumeCycleLen r" and ?n = "unat ((endH - startH) div dr_byVolumeCycleLen r)"
  from assms(1,2) checked have lt: "startH < endH" and m: "(endH - startH) mod ?len = 0"
    by (auto simp: checkStartEndHeight_def split: if_splits)
  have d: "uint (endH - startH) = uint endH - uint startH"
    using lt by (intro word_diff_less_self) simp
  have "uint (endH - startH) mod uint ?len = 0" using m by (metis uint_mod uint_0_eq)
  then have n: "uint startH + int ?n * uint ?len = uint endH"
    using div_mult_mod_eq [of "uint (endH - startH)" "uint ?len"] d by (simp add: uint_div)
  have "?n \<noteq> 0"
  proof
    assume "?n = 0"
    with n have "uint startH = uint endH" by simp
    with lt show False by (simp add: word_uint_eq_iff [symmetric])
  qed
  then have ne: "cycles \<noteq> []" unfolding cycles_def by (cases ?n) auto
  from windows_tile [OF assms(3) n] ne have "fst (hd cycles) = startH \<and> snd (last cycles) = endH"
    unfolding cycles_def by simp
  moreover have "calcVolumeRewards E P r startH endH w =
      do { ((res, r), w) \<leftarrow> settle_each E P cycles r 0 w;
           Some ((case res of Inl err \<Rightarrow> Some err | Inr missing \<Rightarrow> None, r), w) }"
    by (simp add: calcVolumeRewards_def assms(1) cycles_def volume_steps_windows [OF assms(3) n])
  ultimately show ?thesis using ne by blast
qed

text \<open>
  C23: The runner settles a cycle of liquidity quickly by settling, in order, those of its cycles
  of volume that do not end before the latest block. Each has the rewards of one cycle, all of
  them together have the total rewards, and they fill the cycle of liquidity without a gap.
\<close>

theorem settleVolumeRewards_each_cycle:
  assumes init: "initDistributer E P distCfg w0 = Some (Inr r, w1)"
    and quick: "dr_quickSettleVolumeRewards r"
    and no_wrap: "uint start + uint (dr_byLiquidCycleLen r) < 2 ^ 64"
  defines "cycles \<equiv> windows start (dr_byVolumeCycleLen r) (unat (dr_totalVolumeCycles r))"
  shows "settleVolumeRewards E P r start (start + dr_byLiquidCycleLen r) w =
      do { (latest, w) \<leftarrow> calcLatestBlockNumberOrTimestamp E (dr_useTimeMeasurement r) w;
           ((missing, r), w) \<leftarrow> settle_all E P (filter (\<lambda>(s, e). \<not> e < latest) cycles) r 0 w;
           Some ((Inr missing, r), w) } \<and>
    int (length cycles) * dr_byVolumeCycleRewards r = dr_totalVolumeRewards r \<and>
    fst (hd cycles) = start \<and> snd (last cycles) = start + dr_byLiquidCycleLen r"
proof -
  from initDistributer_runner_of [OF init] obtain a b where "runner_of P distCfg a b = Inr r" by blast
  note cyc = runner_of_cycles [OF this]
  have n: "uint start + int (unat (dr_totalVolumeCycles r)) * uint (dr_byVolumeCycleLen r) =
      uint (start + dr_byLiquidCycleLen r)"
    by (simp only: cyc(3) uint_add_no_wrap [OF no_wrap])
  have "unat (dr_totalVolumeCycles r) \<noteq> 0" using cyc(5) by (simp add: unat_eq_0)
  then have ne: "cycles \<noteq> []" unfolding cycles_def by (cases "unat (dr_totalVolumeCycles r)") auto
  have len: "length (windows s d k) = k" for s d k by (induction k arbitrary: s) auto
  have "settleVolumeRewards E P r start (start + dr_byLiquidCycleLen r) w =
      do { (latest, w) \<leftarrow> calcLatestBlockNumberOrTimestamp E (dr_useTimeMeasurement r) w;
           ((missing, r), w) \<leftarrow> settle_all E P (filter (\<lambda>(s, e). \<not> e < latest) cycles) r 0 w;
           Some ((Inr missing, r), w) }"
    by (simp add: settleVolumeRewards_def quick cycles_def settle_steps_windows [OF cyc(1) n])
  moreover have "int (length cycles) * dr_byVolumeCycleRewards r = dr_totalVolumeRewards r"
    by (simp add: cycles_def len cyc(4))
  ultimately show ?thesis
    using windows_tile [OF cyc(1) n] ne unfolding cycles_def by blast
qed

text \<open>
  C20: The runner never broadcasts a transaction, not even an attempt, whatever it has settled:
  from its start, in every state its two goroutines can reach in any order of their turns.
\<close>

theorem runner_never_broadcasts:
  assumes "dist_Start E P flag w = Some s0" "(run_step E P)\<^sup>*\<^sup>* s0 s"
  shows "adds (\<lambda>e. \<not> is_send e) w (rs_world s) \<and> sent (rs_world s) = sent w"
proof -
  from assms(1) obtain distCfg r w1 where "initDistributer E P distCfg w = Some (Inr r, w1)"
      "run E flag r w1 = Some s0"
    by (auto simp: dist_Start_def split: Option.bind_splits if_splits sum.splits)
  then have "adds (\<lambda>e. \<not> is_send e) w (rs_world s0)"
    using onlyD [OF silent_initDistributer] silent_run adds_trans by blast
  with reachable_turns [OF assms(2)] have "adds (\<lambda>e. \<not> is_send e) w (rs_world s)"
    by (blast intro: adds_trans)
  then show ?thesis by (auto dest: adds_sent)
qed

text \<open>
  C24: The current cycle at the start of the runner is the one the latest stable block is in: it
  begins a whole number of cycles after the configured start, not after the latest block less
  the stable height, and the next cycle begins after that. (The configured start plus the stable
  height has passed.)
\<close>

theorem calcCurCycleStart_current:
  assumes "len \<noteq> 0" and header: "HeaderByNumber E w None = Inr h"
    and "latest = big_Uint64 (if t then h_Time h else h_Number h)"
    and "uint start + uint stb \<le> uint latest"
  shows "\<exists>c k. calcCurCycleStart E start stb len t w = Some (c, w @ [EvHeaderByNumber None]) \<and>
    uint c = uint start + int k * uint len \<and>
    uint c + uint stb \<le> uint latest \<and> uint latest < uint c + uint stb + uint len"
proof -
  have "calcLatestBlockNumberOrTimestamp E t w = Some (latest, w @ [EvHeaderByNumber None])"
    unfolding calcLatestBlockNumberOrTimestamp_def LoopGetLatestBlockHeader_def
    by (subst retry.simps) (simp add: rpc_HeaderByNumber_def header assms(3))
  then show ?thesis
    using cycle_start_bounds [OF assms(1,4)] by (auto simp: calcCurCycleStart_def)
qed


section \<open>Checked configurations\<close>

lemma checkExchange_loop_ok:
  "checkExchange_loop E exs p x t acc = Inr s \<Longrightarrow>
    (\<forall>ex \<in> set exs. IsHexAddress E (ex_Exchange ex)) \<and> s = acc + sum_list (map ex_TradeWeight exs)"
proof (induction exs arbitrary: p x t acc)
  case (Cons ex exs)
  from Cons.prems have "IsHexAddress E (ex_Exchange ex)"
      "\<exists>p x t. checkExchange_loop E exs p x t (acc + ex_TradeWeight ex) = Inr s"
    by (auto simp: ExchangeConfig_check_def Let_def split: option.splits if_splits)
  with Cons.IH show ?case by (fastforce simp: add.assoc)
qed simp

lemma sum_positive_weights:
  "sum_list (map ex_TradeWeight (filter (\<lambda>ex. ex_TradeWeight ex > 0) exs)) = sum_list (map ex_TradeWeight exs)"
  by (induction exs) (auto simp: word_gt_0)

lemma check_exchanges_None: "\<forall>x \<in> set xs. x \<noteq> [] \<Longrightarrow> check_exchanges P False xs = None"
  by (induction xs) auto

lemma CheckConfig_runner:
  assumes check: "LoadConfig E P0 c = Some P" and dist: "cf_Distribute (config P) = Some distCfg"
    and "dc_Enable distCfg"
  shows "IsHexAddress E (dc_RewardToken distCfg)" "volume_cycle distCfg \<noteq> 0" "liquid_cycle distCfg \<noteq> 0"
    "liquid_cycle distCfg mod volume_cycle distCfg = 0"
    "\<forall>ex \<in> set (exchanges P). IsHexAddress E (ex_Exchange ex)"
    "dc_TradeWeightIsPercentage distCfg \<Longrightarrow> sum_list (map ex_TradeWeight (exchanges P)) \<in> {0, 100}"
proof -
  from check obtain c1 where c1: "CheckConfig E (Some c) = Inr c1"
      "config P = c1\<lparr>cf_Stake := map_option (initStakersMap E) (cf_Stake c1)\<rparr>"
    by (auto simp: LoadConfig_def split: sum.splits)
  from c1(1) dist obtain sync d exs sync' where parts: "cf_Distribute c = Some d" "cf_Exchanges c = Some exs"
      "checkExchangeConfig E exs d = None" "checkDistributeConfig E sync d = (None, sync', distCfg)"
      "cf_Exchanges (config P) = Some exs"
    by (auto simp: CheckConfig_def Let_def c1(2) split: option.splits prod.splits if_splits)
  from parts(4) assms(3) have d: "DistributeConfig_check E sync d = (None, sync', distCfg)"
    by (auto simp: checkDistributeConfig_def split: if_splits)
  have same: "dc_RewardToken d = dc_RewardToken distCfg" "volume_cycle d = volume_cycle distCfg"
      "liquid_cycle d = liquid_cycle distCfg" "dc_TradeWeightIsPercentage d = dc_TradeWeightIsPercentage distCfg"
    using d by (auto simp: DistributeConfig_check_def volume_cycle_def liquid_cycle_def split: option.splits if_splits)
  from d have cyc: "checkCycle d = None" and "IsHexAddress E (dc_RewardToken d)"
    by (auto simp: DistributeConfig_check_def split: option.splits if_splits)
  then show "IsHexAddress E (dc_RewardToken distCfg)" by (simp add: same)
  from cyc show "volume_cycle distCfg \<noteq> 0" "liquid_cycle distCfg \<noteq> 0"
    by (auto simp: checkCycle_def Let_def same word_gt_0 split: if_splits)
  from cyc show "liquid_cycle distCfg mod volume_cycle distCfg = 0"
    by (auto simp: checkCycle_def Let_def same split: if_splits del: mod_0_imp_dvd)
  have exs: "exchanges P = exs" by (simp add: exchanges_def parts(5))
  from parts(3) show "\<forall>ex \<in> set (exchanges P). IsHexAddress E (ex_Exchange ex)"
    by (auto simp: checkExchangeConfig_def exs split: sum.splits if_splits dest: checkExchange_loop_ok)
  from parts(3) show "sum_list (map ex_TradeWeight (exchanges P)) \<in> {0, 100}" if "dc_TradeWeightIsPercentage distCfg"
    using that by (auto simp: checkExchangeConfig_def exs same split: sum.splits if_splits dest!: checkExchange_loop_ok)
qed

lemma Check_dry_no_sender: "Check E args True w = Some ((err, args'), w') \<Longrightarrow> ba_Sender args = [] \<Longrightarrow> err = None"
  by (auto simp: Check_def split: Option.bind_splits if_splits)

lemma getBuildTxArgs_ok: "getBuildTxArgs E distCfg w = Some (Inl err, w') \<Longrightarrow> False"
  by (auto simp: getBuildTxArgs_def Let_def zero_BuildTxArgs_def split: Option.bind_splits option.splits
      dest!: Check_dry_no_sender)


section \<open>A concrete runner\<close>

definition dist_env :: env where
  "dist_env = base_env\<lparr>FindId_SyncInfo := \<lambda>w k. Inr \<lparr>si_Key = k, si_Number = 2000, si_Hash = [], si_Timestamp = 0\<rparr>\<rparr>"

definition dist_cfg :: "bool \<Rightarrow> DistributeConfig" where
  "dist_cfg quick = zero_DistributeConfig\<lparr>dc_Enable := True, dc_RewardToken := ''9'', dc_StartHeight := 100,
     dc_StableHeight := 10, dc_ByLiquidCycle := 20, dc_ByVolumeCycle := 10, dc_ByLiquidRewards := ''40'',
     dc_ByVolumeRewards := ''20'', dc_QuickSettleVolumeRewards := quick\<rparr>"

definition dist_config :: "bool \<Rightarrow> Config" where
  "dist_config quick = \<lparr>cf_MongoDB = Some \<lparr>DBURL = [], DBName = [], UserName = [], Password = []\<rparr>,
     cf_Gateway = Some \<lparr>APIAddress = [], AverageBlockTime = 0\<rparr>,
     cf_Sync = Some \<lparr>sy_JobCount = 0, sy_WaitInterval = 0, sy_Stable = 30, sy_UpdateLiquidity = False,
       sy_UpdateVolume = False, sy_ScanAllExchange = False, sy_RecordTokenAccount = False\<rparr>,
     cf_Distribute = Some (dist_cfg quick),
     cf_Exchanges = Some [\<lparr>ex_Pairs = ''A'', ex_Exchange = ''7'', ex_Token = ''17'', ex_CreationHeight = 1,
       ex_LiquidWeight = 1, ex_TradeWeight = 1\<rparr>],
     cf_Factories = [], cf_Stake = None, cf_Routers = []\<rparr>"

definition dist_params :: "bool \<Rightarrow> params" where
  "dist_params quick = test_params\<lparr>config := dist_config quick\<rparr>"

definition dist_args :: BuildTxArgs where
  "dist_args = zero_BuildTxArgs\<lparr>ba_Sender := ''0'', ba_Nonce := Some 0, ba_GasLimit := Some 90000,
     ba_GasPrice := Some 1, ba_chainID := Some 32659, ba_chainSigner := Some 32659\<rparr>"

definition dist_runner :: "bool \<Rightarrow> distributeRunner" where
  "dist_runner quick = \<lparr>dr_liquidExchanges = [''7''], dr_liquidWeights = [1], dr_tradeExchanges = [''7''],
     dr_tradeWeights = [1], dr_sampleHeight = 0, dr_rewardToken = ''9'', dr_start = 100, dr_stable = 10,
     dr_byLiquidCycleLen = 20, dr_byLiquidCycleRewards = 40, dr_byVolumeCycleLen = 10,
     dr_byVolumeCycleRewards = 20, dr_totalVolumeCycles = 2, dr_totalVolumeRewards = 40,
     dr_quickSettleVolumeRewards = quick, dr_useTimeMeasurement = False,
     dr_isArchiveMode = False, dr_tradeWeightIsPercentage = False, dr_byLiquidArgs = dist_args,
     dr_byVolumeArgs = dist_args\<rparr>"

lemma no_sends_sent: "adds (\<lambda>e. \<not> is_send e) [] w \<Longrightarrow> sent w = []"
  by (auto dest: adds_sent)

lemma zero_digits: "nat_digits 0 = ''0''"
  by code_simp

lemma dist_getBuildTxArgs:
  assumes "dc_GasLimit dist = 0" "dc_GasPrice dist = []" "sent w = []"
  shows "getBuildTxArgs dist_env dist w = Some (Inr dist_args, w @ [EvNetworkID, EvPendingNonceAt 0, EvSuggestGasPrice])"
  using assms
  by (subst getBuildTxArgs_def Check_def setDefaults_def)+ 
   (simp add: Let_def zero_BuildTxArgs_def dist_env_def base_env_def setDefaults_loop.simps GetChainID_def GetAccountNonce_def
      SuggestGasPrice_def dist_args_def zero_digits)

lemma dist_numbers: "GetBigIntFromString ''40'' = Inr 40" "GetBigIntFromString ''20'' = Inr 20"
  by code_simp+

definition dist_log :: world where
  "dist_log = [EvNetworkID, EvPendingNonceAt 0, EvSuggestGasPrice, EvNetworkID, EvPendingNonceAt 0, EvSuggestGasPrice]"

lemma dist_init: "initDistributer dist_env (dist_params quick) (dist_cfg quick) [] = Some (Inr (dist_runner quick), dist_log)"
  by (simp add: initDistributer_def dist_getBuildTxArgs dist_cfg_def zero_DistributeConfig_def runner_of_def Let_def
     exchanges_def dist_params_def dist_config_def test_params_def GetByLiquidCycleRewards_def GetByVolumeCycleRewards_def
     bigint_or_zero_def dist_numbers dist_runner_def dist_log_def)

definition dist_state :: "bool \<Rightarrow> run_state" where
  "dist_state quick = \<lparr>rs_runner = dist_runner quick, rs_volumeStart = 980, rs_liquidStart = 980,
     rs_world = dist_log @ [EvSyncProgress, EvHeaderByNumber None]\<rparr>"

lemma dist_run: "run dist_env (\<lambda>w. True) (dist_runner quick) dist_log = Some (dist_state quick)"
  by (simp add: run_def waitNodeSyncFinish.simps WaitSyncToLatest.simps GetSyncProgress_def retry.simps rpc_SyncProgress_def
    calcCurCycleStart_def calcLatestBlockNumberOrTimestamp_def LoopGetLatestBlockHeader_def rpc_HeaderByNumber_def
    dist_env_def base_env_def base_header_def dist_runner_def dist_state_def cycle_start_def big_Uint64_def)

lemma dist_start: "dist_Start dist_env (dist_params quick) (\<lambda>w. True) [] = Some (dist_state quick)"
proof -
  have "cf_Distribute (config (dist_params quick)) = Some (dist_cfg quick)" "dc_Enable (dist_cfg quick)"
    by (simp_all add: dist_params_def dist_config_def dist_cfg_def)
  then show ?thesis by (simp add: dist_Start_def dist_init dist_run)
qed

lemma dist_wait: "e + s \<le> 2000 \<Longrightarrow> waitCycleEnd dist_env e s n False w = Some ((), w @ [EvFind tbSyncInfo KeyOfLatestSyncInfo])"
  by (subst waitCycleEnd.simps) (simp add: FindLatestSyncInfo_def dist_env_def)

text \<open>A cycle without any volume: both its cycles of volume are counted as missing.\<close>

definition dist_volume_option :: Opt where
  "dist_volume_option = volume_option (dist_runner False) 40 980 1000\<lparr>o_byWhat := byVolumeMethodID\<rparr>"

definition dist_world :: world where
  "dist_world = rs_world (dist_state False) @ [EvFind tbSyncInfo KeyOfLatestSyncInfo]"

lemma dist_check:
  "\<exists>w'. checkAndInit dist_env (dist_params False) dist_volume_option w0 = Some (None, w')" if "w0 = dist_world"
proof -
  have "map_option fst (checkAndInit dist_env (dist_params False) dist_volume_option dist_world) = Some None"
    by code_simp
  then show ?thesis unfolding that by auto
qed

lemma dist_single: "\<exists>w'. getSingleCycleRewardsFromDB dist_env (dist_params False) sr ''7'' s e t a w = Some ([], w')"
proof -
  have "ConvertToSortedSlice [] = Some []" by code_simp
  then show ?thesis
    by (simp add: getSingleCycleRewardsFromDB_def FindAccountVolumes_def dist_env_def base_env_def Let_def map_filter_def)
qed

lemma dist_steps:
  assumes "o_EndHeight opt = 1000" "o_StepCount opt = 10"
  shows "\<exists>w'. steps_loop dist_env (dist_params False) opt sr ''7'' 980 [] [] w = Some (([], [980, 990]), w')"
proof -
  obtain w1 where 1: "getSingleCycleRewardsFromDB dist_env (dist_params False) sr ''7'' 980 990
      (o_UseTimeMeasurement opt) (o_ArchiveMode opt) w = Some ([], w1)" using dist_single by blast
  obtain w2 where 2: "getSingleCycleRewardsFromDB dist_env (dist_params False) sr ''7'' 990 1000
      (o_UseTimeMeasurement opt) (o_ArchiveMode opt) w1 = Some ([], w2)" using dist_single by blast
  show ?thesis
    by (subst steps_loop.simps, simp add: assms 1, subst steps_loop.simps, simp add: assms 2, subst steps_loop.simps, simp add: assms)
qed

lemma dist_ByVolume:
  assumes "w0 = dist_world"
  shows "\<exists>opt' w'. ByVolume dist_env (dist_params False) (volume_option (dist_runner False) 40 980 1000) w0 = Some ((None, opt'), w')
    \<and> o_noVolumes opt' = 2 \<and> o_BuildTxArgs opt' = dist_args"
proof -
  have opt: "o_TotalValue dist_volume_option = Some 40" "o_Exchanges dist_volume_option = [''7'']"
      "o_InputFiles dist_volume_option = []" "o_noVolumeStartHeights dist_volume_option = []"
      "o_StepCount dist_volume_option = 10" "o_StartHeight dist_volume_option = 980"
      "o_EndHeight dist_volume_option = 1000" "\<not> o_hasNoMissingVolumes dist_volume_option"
      "o_StepReward dist_volume_option = Some 20" "o_BuildTxArgs dist_volume_option = dist_args"
    by (simp_all add: dist_volume_option_def volume_option_def zero_Option_def dist_runner_def)
  obtain w1 where check: "checkAndInit dist_env (dist_params False) dist_volume_option w0 = Some (None, w1)"
    using dist_check [OF assms] by blast
  obtain w2 where steps: "steps_loop dist_env (dist_params False) dist_volume_option (Some 20) ''7'' 980 [] [] w1
      = Some (([], [980, 990]), w2)" using dist_steps opt by blast
  have "o_TotalValue (volume_option (dist_runner False) 40 980 1000) = Some 40" by (simp add: volume_option_def)
  moreover have "ConvertToSortedSlice [] = Some []" by code_simp
  ultimately show ?thesis
    by (simp add: ByVolume_def Let_def check GetAccountsAndRewards_def GetAccountsAndRewardsFromDB_def
      getInputFileName_def opt steps updateNoVolumes_def volume_total_def deinit_def flip: dist_volume_option_def)
qed

lemma dist_turn:
  "\<exists>w'. volume_turn dist_env (dist_params False) (dist_runner False) 980 (rs_world (dist_state False))
     = Some ((1000, dist_runner False), w')"
proof -
  obtain opt' w' where run: "ByVolume dist_env (dist_params False) (volume_option (dist_runner False) 40 980 1000) dist_world
      = Some ((None, opt'), w')" "o_BuildTxArgs opt' = dist_args" using dist_ByVolume by blast
  have r: "dr_byLiquidCycleLen (dist_runner False) = 20" "\<not> dr_quickSettleVolumeRewards (dist_runner False)"
      "dr_stable (dist_runner False) = 10" "\<not> dr_useTimeMeasurement (dist_runner False)"
      "dr_totalVolumeRewards (dist_runner False) = 40" "dr_tradeExchanges (dist_runner False) \<noteq> []"
      "dist_runner False\<lparr>dr_byVolumeArgs := dist_args\<rparr> = dist_runner False"
    by (simp_all add: dist_runner_def)
  show ?thesis
    by (simp add: volume_turn_def settleVolumeRewards_def sendVolumeRewards_def r dist_wait run flip: dist_world_def)
qed

definition dist_next :: "world \<Rightarrow> run_state" where
  "dist_next w = (dist_state False)\<lparr>rs_volumeStart := 1000, rs_world := w\<rparr>"

lemma dist_step: "\<exists>w'. run_step dist_env (dist_params False) (dist_state False) (dist_next w')"
proof -
  obtain w' where turn: "volume_turn dist_env (dist_params False) (dist_runner False) 980 (rs_world (dist_state False))
     = Some ((1000, dist_runner False), w')" using dist_turn by blast
  have s: "rs_runner (dist_state False) = dist_runner False" "rs_volumeStart (dist_state False) = 980"
      "dist_state False\<lparr>rs_runner := dist_runner False, rs_volumeStart := 1000, rs_world := w'\<rparr> = dist_next w'"
      "volume_enabled (dist_runner False)"
    by (simp_all add: dist_state_def dist_next_def volume_enabled_def dist_runner_def)
  from run_step.volume [of "dist_state False" dist_env "dist_params False" 1000 "dist_runner False" w'] turn
  show ?thesis by (auto simp: s)
qed

theorem runner_never_broadcasts_witness:
  "\<exists>s. (run_step dist_env (dist_params False))\<^sup>*\<^sup>* (dist_state False) s \<and> rs_volumeStart s = 1000 \<and> sent (rs_world s) = []"
proof -
  obtain w' where step: "run_step dist_env (dist_params False) (dist_state False) (dist_next w')" using dist_step by blast
  then have "(run_step dist_env (dist_params False))\<^sup>*\<^sup>* (dist_state False) (dist_next w')" by blast
  with runner_never_broadcasts [OF dist_start this] show ?thesis by (auto simp: dist_next_def)
qed


theorem waitCycleEnd_reached_witness:
  "\<exists>w1. waitCycleEnd dist_env 1000 10 60000 False [] = Some ((), w1 @ [EvFind tbSyncInfo KeyOfLatestSyncInfo])"
  using waitCycleEnd_reached [of 0 dist_env 1000 10 False 60000 "[]"] by (auto simp: dist_env_def sync_time_def)

theorem calcCurCycleStart_current_witness:
  "\<exists>c. calcCurCycleStart base_env 100 10 20 False [] = Some (c, [EvHeaderByNumber None]) \<and> uint c + 10 \<le> 1000 \<and> 1000 < uint c + 30"
  using calcCurCycleStart_current [of 20 base_env "[]" "base_header None" 1000 False 100 10]
  by (auto simp: base_env_def base_header_def big_Uint64_def)

lemma dist_windows:
  "windows 100 10 3 = [(100, 110), (110, 120), (120, 130)]" "windows 980 10 2 = [(980, 990), (990, 1000)]"
  by code_simp+

theorem calcVolumeRewards_each_cycle_witness:
  "calcVolumeRewards dist_env (dist_params True) (dist_runner True) 100 130 [] =
     do { ((res, r), w) \<leftarrow> settle_each dist_env (dist_params True) [(100, 110), (110, 120), (120, 130)] (dist_runner True) 0 [];
          Some ((case res of Inl err \<Rightarrow> Some err | Inr missing \<Rightarrow> None, r), w) }"
proof -
  have "dr_quickSettleVolumeRewards (dist_runner True)" "calc_volume CalcVolumeRewards"
      "dr_byVolumeCycleLen (dist_runner True) \<noteq> 0"
      "checkStartEndHeight (dist_runner True) 100 130 CalcVolumeRewards = None"
    by (simp_all add: dist_runner_def calc_volume_def calc_liquid_def checkStartEndHeight_def CalcVolumeRewards_def
        CalcLiquidRewards_def CalcBothRewards_def)
  from calcVolumeRewards_each_cycle [OF this, of dist_env "dist_params True" "[]"] show ?thesis
    by (simp add: dist_runner_def dist_windows)
qed

theorem settleVolumeRewards_each_cycle_witness:
  "settleVolumeRewards dist_env (dist_params True) (dist_runner True) 980 1000 [] =
     do { (latest, w) \<leftarrow> calcLatestBlockNumberOrTimestamp dist_env False [];
          ((missing, r), w) \<leftarrow> settle_all dist_env (dist_params True)
            (filter (\<lambda>(s, e). \<not> e < latest) [(980, 990), (990, 1000)]) (dist_runner True) 0 w;
          Some ((Inr missing, r), w) }"
proof -
  have "dr_quickSettleVolumeRewards (dist_runner True)" by (simp add: dist_runner_def)
  from settleVolumeRewards_each_cycle [OF dist_init this, of 980 "[]"] show ?thesis
    by (simp add: dist_runner_def dist_windows)
qed


end
