(* ===== verification/Parse_Block.thy ===== *)
theory Parse_Block
  imports Sync
begin

text \<open>
  \<open>syncer/parse.go\<close>: the parser of a worker. It takes the messages in order, starts one goroutine
  for the block and one per transaction, and waits for all of them after every \<open>maxParseBlocks\<close>
  blocks. A goroutine is a job; the jobs that are started and not finished are a multiset, of
  which any one may run next. The parameters of the program, which a job may change (the cached
  router addresses), are part of the state.
\<close>

section \<open>Blocks and transactions\<close>

definition parseBlock :: "env \<Rightarrow> sync_vars \<Rightarrow> worker \<Rightarrow> Block \<Rightarrow> unit action" where
  "parseBlock E G wk block w = do {
     let hash = Hash_Hex E (bk_Hash block);
     let mb = \<lparr>mb_Key = hash, mb_Number = bk_Number block, mb_Hash = hash,
       mb_ParentHash = Hash_Hex E (bk_ParentHash block), mb_Nonce = fmt_u64 (bk_Nonce block),
       mb_Miner = ToLower (Address_String E (bk_Coinbase block)), mb_Difficulty = big_String (bk_Difficulty block),
       mb_GasLimit = bk_GasLimit block, mb_GasUsed = bk_GasUsed block, mb_Timestamp = big_Uint64 (bk_Time block)\<rparr>;
     (_, w) \<leftarrow> TryDoTimes (AddBlock E mb (overwrite G)) w;
     if wk_end wk = 0 \<and> hasSyncToLatest G
     then do {
       (_, w) \<leftarrow> TryDoTimes (UpdateSyncInfo E (mb_Number mb) (mb_Hash mb) (mb_Timestamp mb)) w;
       Some ((), w)
     }
     else Some ((), w)
   }"

text \<open>The sender is recovered from the signature by the chain library.\<close>

definition getTxSender :: "Transaction \<Rightarrow> address" where
  "getTxSender tx = tx_Sender tx"

definition new_MgoTransaction :: MgoTransaction where
  "new_MgoTransaction = \<lparr>mt_Key = [], mt_Hash = [], mt_BlockNumber = 0, mt_BlockHash = [], mt_TransactionIndex = 0,
     mt_From = [], mt_To = [], mt_Value = [], mt_Nonce = 0, mt_GasLimit = 0, mt_GasUsed = 0, mt_GasPrice = [],
     mt_Status = 0, mt_Timestamp = 0, mt_Erc20Receipts = [], mt_ExchangeReceipts = [], mt_ExchangeV2Receipts = []\<rparr>"

text \<open>The document of a transaction before its logs are read.\<close>

definition tx_document :: "env \<Rightarrow> nat \<Rightarrow> Transaction \<Rightarrow> Block \<Rightarrow> Receipt option \<Rightarrow> MgoTransaction" where
  "tx_document E i tx block receipt =
     (let hash = Hash_Hex E (tx_Hash tx)
      in new_MgoTransaction\<lparr>mt_Key := hash, mt_Hash := hash, mt_Nonce := tx_Nonce tx,
        mt_BlockHash := Hash_Hex E (bk_Hash block), mt_BlockNumber := bk_Number block, mt_TransactionIndex := int i,
        mt_From := ToLower (Address_String E (getTxSender tx)),
        mt_To := (case tx_To tx of None \<Rightarrow> ''nil'' | Some a \<Rightarrow> ToLower (Address_String E a)),
        mt_Value := big_String (tx_Value tx), mt_GasLimit := tx_Gas tx, mt_GasPrice := big_String (tx_GasPrice tx),
        mt_GasUsed := (case receipt of None \<Rightarrow> 0 | Some r \<Rightarrow> rc_GasUsed r),
        mt_Status := (case receipt of None \<Rightarrow> 0 | Some r \<Rightarrow> rc_Status r),
        mt_Timestamp := big_Uint64 (bk_Time block)\<rparr>)"

text \<open>A missing entry of \<open>receipts\<close> panics (index out of range).\<close>

definition parseTx ::
  "env \<Rightarrow> sync_vars \<Rightarrow> nat \<Rightarrow> Transaction \<Rightarrow> Block \<Rightarrow> Receipt option list \<Rightarrow> params \<Rightarrow> params action" where
  "parseTx E G i tx block receipts P w =
     (if i \<ge> length receipts then None
      else if onlySyncAccount G then do {
        ((_, _, P), w) \<leftarrow> parseReceipt E G P new_MgoTransaction (receipts ! i) w;
        Some (P, w)
      }
      else do {
        let receipt = receipts ! i;
        let mt = tx_document E i tx block receipt;
        ((savedb, mt, P), w) \<leftarrow>
          (case receipt of
             None \<Rightarrow> Some ((False, mt, P), w)
           | Some r \<Rightarrow> if rc_Logs r = [] then Some ((False, mt, P), w) else parseReceipt E G P mt receipt w);
        if savedb
        then do {
          (_, w) \<leftarrow> TryDoTimes (AddTransaction E mt (overwrite G)) w;
          Some (P, w)
        }
        else Some (P, w)
      })"

section \<open>Jobs in any order\<close>

datatype job = BlockJob Block | TxJob nat Transaction Block "Receipt option list"

definition parseTransactions :: "Block \<Rightarrow> Receipt option list \<Rightarrow> job list" where
  "parseTransactions block receipts =
     map (\<lambda>(i, tx). TxJob i tx block receipts) (enumerate 0 (bk_Transactions block))"

definition jobs_of :: "sync_vars \<Rightarrow> message \<Rightarrow> job list" where
  "jobs_of G = (\<lambda>(block, receipts).
     (if onlySyncAccount G then [] else [BlockJob block]) @ parseTransactions block receipts)"

fun run_job :: "env \<Rightarrow> sync_vars \<Rightarrow> worker \<Rightarrow> job \<Rightarrow> params \<Rightarrow> params action" where
  "run_job E G wk (BlockJob block) P w = do { (_, w) \<leftarrow> parseBlock E G wk block w; Some (P, w) }"
| "run_job E G wk (TxJob i tx block receipts) P w = parseTx E G i tx block receipts P w"

definition maxParseBlocks :: nat where "maxParseBlocks = 1000"

record parser =
  ps_queue :: "message list"
  ps_count :: nat
  ps_jobs :: "job multiset"
  ps_params :: params
  ps_world :: world

text \<open>
  \<open>startParser\<close>: a message is taken and its jobs start; after \<open>maxParseBlocks\<close> messages the parser
  waits until no job is left; at any time one of the started jobs runs.
\<close>

inductive parser_step :: "env \<Rightarrow> sync_vars \<Rightarrow> worker \<Rightarrow> parser \<Rightarrow> parser \<Rightarrow> bool" for E G wk where
  take: "ps_queue s = msg # rest \<Longrightarrow> ps_count s < maxParseBlocks \<Longrightarrow>
    parser_step E G wk s (s\<lparr>ps_queue := rest, ps_count := Suc (ps_count s), ps_jobs := ps_jobs s + mset (jobs_of G msg)\<rparr>)"
| wait: "ps_count s = maxParseBlocks \<Longrightarrow> ps_jobs s = {#} \<Longrightarrow> parser_step E G wk s (s\<lparr>ps_count := 0\<rparr>)"
| job: "ps_jobs s = add_mset j rest \<Longrightarrow> run_job E G wk j (ps_params s) (ps_world s) = Some (P, w) \<Longrightarrow>
    parser_step E G wk s (s\<lparr>ps_jobs := rest, ps_params := P, ps_world := w\<rparr>)"

inductive_cases parser_stepE: "parser_step E G wk s t"

definition startParser :: "message list \<Rightarrow> params \<Rightarrow> world \<Rightarrow> parser" where
  "startParser msgs P w = \<lparr>ps_queue = msgs, ps_count = 0, ps_jobs = {#}, ps_params = P, ps_world = w\<rparr>"

text \<open>The parser has returned: no message and no job is left.\<close>

definition parsed :: "parser \<Rightarrow> bool" where
  "parsed s \<longleftrightarrow> ps_queue s = [] \<and> ps_jobs s = {#}"

end
