(* ===== verification/Parser.thy ===== *)
theory Parser
  imports Parse_Block Block_Search
begin

text \<open>
  Properties of the parser: what it stores does not depend on the order in which the goroutines
  run, the number of blocks in work is bounded, and every run ends.
\<close>

section \<open>Stored documents\<close>

fun stored_doc :: "event \<Rightarrow> mgo_doc option" where
  "stored_doc (EvInsert d None) = Some d"
| "stored_doc (EvUpsertId k d None) = Some d"
| "stored_doc _ = None"

definition stored :: "world \<Rightarrow> mgo_doc list" where
  "stored w = List.map_filter stored_doc w"

lemma stored_simps [simp]:
  "stored [] = []" "stored (w @ w') = stored w @ stored w'"
  "stored (e # w) = (case stored_doc e of None \<Rightarrow> stored w | Some d \<Rightarrow> d # stored w)"
  by (simp_all add: stored_def map_filter_def split: option.split)

text \<open>Writes succeed, and the daily volumes, which are read before they are written, are off.\<close>

definition good_writes :: "env \<Rightarrow> bool" where
  "good_writes E \<longleftrightarrow> (\<forall>w d. Insert E w d = None) \<and> (\<forall>w k d. UpsertId E w k d = None) \<and>
     (\<forall>w c k u. UpdateId E w c k u = None)"

definition no_daily_volumes :: "params \<Rightarrow> bool" where
  "no_daily_volumes P \<longleftrightarrow> (\<forall>c. cf_Sync (config P) = Some c \<longrightarrow> \<not> sy_UpdateVolume c)"

section \<open>Actions that do not look at the world\<close>

text \<open>Such an action returns the same and appends the same events after any history.\<close>

definition oblivious :: "'a action \<Rightarrow> bool" where
  "oblivious f \<longleftrightarrow> (\<forall>w. f w = map_option (\<lambda>(r, es). (r, w @ es)) (f []))"

lemma obliviousI: "(\<And>w. f w = map_option (\<lambda>(r, es). (r, w @ es)) x) \<Longrightarrow> oblivious f"
  unfolding oblivious_def by (cases x) (auto split: prod.splits)

lemma oblivious_return: "oblivious (\<lambda>w. Some (x, w))"
  by (rule obliviousI [of _ "Some (x, [])"]) simp

lemma oblivious_None: "oblivious (\<lambda>w. None)"
  by (rule obliviousI [of _ None]) simp

lemma oblivious_event: "oblivious (\<lambda>w. Some (x, w @ es))"
  by (rule obliviousI [of _ "Some (x, es)"]) simp

lemma oblivious_bind: "oblivious f \<Longrightarrow> (\<And>x. oblivious (g x)) \<Longrightarrow> oblivious (\<lambda>w. f w \<bind> (\<lambda>(x, w). g x w))"
proof -
  assume f: "oblivious f" and g: "\<And>x. oblivious (g x)"
  have "f w \<bind> (\<lambda>(x, w). g x w) =
      map_option (\<lambda>(r, es). (r, w @ es)) (f [] \<bind> (\<lambda>(x, es). map_option (\<lambda>(r, es'). (r, es @ es')) (g x [])))" for w
  proof (cases "f []")
    case None
    then show ?thesis using f by (simp add: oblivious_def)
  next
    case (Some p)
    obtain x es where p: "p = (x, es)" by (cases p)
    have "f w = Some (x, w @ es)" using f Some p by (simp add: oblivious_def)
    moreover have "g x (w @ es) = map_option (\<lambda>(r, es'). (r, (w @ es) @ es')) (g x [])"
      using g [of x] unfolding oblivious_def by blast
    ultimately show ?thesis by (cases "g x []") (auto simp: Some p)
  qed
  then show ?thesis by (rule obliviousI)
qed

lemma oblivious_bind_pure: "(\<And>x. oblivious (g x)) \<Longrightarrow> oblivious (\<lambda>w. m \<bind> (\<lambda>x. g x w))"
  by (cases m) (simp_all add: oblivious_None)

lemma oblivious_if: "oblivious f \<Longrightarrow> oblivious g \<Longrightarrow> oblivious (\<lambda>w. if b then f w else g w)"
  by (cases b) simp_all

lemma oblivious_let: "(\<And>x. oblivious (f x)) \<Longrightarrow> oblivious (\<lambda>w. let x = v in f x w)"
  by (simp add: Let_def)

lemma oblivious_case_option: "oblivious f \<Longrightarrow> (\<And>x. oblivious (g x)) \<Longrightarrow> oblivious (\<lambda>w. case m of None \<Rightarrow> f w | Some x \<Rightarrow> g x w)"
  by (cases m) simp_all

lemma oblivious_case_prod: "(\<And>a b. oblivious (f a b)) \<Longrightarrow> oblivious (\<lambda>w. case p of (a, b) \<Rightarrow> f a b w)"
  by (cases p) simp

lemma oblivious_case_prod': "(\<And>a b. oblivious (f a b)) \<Longrightarrow> oblivious (case p of (a, b) \<Rightarrow> f a b)"
  by (simp split: prod.split)

lemmas oblivious_rules = oblivious_let oblivious_return oblivious_None oblivious_event oblivious_bind oblivious_bind_pure
  oblivious_case_option oblivious_if oblivious_case_prod oblivious_case_prod'

lemma oblivious_after: "oblivious f \<Longrightarrow> oblivious (\<lambda>w. f (w @ es))"
proof -
  assume "oblivious f"
  then have "f (w @ es) = map_option (\<lambda>(r, es'). (r, (w @ es) @ es')) (f [])" for w
    unfolding oblivious_def by blast
  then have "f (w @ es) = map_option (\<lambda>(r, es). (r, w @ es)) (map_option (\<lambda>(r, es'). (r, es @ es')) (f []))" for w
    by (cases "f []") auto
  then show ?thesis by (rule obliviousI)
qed

lemma oblivious_TryDoTimes: "oblivious f \<Longrightarrow> oblivious (TryDoTimes f)"
proof -
  assume f: "oblivious f"
  have "oblivious (TryDoTimes_loop n f err)" for n err
  proof (induction n arbitrary: err)
    case 0
    have "TryDoTimes_loop 0 f err = (\<lambda>w. Some (err, w))" by (rule ext) simp
    then show ?case by (simp only: oblivious_return)
  next
    case (Suc n)
    show ?case unfolding TryDoTimes_loop_Suc
      by (rule oblivious_bind f oblivious_if oblivious_return oblivious_after Suc.IH)+
  qed
  then show ?thesis unfolding TryDoTimes_def [abs_def] .
qed

lemma oblivious_writes:
  assumes "good_writes E"
  shows "oblivious (db_Insert E d)" "oblivious (db_UpsertId E k d)" "oblivious (db_UpdateId E c k u)"
  using assms unfolding good_writes_def db_Insert_def [abs_def] db_UpsertId_def [abs_def] db_UpdateId_def [abs_def] Let_def
  by (simp_all only: oblivious_event)

lemma oblivious_adds:
  assumes "good_writes E"
  shows "oblivious (AddBlock E mb ow)" "oblivious (AddTransaction E mt ow)" "oblivious (AddVolumeHistory E mh ow)"
    "oblivious (AddAccount E ma)" "oblivious (AddTokenAccount E ta)" "oblivious (UpdateSyncInfo E n h t)"
  unfolding AddBlock_def [abs_def] AddTransaction_def [abs_def] AddVolumeHistory_def [abs_def]
    AddAccount_def [abs_def] AddTokenAccount_def [abs_def] UpdateSyncInfo_def [abs_def]
  by (rule oblivious_writes [OF assms] oblivious_rules)+

lemma oblivious_records:
  assumes "good_writes E"
  shows "oblivious (recordAccounts E exchange pairs account)" "oblivious (recordTokenAccounts E P token account)"
    "oblivious (recordAccountVoumes E G P mt exr topic)"
proof -
  show *: "oblivious (recordAccounts E exchange pairs account)" for exchange pairs account
    unfolding recordAccounts_def [abs_def]
    by (rule oblivious_TryDoTimes oblivious_adds [OF assms] oblivious_rules)+
  show "oblivious (recordTokenAccounts E P token account)"
    unfolding recordTokenAccounts_def [abs_def]
    by (rule * oblivious_TryDoTimes oblivious_adds [OF assms] oblivious_rules)+
  show "oblivious (recordAccountVoumes E G P mt exr topic)"
    unfolding recordAccountVoumes_def [abs_def]
    by (rule oblivious_TryDoTimes oblivious_adds [OF assms] oblivious_rules)+
qed

lemma oblivious_updateVolumes:
  assumes "no_daily_volumes P"
  shows "oblivious (updateVolumes E G P mt exr topic)"
proof -
  have "updateVolumes E G P mt exr topic = (\<lambda>w. if onlySyncAccount G \<or> cf_Sync (config P) \<noteq> None then Some ((), w) else None)"
    using assms by (intro ext) (auto simp: updateVolumes_def no_daily_volumes_def)
  then show ?thesis by (simp only: oblivious_rules)
qed

lemma oblivious_parse_log:
  assumes "good_writes E" "no_daily_volumes P"
  shows "oblivious (parse_log E G P mt idx rlog)"
  unfolding parse_log_def [abs_def] Let_def addExchangeReceipt_def [abs_def] addErc20Receipt_def [abs_def]
  by (rule oblivious_records [OF assms(1)] oblivious_updateVolumes [OF assms(2)] oblivious_rules)+

section \<open>The cached routers\<close>

text \<open>
  A job changes of the parameters only the cached router addresses. \<open>warm\<close>: the parameters with
  that cache filled; in them a job returns them unchanged and does the same.
\<close>

definition warm :: "env \<Rightarrow> params \<Rightarrow> params" where
  "warm E P = snd (GetRouters E P)"

definition warmed :: "env \<Rightarrow> ((bool \<times> MgoTransaction \<times> params) \<times> world) option \<Rightarrow> ((bool \<times> MgoTransaction \<times> params) \<times> world) option" where
  "warmed E = map_option (\<lambda>((save, mt, P), w). ((save, mt, warm E P), w))"

lemma warmed_simps [simp]:
  "warmed E None = None" "warmed E (Some ((save, mt, P), w)) = Some ((save, mt, warm E P), w)"
  by (simp_all add: warmed_def)

lemma warm_fields [simp]:
  "config (warm E P) = config P" "AllExchanges (warm E P) = AllExchanges P" "AllTokens (warm E P) = AllTokens P"
  "exchanges (warm E P) = exchanges P" "warm E (warm E P) = warm E P"
  "GetRouters E (warm E P) = (fst (GetRouters E P), warm E P)"
  by (simp_all add: warm_def GetRouters_def exchanges_def Let_def split: option.split)

lemma warm_lookups [simp]:
  "IsScanAllExchange (warm E P) = IsScanAllExchange P" "IsRecordTokenAccount (warm E P) = IsRecordTokenAccount P"
  "GetExchangePairs (warm E P) = GetExchangePairs P" "GetExchangeToken (warm E P) = GetExchangeToken P"
  "IsConfigedExchange (warm E P) = IsConfigedExchange P" "IsConfigedToken (warm E P) = IsConfigedToken P"
  "IsInAllExchanges (warm E P) = IsInAllExchanges P" "IsInAllTokenAndExchanges (warm E P) = IsInAllTokenAndExchanges P"
  "IsConfigedRouter E (warm E P) = (\<lambda>router. (fst (IsConfigedRouter E P router), warm E P))"
  "no_daily_volumes (warm E P) = no_daily_volumes P"
  by (simp_all add: IsScanAllExchange_def IsRecordTokenAccount_def GetExchangePairs_def GetExchangeToken_def
      IsConfigedExchange_def IsConfigedToken_def GetConfigedExchange_def IsInAllExchanges_def
      IsInAllTokenAndExchanges_def IsInAllTokens_def no_daily_volumes_def IsConfigedRouter_def
      fun_eq_iff split_def Let_def)

lemma warm_entries [simp]:
  "recordTokenAccounts E (warm E P) = recordTokenAccounts E P"
  "exchange_receipt E (warm E P) = exchange_receipt E P"
  "volume_record E (warm E P) = volume_record E P"
  unfolding recordTokenAccounts_def [abs_def] exchange_receipt_def [abs_def] volume_record_def [abs_def] warm_lookups
  by (rule refl)+

lemma warm_records [simp]:
  "recordAccountVoumes E G (warm E P) = recordAccountVoumes E G P"
  "updateVolumes E G (warm E P) = updateVolumes E G P"
  unfolding recordAccountVoumes_def [abs_def] updateVolumes_def [abs_def] warm_entries warm_fields by (rule refl)+

lemma warm_receipts [simp]:
  "addExchangeReceipt E G (warm E P) = addExchangeReceipt E G P"
  "addErc20Receipt E (warm E P) = addErc20Receipt E P"
  unfolding addExchangeReceipt_def [abs_def] addErc20Receipt_def [abs_def] warm_lookups warm_entries warm_records by (rule refl)+

lemma addExchangeV2Receipt_warm:
  "addExchangeV2Receipt E (warm E P) mt rlog idx logType =
     (case addExchangeV2Receipt E P mt rlog idx logType of (save, mt', P') \<Rightarrow> (save, mt', warm E P'))"
proof -
  have "warm E (snd (IsConfigedRouter E P router)) = warm E P" for router
    by (simp add: IsConfigedRouter_def split_def) (simp add: warm_def GetRouters_def Let_def split: option.split)
  then show ?thesis
    by (auto simp: addExchangeV2Receipt_def Let_def split: prod.splits option.splits)
      (metis snd_conv)+
qed

lemma addExchanges_params: "addExchanges E P rlog = (if length (rl_Topics rlog) = 2 then None else Some P)"
  by (simp add: addExchanges_def Let_def)

lemma warmed_bind:
  "warmed E (m \<bind> f) = m \<bind> (\<lambda>x. warmed E (f x))"
  by (cases m) simp_all

lemma warmed_if: "warmed E (if b then x else y) = (if b then warmed E x else warmed E y)"
  by simp

lemma parse_log_warm: "parse_log E G (warm E P) mt idx rlog w = warmed E (parse_log E G P mt idx rlog w)"
proof -
  have v2: "Some (addExchangeV2Receipt E (warm E P) mt rlog idx logType, w) =
      warmed E (Some (addExchangeV2Receipt E P mt rlog idx logType, w))" for logType
    by (simp add: addExchangeV2Receipt_warm split: prod.split)
  show ?thesis
    unfolding parse_log_def Let_def warmed_if warmed_bind v2
    by (simp add: split_def warmed_bind addExchanges_params)
qed

lemma parse_logs_warm: "parse_logs E G (warm E P) mt idx rlogs savedb w = warmed E (parse_logs E G P mt idx rlogs savedb w)"
proof (induction rlogs arbitrary: P mt idx savedb w)
  case (Cons rlog rest)
  show ?case
  proof (cases "parse_log E G P mt idx rlog w")
    case (Some p)
    obtain save mt' P' w' where "p = ((save, mt', P'), w')" by (metis prod.exhaust_sel)
    then show ?thesis using Some by (simp add: parse_log_warm Cons.IH)
  qed (simp add: parse_log_warm Cons.IH)
qed simp

text \<open>In warm parameters, then, a receipt is read without a look at the history.\<close>

lemma oblivious_bind_result:
  "oblivious f \<Longrightarrow> (\<And>x w. f [] = Some (x, w) \<Longrightarrow> oblivious (g x)) \<Longrightarrow> oblivious (\<lambda>w. f w \<bind> (\<lambda>(x, w). g x w))"
proof (cases "f []")
  case None
  assume "oblivious f"
  then have "f = (\<lambda>w. None)" using None by (auto simp: oblivious_def)
  then show ?thesis by (simp add: oblivious_None)
next
  case (Some p)
  assume f: "oblivious f" and g: "\<And>x w. f [] = Some (x, w) \<Longrightarrow> oblivious (g x)"
  obtain x es where p: "p = (x, es)" by (cases p)
  have "f w = Some (x, w @ es)" for w using f Some p by (simp add: oblivious_def)
  then have "(\<lambda>w. f w \<bind> (\<lambda>(x, w). g x w)) = (\<lambda>w. g x (w @ es))" by simp
  then show ?thesis using oblivious_after [OF g] Some p by simp
qed

lemma parse_log_warm_params: "parse_log E G (warm E P) mt idx rlog w = Some ((save, mt', P'), w') \<Longrightarrow> P' = warm E P"
  by (auto simp: parse_log_def Let_def addExchanges_params bind_eq_Some_conv addExchangeV2Receipt_def
      split: if_splits prod.splits option.splits)

lemma oblivious_parse_logs:
  assumes "good_writes E" "no_daily_volumes P"
  shows "oblivious (parse_logs E G (warm E P) mt idx rlogs savedb)"
proof (induction rlogs arbitrary: mt idx savedb)
  case Nil
  have "parse_logs E G (warm E P) mt idx [] savedb = (\<lambda>w. Some ((savedb, mt, warm E P), w))" by (rule ext) simp
  then show ?case by (simp only: oblivious_return)
next
  case (Cons rlog rest)
  have eq: "parse_logs E G (warm E P) mt idx (rlog # rest) savedb =
      (\<lambda>w. if rl_Topics rlog = [] \<or> rl_Removed rlog then parse_logs E G (warm E P) mt (idx + 1) rest savedb w
        else parse_log E G (warm E P) mt idx rlog w \<bind>
          (\<lambda>(r, w). (case r of (save, mt, P) \<Rightarrow> parse_logs E G P mt (idx + 1) rest (savedb \<or> save)) w))"
    by (rule ext) (simp add: split_def)
  have "oblivious (parse_log E G (warm E P) mt idx rlog)"
    using assms by (simp add: oblivious_parse_log)
  then show ?case unfolding eq
    by (intro oblivious_if Cons.IH oblivious_bind_result) (auto dest: parse_log_warm_params intro: Cons.IH)
qed

lemma parse_logs_warm_params:
  "parse_logs E G (warm E P) mt idx rlogs savedb w = Some ((save, mt', P'), w') \<Longrightarrow> P' = warm E P"
proof (induction rlogs arbitrary: mt idx savedb w)
  case (Cons rlog rest)
  then show ?case by (auto simp: bind_eq_Some_conv split: if_splits) (metis parse_log_warm_params)
qed simp

lemma parseReceipt_warm: "parseReceipt E G (warm E P) mt r w = warmed E (parseReceipt E G P mt r w)"
  by (simp add: parseReceipt_def parse_logs_warm split: option.split)

lemma parseReceipt_warm_params:
  "parseReceipt E G (warm E P) mt r w = Some ((save, mt', P'), w') \<Longrightarrow> P' = warm E P"
  by (auto simp: parseReceipt_def split: option.splits if_splits dest: parse_logs_warm_params)

lemma oblivious_parseReceipt:
  assumes "good_writes E" "no_daily_volumes P"
  shows "oblivious (parseReceipt E G (warm E P) mt r)"
  unfolding parseReceipt_def [abs_def] by (rule oblivious_parse_logs [OF assms] oblivious_rules)+

section \<open>A job alone\<close>

text \<open>The documents a job stores when it runs alone on the empty history.\<close>

definition alone :: "env \<Rightarrow> sync_vars \<Rightarrow> worker \<Rightarrow> params \<Rightarrow> job \<Rightarrow> mgo_doc list" where
  "alone E G wk P j = (case run_job E G wk j P [] of None \<Rightarrow> [] | Some (_, w) \<Rightarrow> stored w)"

text \<open>A transaction's job reads its receipt, then stores the transaction.\<close>

definition read_tx :: "env \<Rightarrow> sync_vars \<Rightarrow> nat \<Rightarrow> Transaction \<Rightarrow> Block \<Rightarrow> Receipt option \<Rightarrow> params
    \<Rightarrow> (bool \<times> MgoTransaction \<times> params) action" where
  "read_tx E G i tx block r P w =
     (if onlySyncAccount G then parseReceipt E G P new_MgoTransaction r w
      else if (case r of None \<Rightarrow> True | Some r \<Rightarrow> rc_Logs r = []) then Some ((False, tx_document E i tx block r, P), w)
      else parseReceipt E G P (tx_document E i tx block r) r w)"

definition store_tx :: "env \<Rightarrow> sync_vars \<Rightarrow> bool \<times> MgoTransaction \<times> params \<Rightarrow> params action" where
  "store_tx E G r w = (case r of (savedb, mt, P) \<Rightarrow>
     if \<not> onlySyncAccount G \<and> savedb
     then TryDoTimes (AddTransaction E mt (overwrite G)) w \<bind> (\<lambda>(_, w). Some (P, w))
     else Some (P, w))"

lemma parseTx_parts:
  "parseTx E G i tx block receipts P w =
     (if i \<ge> length receipts then None else read_tx E G i tx block (receipts ! i) P w \<bind> (\<lambda>(r, w). store_tx E G r w))"
  by (auto simp: parseTx_def read_tx_def store_tx_def Let_def split_def split: option.split)

lemma read_tx_warm: "read_tx E G i tx block r (warm E P) w = warmed E (read_tx E G i tx block r P w)"
  by (simp add: read_tx_def parseReceipt_warm)

lemma store_tx_warm:
  "store_tx E G (save, mt, warm E P) w = map_option (apfst (warm E)) (store_tx E G (save, mt, P) w)"
  by (simp add: store_tx_def split_def map_option_bind o_def)

lemma bind_warmed:
  "(\<And>save mt P w. k (save, mt, warm E P) w = map_option h (k (save, mt, P) w)) \<Longrightarrow>
     warmed E m \<bind> (\<lambda>(r, w). k r w) = map_option h (m \<bind> (\<lambda>(r, w). k r w))"
  by (cases m) auto

lemma run_job_warm: "run_job E G wk j (warm E P) w = map_option (apfst (warm E)) (run_job E G wk j P w)"
proof (cases j)
  case (BlockJob block)
  then show ?thesis by (simp add: split_def map_option_bind o_def)
next
  case (TxJob i tx block receipts)
  then show ?thesis by (simp add: parseTx_parts read_tx_warm bind_warmed store_tx_warm)
qed

lemma run_job_warm_params: "run_job E G wk j (warm E P) w = Some (P', w') \<Longrightarrow> P' = warm E P"
  by (cases j) (auto simp: parseTx_parts read_tx_def store_tx_def bind_eq_Some_conv split: if_splits dest: parseReceipt_warm_params)

lemma oblivious_run_job:
  assumes "good_writes E" "no_daily_volumes P"
  shows "oblivious (run_job E G wk j (warm E P))"
proof (cases j)
  case (BlockJob block)
  have "oblivious (parseBlock E G wk block)"
    unfolding parseBlock_def [abs_def]
    by (rule oblivious_TryDoTimes oblivious_adds [OF assms(1)] oblivious_rules)+
  moreover have "run_job E G wk j (warm E P) = (\<lambda>w. parseBlock E G wk block w \<bind> (\<lambda>(_, w). Some (warm E P, w)))"
    using BlockJob by (intro ext) simp
  ultimately show ?thesis by (simp add: oblivious_rules)
next
  case (TxJob i tx block receipts)
  have "oblivious (store_tx E G r)" for r
    unfolding store_tx_def [abs_def]
    by (rule oblivious_TryDoTimes oblivious_adds [OF assms(1)] oblivious_rules)+
  moreover have "oblivious (read_tx E G i tx block (receipts ! i) (warm E P))"
    unfolding read_tx_def [abs_def] by (rule oblivious_parseReceipt [OF assms] oblivious_rules)+
  moreover have "run_job E G wk j (warm E P) = (\<lambda>w. if i \<ge> length receipts then None
      else read_tx E G i tx block (receipts ! i) (warm E P) w \<bind> (\<lambda>(r, w). store_tx E G r w))"
    using TxJob by (intro ext) (simp add: parseTx_parts)
  ultimately show ?thesis by (simp add: oblivious_rules)
qed

lemma run_job_alone:
  assumes "good_writes E" "no_daily_volumes P" "warm E P' = warm E P" "run_job E G wk j P' w = Some (P'', w')"
  shows "warm E P'' = warm E P \<and> stored w' = stored w @ alone E G wk P j"
proof -
  have run: "run_job E G wk j (warm E P) w = Some (warm E P'', w')"
    using run_job_warm [of E G wk j P' w] assms(3,4) by simp
  have "run_job E G wk j (warm E P) w =
      map_option (\<lambda>(r, es). (r, w @ es)) (run_job E G wk j (warm E P) [])"
    using oblivious_run_job [OF assms(1,2)] unfolding oblivious_def by blast
  with run obtain es where es: "run_job E G wk j (warm E P) [] = Some (warm E P'', es)" "w' = w @ es"
    by (cases "run_job E G wk j (warm E P) []") auto
  then obtain Q where "run_job E G wk j P [] = Some (Q, es)"
    using run_job_warm [of E G wk j P "[]"] by (cases "run_job E G wk j P []") auto
  then have "alone E G wk P j = stored es" by (simp add: alone_def)
  with es run_job_warm_params [OF run] show ?thesis by simp
qed

section \<open>All jobs in any order\<close>

definition pending :: "sync_vars \<Rightarrow> parser \<Rightarrow> job multiset" where
  "pending G s = mset (concat (map (jobs_of G) (ps_queue s))) + ps_jobs s"

definition docs_of :: "env \<Rightarrow> sync_vars \<Rightarrow> worker \<Rightarrow> params \<Rightarrow> job multiset \<Rightarrow> mgo_doc multiset" where
  "docs_of E G wk P M = (\<Sum>j \<in># M. mset (alone E G wk P j))"

lemma docs_of_simps [simp]:
  "docs_of E G wk P {#} = {#}" "docs_of E G wk P (add_mset j M) = mset (alone E G wk P j) + docs_of E G wk P M"
  by (simp_all add: docs_of_def)

lemma docs_of_mset: "docs_of E G wk P (mset js) = mset (concat (map (alone E G wk P) js))"
  by (induction js) simp_all

lemma parser_step_stores:
  assumes "good_writes E" "no_daily_volumes P" "parser_step E G wk s t" "warm E (ps_params s) = warm E P"
  shows "warm E (ps_params t) = warm E P \<and>
    mset (stored (ps_world t)) + docs_of E G wk P (pending G t) =
    mset (stored (ps_world s)) + docs_of E G wk P (pending G s)"
  using assms(3)
proof (cases rule: parser_step.cases)
  case (job j rest P' w')
  with run_job_alone [OF assms(1,2,4)] show ?thesis by (auto simp: pending_def)
qed (use assms(4) in \<open>simp_all add: pending_def ac_simps\<close>)

lemma parser_steps_store:
  assumes "good_writes E" "no_daily_volumes P" "(parser_step E G wk)\<^sup>*\<^sup>* (startParser msgs P w) s"
  shows "warm E (ps_params s) = warm E P \<and>
    mset (stored (ps_world s)) + docs_of E G wk P (pending G s) =
    mset (stored w) + docs_of E G wk P (mset (concat (map (jobs_of G) msgs)))"
  using assms(3)
proof induction
  case base
  show ?case by (simp add: startParser_def pending_def)
next
  case (step s t)
  with parser_step_stores [OF assms(1,2)] show ?case by simp
qed

definition recent :: "sync_vars \<Rightarrow> message list \<Rightarrow> parser \<Rightarrow> bool" where
  "recent G msgs s \<longleftrightarrow> (\<exists>taken. msgs = taken @ ps_queue s \<and> ps_count s \<le> length taken \<and> ps_count s \<le> maxParseBlocks \<and>
     ps_jobs s \<subseteq># mset (concat (map (jobs_of G) (drop (length taken - ps_count s) taken))))"

lemma parser_step_recent:
  assumes "parser_step E G wk s t" "recent G msgs s"
  shows "recent G msgs t"
  using assms(1)
proof (cases rule: parser_step.cases)
  case (take msg rest)
  from assms(2) obtain taken where taken: "msgs = taken @ ps_queue s" "ps_count s \<le> length taken"
    "ps_jobs s \<subseteq># mset (concat (map (jobs_of G) (drop (length taken - ps_count s) taken)))"
    unfolding recent_def by blast
  then have "drop (length (taken @ [msg]) - Suc (ps_count s)) (taken @ [msg]) =
      drop (length taken - ps_count s) taken @ [msg]" by simp
  with take taken show ?thesis
    unfolding recent_def by (intro exI [of _ "taken @ [msg]"]) (simp add: subset_mset.add_mono)
next
  case wait
  with assms(2) show ?thesis unfolding recent_def by auto
next
  case (job j rest P' w')
  moreover have "rest \<subseteq># ps_jobs s" using job by simp
  ultimately show ?thesis using assms(2) unfolding recent_def by (auto dest: mset_subset_eq_insertD intro: subset_mset.less_imp_le)
qed

lemma parser_recent: "(parser_step E G wk)\<^sup>*\<^sup>* (startParser msgs P w) s \<Longrightarrow> recent G msgs s"
proof (induction rule: rtranclp_induct)
  case base
  show ?case by (simp add: recent_def startParser_def)
next
  case (step s t)
  then show ?case by (blast intro: parser_step_recent)
qed

lemma parser_step_wf: "wf {(t, s). parser_step E G wk s t}"
proof (rule wf_subset)
  show "wf (measures [\<lambda>s. length (ps_queue s), \<lambda>s. size (ps_jobs s), ps_count])" by (rule wf_measures)
  show "{(t, s). parser_step E G wk s t} \<subseteq> measures [\<lambda>s. length (ps_queue s), \<lambda>s. size (ps_jobs s), ps_count]"
    by (auto simp: maxParseBlocks_def elim!: parser_stepE)
qed

text \<open>A job that does not panic alone does not panic later.\<close>

lemma run_job_total:
  assumes "good_writes E" "no_daily_volumes P" "warm E P' = warm E P" "run_job E G wk j P [] \<noteq> None"
  shows "run_job E G wk j P' w \<noteq> None"
proof -
  have "run_job E G wk j (warm E P) w = map_option (\<lambda>(r, es). (r, w @ es)) (run_job E G wk j (warm E P) [])"
    using oblivious_run_job [OF assms(1,2)] unfolding oblivious_def by blast
  then have "run_job E G wk j (warm E P) w \<noteq> None" using assms(4) by (simp add: run_job_warm)
  then show ?thesis using run_job_warm [of E G wk j P' w] assms(3) by auto
qed

lemma parser_progress:
  assumes "good_writes E" "no_daily_volumes P"
    and "\<forall>j \<in> set (concat (map (jobs_of G) msgs)). run_job E G wk j P [] \<noteq> None"
    and "(parser_step E G wk)\<^sup>*\<^sup>* (startParser msgs P w) s" "\<not> parsed s"
  shows "\<exists>t. parser_step E G wk s t"
proof (cases "ps_jobs s")
  case empty
  with assms(5) obtain msg rest where queue: "ps_queue s = msg # rest" by (auto simp: parsed_def neq_Nil_conv)
  have "ps_count s \<le> maxParseBlocks" using parser_recent [OF assms(4)] by (auto simp: recent_def)
  then show ?thesis
    using parser_step.take [OF queue] parser_step.wait [OF _ empty] by (cases "ps_count s = maxParseBlocks") (blast | simp)+
next
  case (add j rest)
  have sub: "ps_jobs s \<subseteq># mset (concat (map (jobs_of G) msgs))"
  proof -
    obtain taken n where "msgs = taken @ ps_queue s"
      "ps_jobs s \<subseteq># mset (concat (map (jobs_of G) (drop n taken)))"
      using parser_recent [OF assms(4)] unfolding recent_def by blast
    moreover have "concat (map f taken) = concat (map f (take n taken)) @ concat (map f (drop n taken))" for f :: "message \<Rightarrow> job list"
      by (metis append_take_drop_id concat_append map_append)
    ultimately show ?thesis
      by (metis (no_types, lifting) concat_append map_append mset_append mset_subset_eq_add_left mset_subset_eq_add_right subset_mset.order_trans)
  qed
  have "j \<in># ps_jobs s" using add by simp
  then have "j \<in> set (concat (map (jobs_of G) msgs))" using mset_subset_eqD [OF sub] by simp
  moreover have "warm E (ps_params s) = warm E P" using parser_steps_store [OF assms(1,2,4)] by simp
  ultimately obtain P' w' where "run_job E G wk j (ps_params s) (ps_world s) = Some (P', w')"
    using run_job_total [OF assms(1,2)] assms(3) by (metis not_None_eq prod.exhaust_sel)
  with add show ?thesis by (blast intro: parser_step.job)
qed

lemma parser_goes_on:
  assumes "good_writes E" "no_daily_volumes P"
    and "\<forall>j \<in> set (concat (map (jobs_of G) msgs)). run_job E G wk j P [] \<noteq> None"
    and "(parser_step E G wk)\<^sup>*\<^sup>* (startParser msgs P w) s"
  shows "\<exists>t. (parser_step E G wk)\<^sup>*\<^sup>* s t \<and> parsed t"
  using assms(4)
proof (induction s rule: wf_induct_rule [OF parser_step_wf [of E G wk]])
  case (1 s)
  show ?case
  proof (cases "parsed s")
    case False
    with parser_progress [OF assms(1-3) 1(2)] obtain t where t: "parser_step E G wk s t" by blast
    with 1 have "\<exists>u. (parser_step E G wk)\<^sup>*\<^sup>* t u \<and> parsed u" by (simp add: rtranclp.rtrancl_into_rtrancl)
    with t show ?thesis by (meson converse_rtranclp_into_rtranclp)
  qed blast
qed

section \<open>Jobs that do not panic\<close>

lemma returning_recordAccounts: "returning (recordAccounts E exchange pairs account)"
  unfolding recordAccounts_def [abs_def] by (rule returning_intros)+

lemma returning_records:
  assumes "cf_Sync (config P) \<noteq> None" "no_daily_volumes P"
  shows "returning (recordTokenAccounts E P token account)" "returning (recordAccountVoumes E G P mt exr topic)"
    "returning (updateVolumes E G P mt exr topic)"
proof -
  have lookups: "IsScanAllExchange P \<noteq> None" "IsRecordTokenAccount P \<noteq> None"
    using assms(1) by (auto simp: IsScanAllExchange_def IsRecordTokenAccount_def)
  then have known: "(if b then Some True else map_option f (IsScanAllExchange P)) \<noteq> None" for b f by auto
  show "returning (recordTokenAccounts E P token account)"
    unfolding recordTokenAccounts_def [abs_def]
    by (rule returning_recordAccounts lookups known returning_intros)+
  show "returning (recordAccountVoumes E G P mt exr topic)"
    unfolding recordAccountVoumes_def [abs_def] by (rule returning_intros)+
  show "returning (updateVolumes E G P mt exr topic)"
    using assms unfolding returning_def updateVolumes_def no_daily_volumes_def by auto
qed

lemma returning_receipts:
  assumes "cf_Sync (config P) \<noteq> None" "no_daily_volumes P"
  shows "returning (addExchangeReceipt E G P mt rlog idx logType)" "returning (addErc20Receipt E P mt rlog idx logType)"
proof -
  have lookups: "IsScanAllExchange P \<noteq> None" using assms(1) by (auto simp: IsScanAllExchange_def)
  then have known: "(if b then Some True else map_option f (IsScanAllExchange P)) \<noteq> None" for b f by auto
  note rules = returning_records [OF assms] returning_recordAccounts lookups known returning_intros
  show "returning (addExchangeReceipt E G P mt rlog idx logType)"
    unfolding addExchangeReceipt_def [abs_def] by (rule rules)+
  show "returning (addErc20Receipt E P mt rlog idx logType)"
    unfolding addErc20Receipt_def [abs_def] by (rule rules)+
qed

text \<open>A creation log with exactly two topics makes the parser panic (an index out of range).\<close>

definition panic_log :: "env \<Rightarrow> Log \<Rightarrow> bool" where
  "panic_log E rlog \<longleftrightarrow> rl_Topics rlog \<noteq> [] \<and> rl_Topics rlog ! 0 = topicCreateExchange E \<and> length (rl_Topics rlog) = 2"

lemma returning_parse_log:
  assumes "cf_Sync (config P) \<noteq> None" "no_daily_volumes P" "\<not> panic_log E rlog" "rl_Topics rlog \<noteq> []"
  shows "returning (parse_log E G P mt idx rlog)"
proof -
  have create: "addExchanges E P rlog \<noteq> None" if "rl_Topics rlog ! 0 = topicCreateExchange E"
    using that assms(3,4) by (auto simp: addExchanges_params panic_log_def)
  show ?thesis
    unfolding parse_log_def [abs_def] Let_def
    by (rule returning_receipts [OF assms(1,2)] returning_cond returning_return returning_bind returning_bind_pure
        returning_case_prod create | assumption)+
qed

lemma returning_parse_logs:
  assumes "cf_Sync (config P) \<noteq> None" "no_daily_volumes P" "\<forall>rlog \<in> set rlogs. \<not> panic_log E rlog"
  shows "parse_logs E G (warm E P) mt idx rlogs savedb w \<noteq> None"
  using assms(3)
proof (induction rlogs arbitrary: mt idx savedb w)
  case (Cons rlog rest)
  show ?case
  proof (cases "rl_Topics rlog = [] \<or> rl_Removed rlog")
    case False
    then have "returning (parse_log E G (warm E P) mt idx rlog)"
      using assms(1,2) Cons.prems by (intro returning_parse_log) auto
    then obtain save mt' P' w' where "parse_log E G (warm E P) mt idx rlog w = Some ((save, mt', P'), w')"
      unfolding returning_def by (metis not_None_eq prod.exhaust_sel)
    with False Cons parse_log_warm_params [OF this] show ?thesis by simp
  qed (use Cons in simp)
qed simp

text \<open>Blocks as a node returns them: one receipt for each transaction.\<close>

definition readable :: "env \<Rightarrow> message \<Rightarrow> bool" where
  "readable E = (\<lambda>(block, receipts). length (bk_Transactions block) \<le> length receipts \<and>
     (\<forall>r. Some r \<in> set receipts \<longrightarrow> (\<forall>rlog \<in> set (rc_Logs r). \<not> panic_log E rlog)))"

lemma readable_job:
  assumes "cf_Sync (config P) \<noteq> None" "no_daily_volumes P" "readable E msg" "j \<in> set (jobs_of G msg)"
  shows "run_job E G wk j P w \<noteq> None"
proof -
  have "run_job E G wk j (warm E P) w \<noteq> None"
  proof (cases j)
    case (BlockJob block)
    have "returning (parseBlock E G wk block)"
      unfolding parseBlock_def [abs_def] by (rule returning_intros)+
    then have "parseBlock E G wk block w \<noteq> None" unfolding returning_def by blast
    with BlockJob show ?thesis by (cases "parseBlock E G wk block w") auto
  next
    case (TxJob i tx block receipts)
    obtain b rs where msg: "msg = (b, rs)" by (cases msg)
    from TxJob assms(4) have "receipts = rs" "i < length (bk_Transactions b)"
      by (auto simp: jobs_of_def msg parseTransactions_def in_set_enumerate_eq split: if_splits)
    with assms(3) have i: "i < length receipts"
      and ok: "\<And>r. Some r \<in> set receipts \<Longrightarrow> \<forall>rlog \<in> set (rc_Logs r). \<not> panic_log E rlog"
      by (auto simp: readable_def msg)
    have "read_tx E G i tx block (receipts ! i) (warm E P) w \<noteq> None"
    proof (cases "receipts ! i")
      case None
      then show ?thesis by (auto simp: read_tx_def parseReceipt_def)
    next
      case (Some r)
      with i have "Some r \<in> set receipts" by (metis nth_mem)
      from returning_parse_logs [OF assms(1,2) ok [OF this]] Some show ?thesis
        by (auto simp: read_tx_def parseReceipt_def)
    qed
    then obtain r w' where "read_tx E G i tx block (receipts ! i) (warm E P) w = Some (r, w')"
      by (cases "read_tx E G i tx block (receipts ! i) (warm E P) w") auto
    moreover have "returning (store_tx E G r)" for r
      unfolding store_tx_def [abs_def] by (rule returning_intros)+
    ultimately show ?thesis using TxJob i by (simp add: parseTx_parts returning_def)
  qed
  then show ?thesis by (simp add: run_job_warm)
qed

section \<open>Properties of the parser\<close>


text \<open>
  C30: At any time the goroutines in work belong to the last blocks taken, at most
  \<open>maxParseBlocks\<close> of them, and the blocks are taken in the order of the queue.
\<close>

theorem parser_bounded:
  assumes "(parser_step E G wk)\<^sup>*\<^sup>* (startParser msgs P w) s"
  shows "\<exists>before work. msgs = before @ work @ ps_queue s \<and> length work = ps_count s \<and> length work \<le> maxParseBlocks \<and>
    ps_jobs s \<subseteq># mset (concat (map (jobs_of G) work))"
proof -
  obtain taken where taken: "msgs = taken @ ps_queue s" "ps_count s \<le> length taken" "ps_count s \<le> maxParseBlocks"
    "ps_jobs s \<subseteq># mset (concat (map (jobs_of G) (drop (length taken - ps_count s) taken)))"
    using parser_recent [OF assms] unfolding recent_def by blast
  let ?n = "length taken - ps_count s"
  have "msgs = take ?n taken @ drop ?n taken @ ps_queue s" using taken(1) by simp
  with taken show ?thesis by (intro exI [of _ "take ?n taken"] exI [of _ "drop ?n taken"]) simp
qed


section \<open>A concrete block\<close>

definition parser_env :: env where
  "parser_env = base_env\<lparr>HexToHash := \<lambda>s. of_char (s ! 2)\<rparr>"

definition parser_params :: params where
  "parser_params = test_params\<lparr>config := (config test_params)\<lparr>cf_Sync := Some \<lparr>sy_JobCount = 0, sy_WaitInterval = 0,
     sy_Stable = 0, sy_UpdateLiquidity = False, sy_UpdateVolume = False, sy_ScanAllExchange = True,
     sy_RecordTokenAccount = True\<rparr>\<rparr>\<rparr>"

definition parser_vars :: sync_vars where
  "parser_vars = \<lparr>sv_serverURL = [], overwrite = False, sv_jobCount = 1, sv_waitInterval = 0, sv_stableHeight = 0,
     sv_startHeight = 0, sv_endHeight = 0, hasSyncToLatest = True, onlySyncAccount = False\<rparr>"

definition parser_worker :: worker where
  "parser_worker = \<lparr>wk_id = 1, wk_stable = 0, wk_start = 0, wk_end = 0\<rparr>"

definition parser_log :: "hash \<Rightarrow> Log" where
  "parser_log topic = \<lparr>rl_Address = 7, rl_Topics = [topic, 5, 100, 200], rl_Data = [], rl_Removed = False\<rparr>"

definition parser_receipt :: Receipt where
  "parser_receipt = \<lparr>rc_Status = 1, rc_GasUsed = 21000, rc_Logs =
     [parser_log (topicTokenPurchase parser_env), parser_log (topicTransfer parser_env),
      parser_log (topicEthPurchase parser_env)]\<rparr>"

definition parser_tx :: Transaction where
  "parser_tx = \<lparr>tx_Hash = 11, tx_Nonce = 3, tx_To = Some 7, tx_Value = 1000, tx_Gas = 90000, tx_GasPrice = 1, tx_Sender = 5\<rparr>"

definition parser_block :: Block where
  "parser_block = \<lparr>bk_Hash = 12, bk_Number = 100, bk_ParentHash = 13, bk_Nonce = 0, bk_Coinbase = 9,
     bk_Difficulty = 1, bk_GasLimit = 8000000, bk_GasUsed = 21000, bk_Time = 1300, bk_Transactions = [parser_tx]\<rparr>"

definition parser_receipts :: "Receipt option list" where
  "parser_receipts = [Some parser_receipt]"

lemma parser_env_writes: "good_writes parser_env"
  by (simp add: good_writes_def parser_env_def base_env_def)

lemma parser_params_volumes: "no_daily_volumes parser_params"
  by (simp add: no_daily_volumes_def parser_params_def)

definition parser_msgs :: "message list" where
  "parser_msgs = [(parser_block, parser_receipts)]"

lemma parser_readable: "\<forall>msg \<in> set parser_msgs. readable parser_env msg"
proof -
  have "\<not> panic_log parser_env rlog" if "rlog \<in> set (rc_Logs parser_receipt)" for rlog
    using that by (auto simp: panic_log_def parser_receipt_def parser_log_def)
  then show ?thesis by (simp add: parser_msgs_def readable_def parser_block_def parser_receipts_def)
qed

lemma parser_sync: "cf_Sync (config parser_params) \<noteq> None"
  by (simp add: parser_params_def)

lemma parser_jobs: "concat (map (jobs_of parser_vars) parser_msgs) = [BlockJob parser_block, TxJob 0 parser_tx parser_block parser_receipts]"
  by (simp add: parser_msgs_def jobs_of_def parser_vars_def parseTransactions_def parser_block_def)

lemma parser_jobs_ok:
  "\<forall>j \<in> set (concat (map (jobs_of parser_vars) parser_msgs)). run_job parser_env parser_vars parser_worker j parser_params [] \<noteq> None"
  using readable_job [OF parser_sync parser_params_volumes] parser_readable by fastforce

lemma parser_end:
  "\<exists>s. (parser_step parser_env parser_vars parser_worker)\<^sup>*\<^sup>* (startParser parser_msgs parser_params []) s \<and> parsed s"
  using parser_goes_on [OF parser_env_writes parser_params_volumes parser_jobs_ok] by blast


theorem parser_bounded_witness:
  "\<exists>s before work. (parser_step parser_env parser_vars parser_worker)\<^sup>*\<^sup>* (startParser parser_msgs parser_params []) s \<and>
     size (ps_jobs s) = 2 \<and> parser_msgs = before @ work @ ps_queue s \<and> length work = 1"
proof -
  let ?s = "(startParser parser_msgs parser_params [])\<lparr>ps_queue := [], ps_count := 1,
    ps_jobs := mset (concat (map (jobs_of parser_vars) parser_msgs))\<rparr>"
  have "parser_step parser_env parser_vars parser_worker (startParser parser_msgs parser_params []) ?s"
    using parser_step.take [of "startParser parser_msgs parser_params []" "(parser_block, parser_receipts)" "[]"]
    by (simp add: startParser_def parser_msgs_def maxParseBlocks_def)
  then have s: "(parser_step parser_env parser_vars parser_worker)\<^sup>*\<^sup>* (startParser parser_msgs parser_params []) ?s"
    by blast
  from parser_bounded [OF s] obtain before work where "parser_msgs = before @ work @ ps_queue ?s" "length work = ps_count ?s"
    by blast
  moreover have "size (ps_jobs ?s) = 2" by (simp add: parser_jobs)
  ultimately show ?thesis using s by (intro exI [of _ ?s] exI [of _ before] exI [of _ work]) simp
qed


end
