(* ===== verification/Trades.thy ===== *)
theory Trades
  imports Parser
begin

text \<open>
  The trades the syncer records for the distribution by volume: exactly the accepted trade logs
  of a successful receipt, each once, in the order of the logs.
\<close>

section \<open>Recorded trades\<close>

fun trade_event :: "event \<Rightarrow> MgoVolumeHistory option" where
  "trade_event (EvInsert (DocVolumeHistory h) None) = Some h"
| "trade_event (EvUpsertId k (DocVolumeHistory h) None) = Some h"
| "trade_event _ = None"

definition recorded :: "world \<Rightarrow> MgoVolumeHistory list" where
  "recorded w = List.map_filter trade_event w"

lemma recorded_simps [simp]:
  "recorded [] = []" "recorded (w @ w') = recorded w @ recorded w'"
  "recorded (e # w) = (case trade_event e of None \<Rightarrow> recorded w | Some h \<Rightarrow> h # recorded w)"
  by (simp_all add: recorded_def map_filter_def split: option.split)

text \<open>Every other operation of the syncer records no trade.\<close>

abbreviation no_trade :: "'a action \<Rightarrow> bool" where
  "no_trade f \<equiv> only (\<lambda>e. trade_event e = None) f"

lemma no_trade_recorded: "no_trade f \<Longrightarrow> f w = Some (r, w') \<Longrightarrow> recorded w' = recorded w"
  unfolding recorded_def by (blast dest: onlyD intro: adds_mapfilter)

lemma no_trade_writes:
  "no_trade (AddBlock E mb ow)" "no_trade (AddTransaction E mt ow)" "no_trade (AddAccount E ma)"
  "no_trade (AddTokenAccount E ta)" "no_trade (AddVolume E mv ow)"
  by (auto intro!: onlyI simp: AddBlock_def AddTransaction_def AddAccount_def AddTokenAccount_def AddVolume_def
      db_Insert_def db_UpsertId_def Let_def split: if_splits option.splits)

lemma no_trade_volume: "no_trade (UpdateVolumeWithReceipt E exr h n t)"
proof -
  have find: "no_trade (FindVolume E key)" for key
    by (auto intro!: onlyI simp: FindVolume_def)
  show ?thesis
    unfolding UpdateVolumeWithReceipt_def [abs_def] by (rule find no_trade_writes only_rules | rule only_bind_pure)+
qed

lemma no_trade_TryDoTimes: "no_trade f \<Longrightarrow> no_trade (TryDoTimes f)"
  by (rule only_TryDoTimes) simp_all

lemma no_trade_recordAccounts: "no_trade (recordAccounts E exchange pairs account)"
  unfolding recordAccounts_def [abs_def] by (rule no_trade_TryDoTimes no_trade_writes only_rules)+

lemma no_trade_accounts:
  "no_trade (recordTokenAccounts E P token account)" "no_trade (updateVolumes E G P mt exr topic)"
  unfolding recordTokenAccounts_def [abs_def] updateVolumes_def [abs_def]
  by (rule no_trade_recordAccounts no_trade_TryDoTimes no_trade_writes no_trade_volume only_rules | rule only_bind_pure)+

lemma no_trade_addErc20Receipt: "no_trade (addErc20Receipt E P mt rlog idx logType)"
  unfolding addErc20Receipt_def [abs_def] by (rule no_trade_accounts only_rules | rule only_bind_pure)+

lemma recordAccountVoumes_recorded:
  assumes "good_writes E" "recordAccountVoumes E G P mt exr topic w = Some (r, w')"
  shows "recorded w' = recorded w @
    (if onlySyncAccount G then [] else case volume_record E P mt exr topic of None \<Rightarrow> [] | Some h \<Rightarrow> [h])"
  using assms
  by (auto simp: recordAccountVoumes_def TryDoTimes_def retryDBCount_def numeral_3_eq_3 AddVolumeHistory_def db_Insert_def
      db_UpsertId_def Let_def good_writes_def dup_ok_def split: if_splits option.splits)

section \<open>The trade of a log\<close>

text \<open>The topics that the parser tells apart by comparing hashes are different.\<close>

definition topics_differ :: "env \<Rightarrow> bool" where
  "topics_differ E \<longleftrightarrow> topicTokenPurchase E \<noteq> topicEthPurchase E \<and>
     (\<forall>t \<in> {topicAddLiquidity E, topicRemoveLiquidity E}. t \<noteq> topicTokenPurchase E \<and> t \<noteq> topicEthPurchase E)"

definition trade_type :: "env \<Rightarrow> hash \<Rightarrow> string option" where
  "trade_type E topic =
     (if topic = topicTokenPurchase E then Some ''TokenPurchase''
      else if topic = topicEthPurchase E then Some ''EthPurchase'' else None)"

text \<open>
  A log is an accepted trade when it is not removed, is a purchase with all its four topics, is
  of a known exchange, and the buyer is no exchange.
\<close>

definition trade_of :: "env \<Rightarrow> params \<Rightarrow> MgoTransaction \<Rightarrow> int \<times> Log \<Rightarrow> MgoVolumeHistory option" where
  "trade_of E P mt = (\<lambda>(idx, rlog).
     if rl_Removed rlog \<or> length (rl_Topics rlog) < 4 then None
     else if \<not> (IsScanAllExchange P = Some True \<or> IsConfigedExchange P (ToLower (Address_String E (rl_Address rlog)))) then None
     else case trade_type E (rl_Topics rlog ! 0) of
         None \<Rightarrow> None
       | Some logType \<Rightarrow> volume_record E P mt (exchange_receipt E P rlog idx logType) (rl_Topics rlog ! 0))"

fun trades :: "env \<Rightarrow> params \<Rightarrow> MgoTransaction \<Rightarrow> int \<Rightarrow> Log list \<Rightarrow> MgoVolumeHistory list" where
  "trades E P mt idx [] = []"
| "trades E P mt idx (rlog # rest) =
     (case trade_of E P mt (idx, rlog) of None \<Rightarrow> [] | Some h \<Rightarrow> [h]) @ trades E P mt (idx + 1) rest"

text \<open>What a record of a trade takes from its transaction.\<close>

definition same_tx :: "MgoTransaction \<Rightarrow> MgoTransaction \<Rightarrow> bool" where
  "same_tx mt mt' \<longleftrightarrow> mt_Hash mt' = mt_Hash mt \<and> mt_BlockNumber mt' = mt_BlockNumber mt \<and> mt_Timestamp mt' = mt_Timestamp mt"

lemma same_tx_simps [simp]:
  "same_tx mt mt" "same_tx mt (mt\<lparr>mt_Erc20Receipts := x\<rparr>)" "same_tx mt (mt\<lparr>mt_ExchangeReceipts := y\<rparr>)"
  "same_tx mt (mt\<lparr>mt_ExchangeV2Receipts := z\<rparr>)"
  by (simp_all add: same_tx_def)

lemma trade_of_same: "same_tx mt mt' \<Longrightarrow> warm E P' = warm E P \<Longrightarrow> trade_of E P' mt' = trade_of E P mt"
proof -
  assume same: "same_tx mt mt'" "warm E P' = warm E P"
  have "trade_of E (warm E Q) mt = trade_of E Q mt" for Q
    unfolding trade_of_def warm_lookups warm_entries by (rule refl)
  moreover have "trade_of E Q mt' = trade_of E Q mt" for Q
    using same(1) by (auto simp: fun_eq_iff trade_of_def volume_record_def same_tx_def split: option.split)
  ultimately show ?thesis using same(2) by metis
qed

lemma trades_same: "same_tx mt mt' \<Longrightarrow> warm E P' = warm E P \<Longrightarrow> trades E P' mt' idx rlogs = trades E P mt idx rlogs"
  by (induction rlogs arbitrary: idx) (simp_all add: trade_of_same)

lemma volume_record_receipts: "volume_record E P (mt\<lparr>mt_ExchangeReceipts := y\<rparr>) exr topic = volume_record E P mt exr topic"
  by (simp add: volume_record_def)

lemma addExchangeReceipt_recorded:
  assumes "good_writes E" "addExchangeReceipt E G P mt rlog idx logType w = Some ((save, mt'), w')"
  shows "same_tx mt mt' \<and> recorded w' = recorded w @
    (if onlySyncAccount G \<or> length (rl_Topics rlog) < 4 \<or>
        \<not> (IsScanAllExchange P = Some True \<or> IsConfigedExchange P (ToLower (Address_String E (rl_Address rlog)))) then []
     else case volume_record E P mt (exchange_receipt E P rlog idx logType) (rl_Topics rlog ! 0) of None \<Rightarrow> [] | Some h \<Rightarrow> [h])"
  using assms(2)
  by (auto simp: addExchangeReceipt_def Let_def bind_eq_Some_conv volume_record_receipts
      dest!: no_trade_accounts [THEN no_trade_recorded] no_trade_recordAccounts [THEN no_trade_recorded]
        recordAccountVoumes_recorded [OF assms(1)] split: if_splits)

lemma addErc20Receipt_recorded:
  "addErc20Receipt E P mt rlog idx logType w = Some ((save, mt'), w') \<Longrightarrow> same_tx mt mt' \<and> recorded w' = recorded w"
proof
  assume run: "addErc20Receipt E P mt rlog idx logType w = Some ((save, mt'), w')"
  then show "recorded w' = recorded w" by (rule no_trade_recorded [OF no_trade_addErc20Receipt])
  from run show "same_tx mt mt'" by (auto simp: addErc20Receipt_def Let_def bind_eq_Some_conv split: if_splits)
qed

lemma addExchangeV2Receipt_same: "addExchangeV2Receipt E P mt rlog idx logType = (save, mt', P') \<Longrightarrow> same_tx mt mt'"
  by (auto simp: addExchangeV2Receipt_def Let_def split: if_splits prod.splits option.splits)

lemma parse_log_cached: "parse_log E G P mt idx rlog w = Some ((save, mt', P'), w') \<Longrightarrow> warm E P' = warm E P"
  using parse_log_warm [of E G P mt idx rlog w] by (auto dest: parse_log_warm_params)

lemma parse_log_recorded:
  assumes "good_writes E" "topics_differ E" "\<not> onlySyncAccount G" "\<not> rl_Removed rlog"
    and run: "parse_log E G P mt idx rlog w = Some ((save, mt', P'), w')"
  shows "same_tx mt mt' \<and> recorded w' = recorded w @ (case trade_of E P mt (idx, rlog) of None \<Rightarrow> [] | Some h \<Rightarrow> [h])"
proof -
  let ?t = "rl_Topics rlog ! 0"
  consider (exchange) logType where "addExchangeReceipt E G P mt rlog idx logType w = Some ((save, mt'), w')"
      "trade_type E ?t = Some logType \<or> (trade_type E ?t = None \<and> (\<forall>exr. volume_record E P mt exr ?t = None))"
    | (other) "trade_type E ?t = None" "same_tx mt mt'" "recorded w' = recorded w"
    using run assms(2)
    by (auto simp: parse_log_def Let_def bind_eq_Some_conv trade_type_def topics_differ_def volume_record_def
        dest: addErc20Receipt_recorded addExchangeV2Receipt_same split: if_splits)
  then show ?thesis
  proof cases
    case exchange
    with addExchangeReceipt_recorded [OF assms(1) exchange(1)] assms(3,4) show ?thesis
      by (auto simp: trade_of_def)
  next
    case other
    then show ?thesis by (simp add: trade_of_def)
  qed
qed

lemma trade_of_removed: "rl_Topics rlog = [] \<or> rl_Removed rlog \<Longrightarrow> trade_of E P mt (idx, rlog) = None"
  by (auto simp: trade_of_def)

lemma parse_logs_recorded:
  assumes "good_writes E" "topics_differ E" "\<not> onlySyncAccount G"
    and "parse_logs E G P mt idx rlogs savedb w = Some ((save, mt', P'), w')"
  shows "same_tx mt mt' \<and> recorded w' = recorded w @ trades E P mt idx rlogs"
  using assms(4)
proof (induction rlogs arbitrary: P mt idx savedb w)
  case (Cons rlog rest)
  show ?case
  proof (cases "rl_Topics rlog = [] \<or> rl_Removed rlog")
    case True
    with Cons show ?thesis by (simp add: trade_of_removed)
  next
    case False
    then obtain save1 mt1 P1 w1 where run: "parse_log E G P mt idx rlog w = Some ((save1, mt1, P1), w1)"
      "parse_logs E G P1 mt1 (idx + 1) rest (savedb \<or> save1) w1 = Some ((save, mt', P'), w')"
      using Cons.prems by (auto simp: bind_eq_Some_conv)
    have one: "same_tx mt mt1" "recorded w1 = recorded w @ (case trade_of E P mt (idx, rlog) of None \<Rightarrow> [] | Some h \<Rightarrow> [h])"
      using parse_log_recorded [OF assms(1-3) _ run(1)] False by auto
    then show ?thesis
      using Cons.IH [OF run(2)] trades_same [OF one(1) parse_log_cached [OF run(1)]]
      by (auto simp: same_tx_def)
  qed
qed simp

lemma parseTx_trades:
  assumes "good_writes E" "topics_differ E" "\<not> onlySyncAccount G"
    and "parseTx E G i tx block receipts P w = Some (P', w')"
  shows "recorded w' = recorded w @
    (case receipts ! i of None \<Rightarrow> []
     | Some r \<Rightarrow> if rc_Status r = 0 then [] else trades E P (tx_document E i tx block (Some r)) 0 (rc_Logs r))"
proof -
  let ?mt = "tx_document E i tx block (receipts ! i)"
  obtain save mt P1 w1 where run: "read_tx E G i tx block (receipts ! i) P w = Some ((save, mt, P1), w1)"
    "store_tx E G (save, mt, P1) w1 = Some (P', w')"
    using assms(4) by (auto simp: parseTx_parts bind_eq_Some_conv split: if_splits)
  have "no_trade (store_tx E G (save, mt, P1))"
    unfolding store_tx_def [abs_def] by (rule no_trade_TryDoTimes no_trade_writes only_rules)+
  with run(2) have "recorded w' = recorded w1" by (blast dest: no_trade_recorded)
  moreover have "recorded w1 = recorded w @
    (case receipts ! i of None \<Rightarrow> [] | Some r \<Rightarrow> if rc_Status r = 0 then [] else trades E P ?mt 0 (rc_Logs r))"
    using run(1) assms(3) parse_logs_recorded [OF assms(1-3)]
    by (auto simp: read_tx_def parseReceipt_def split: if_splits option.splits)
  ultimately show ?thesis by (auto split: option.splits)
qed

section \<open>Properties\<close>



end
