(* ===== verification/Sync_Range.thy ===== *)
theory Sync_Range
  imports Sync Block_Search
begin

text \<open>
  Which blocks the syncer reads (\<open>syncer/sync.go\<close>): a range, a worker with an end, the workers
  a range is divided among, and the worker that follows the chain. What the code relies on of
  the node and the database is \<open>sync_source\<close>; both may fail until some point of the history.
\<close>

section \<open>What a range reads\<close>

text \<open>
  The node answers, at the latest after \<open>N\<close> events: a block of the height asked for, with its
  transactions; a receipt or none; the database answers with the blocks stored at heights in \<open>S\<close>,
  each once.
\<close>

definition sync_source :: "env \<Rightarrow> nat \<Rightarrow> (u64 \<Rightarrow> Block) \<Rightarrow> u64 set \<Rightarrow> bool" where
  "sync_source E N B S \<longleftrightarrow>
     (\<forall>w n b. BlockByNumber E w (SetUint64 n) = Inr b \<longrightarrow> b = B n) \<and> (\<forall>n. bk_Number (B n) = n) \<and>
     (\<forall>w n. N \<le> length w \<longrightarrow> BlockByNumber E w (SetUint64 n) = Inr (B n)) \<and>
     (\<forall>w h. N \<le> length w \<longrightarrow> (\<exists>r. TransactionReceipt E w h = Inr r)) \<and>
     (\<forall>w a b mbs. Find_Blocks E w a b = Inr mbs \<longrightarrow>
        distinct (map mb_Number mbs) \<and> set (map mb_Number mbs) = {n \<in> S. a \<le> n \<and> n \<le> b}) \<and>
     (\<forall>w a b. N \<le> length w \<longrightarrow> (\<exists>mbs. Find_Blocks E w a b = Inr mbs))"

lemma sync_sourceD:
  assumes "sync_source E N B S"
  shows "BlockByNumber E w (SetUint64 n) = Inr b \<Longrightarrow> b = B n" "bk_Number (B n) = n"
    "N \<le> length w \<Longrightarrow> BlockByNumber E w (SetUint64 n) = Inr (B n)"
    "N \<le> length w \<Longrightarrow> \<exists>r. TransactionReceipt E w h = Inr r"
    "Find_Blocks E w a b' = Inr mbs \<Longrightarrow>
      distinct (map mb_Number mbs) \<and> set (map mb_Number mbs) = {n \<in> S. a \<le> n \<and> n \<le> b'}"
    "N \<le> length w \<Longrightarrow> \<exists>mbs. Find_Blocks E w a b' = Inr mbs"
  using assms unfolding sync_source_def by blast+

text \<open>A question that is answered at the latest after \<open>N\<close> events is answered.\<close>

lemma retry_answered:
  assumes once: "\<And>w. \<exists>r. attempt w = Some (r, w @ [e])"
    and late: "\<And>w. N \<le> length w \<Longrightarrow> \<exists>x. attempt w = Some (Inr x, w @ [e])"
  shows "\<exists>x w'. retry attempt w = Some (x, w') \<and> (\<exists>w1. attempt w1 = Some (Inr x, w'))"
proof (induction "N - length w" arbitrary: w rule: less_induct)
  case less
  obtain r where r: "attempt w = Some (r, w @ [e])" using once by blast
  show ?case
  proof (cases r)
    case (Inr x)
    with r show ?thesis by (subst retry.simps) auto
  next
    case (Inl err)
    with r late [of w] have "\<not> N \<le> length w" by auto
    then have "N - length ((w @ [e]) @ [EvSleep rpcRetryInterval]) < N - length w" by simp
    from less [OF this] show ?thesis by (subst retry.simps) (simp add: r Inl)
  qed
qed

lemma getReceipts_returns:
  assumes "sync_source E N B S"
  shows "\<exists>rs w'. getReceipts E txs w = Some (rs, w') \<and> length rs = length txs"
proof (induction txs arbitrary: w)
  case (Cons tx txs)
  have "\<exists>x w'. loopGetReceipt E (tx_Hash tx) w = Some (x, w')"
    unfolding loopGetReceipt_def
    using retry_answered [of "rpc_TransactionReceipt E (tx_Hash tx)" "EvTransactionReceipt (tx_Hash tx)" N w]
      sync_sourceD(4) [OF assms] by (fastforce simp: rpc_TransactionReceipt_def)
  then obtain x w1 where 1: "loopGetReceipt E (tx_Hash tx) w = Some (x, w1)" by blast
  obtain rs w2 where "getReceipts E txs w1 = Some (rs, w2)" "length rs = length txs" using Cons.IH by blast
  with 1 show ?case by simp
qed simp

lemma rpc_Block_returns:
  assumes "sync_source E N B S"
  shows "\<exists>w'. retry (rpc_BlockByNumber E n) w = Some (B n, w')"
  using retry_answered [of "rpc_BlockByNumber E n" "EvBlockByNumber (SetUint64 n)" N w]
    sync_sourceD(1,3) [OF assms] by (fastforce simp: rpc_BlockByNumber_def)

text \<open>The heights from \<open>a\<close> up to but not including the integer \<open>b\<close>.\<close>

definition heights :: "u64 \<Rightarrow> int \<Rightarrow> u64 list" where
  "heights a b = map word_of_int [uint a .. b - 1]"

lemma heights_empty [simp]: "b \<le> uint a \<Longrightarrow> heights a b = []"
  by (simp add: heights_def)

lemma heights_Cons:
  assumes "uint a < b" "b < 2 ^ 64"
  shows "heights a b = a # heights (a + 1) b"
proof -
  have "uint (a + 1) = uint a + 1" using assms by (subst uint_add_no_wrap) auto
  with assms(1) show ?thesis by (simp add: heights_def upto_rec1)
qed

lemma heights_append:
  assumes "uint a \<le> uint c" "uint c \<le> b"
  shows "heights a b = heights a (uint c) @ heights c b"
  using upto_split1 [of "uint a" "uint c" "b - 1"] upto_split2 [of "uint a" "uint c - 1" "b - 1"] assms
  by (cases "uint a = uint c") (auto simp: heights_def simp flip: map_append)

lemma set_heights: "b \<le> 2 ^ 64 \<Longrightarrow> set (heights a b) = {n. uint a \<le> uint n \<and> uint n < b}"
proof -
  assume b: "b \<le> 2 ^ 64"
  show ?thesis
  proof (intro set_eqI iffI)
    fix n :: u64 assume "n \<in> set (heights a b)"
    then obtain k where "n = word_of_int k" "uint a \<le> k" "k < b" by (auto simp: heights_def)
    moreover from this b have "uint n = k"
      using order_trans [OF uint_ge_0 [of a]] by (auto simp: uint_word_of_int intro!: mod_pos_pos_trivial)
    ultimately show "n \<in> {n. uint a \<le> uint n \<and> uint n < b}" by simp
  next
    fix n :: u64 assume "n \<in> {n. uint a \<le> uint n \<and> uint n < b}"
    then show "n \<in> set (heights a b)"
      by (auto simp: heights_def intro!: image_eqI [of _ _ "uint n"])
  qed
qed

definition missing :: "sync_vars \<Rightarrow> u64 set \<Rightarrow> u64 \<Rightarrow> int \<Rightarrow> u64 list" where
  "missing G S a b = filter (\<lambda>n. overwrite G \<or> n \<notin> S) (heights a b)"

text \<open>The messages of some heights: their blocks, each with a receipt entry per transaction.\<close>

definition messages_of :: "(u64 \<Rightarrow> Block) \<Rightarrow> u64 list \<Rightarrow> message list \<Rightarrow> bool" where
  "messages_of B ns new \<longleftrightarrow> map fst new = map B ns \<and>
     (\<forall>(block, receipts) \<in> set new. length receipts = length (bk_Transactions block))"

lemma messages_of_Nil [simp]: "messages_of B [] new \<longleftrightarrow> new = []"
  by (auto simp: messages_of_def)

lemma messages_of_Cons:
  "messages_of B ns new \<Longrightarrow> length receipts = length (bk_Transactions (B n)) \<Longrightarrow>
    messages_of B (n # ns) ((B n, receipts) # new)"
  by (simp add: messages_of_def)

lemma messages_of_append:
  "messages_of B ns new \<Longrightarrow> messages_of B ns' new' \<Longrightarrow> messages_of B (ns @ ns') (new @ new')"
  by (auto simp: messages_of_def)

lemma getSynced_None: "getSynced mbs n = None \<longleftrightarrow> n \<notin> set (map mb_Number mbs)"
  by (force simp: getSynced_def find_None_iff)

lemma syncHeights_returns:
  assumes src: "sync_source E N B S"
    and stored: "\<And>n. height \<le> n \<Longrightarrow> n \<le> to \<Longrightarrow> n \<in> set (map mb_Number mbs) \<longleftrightarrow> n \<in> S"
    and bound: "uint to + 1 < 2 ^ 64"
    and le: "uint height \<le> uint to + 1"
  shows "\<exists>new w'. syncHeights E G mbs to height msgs w = Some ((to + 1, msgs @ new), w') \<and>
    messages_of B (missing G S height (uint to + 1)) new"
  using stored le
proof (induction "nat (uint to + 1 - uint height)" arbitrary: height msgs w)
  case 0
  then have "uint height = uint (to + 1)" using bound by (subst uint_add_no_wrap) auto
  then have "height = to + 1" by (simp add: word_uint_eq_iff)
  moreover have "\<not> to + 1 \<le> to" using bound by (simp add: word_le_def uint_add_no_wrap)
  ultimately show ?case using 0 by (subst syncHeights.simps) (simp add: missing_def)
next
  case (Suc k)
  then have le: "uint height < uint to + 1" by simp
  then have le': "height \<le> to" by (simp add: word_le_def)
  have plus: "uint (height + 1) = uint height + 1" using le bound by (subst uint_add_no_wrap) auto
  have "k = nat (uint to + 1 - uint (height + 1))" using Suc.hyps(2) plus by simp
  note IH = Suc.hyps(1) [OF this, unfolded plus]
  have stored: "n \<in> set (map mb_Number mbs) \<longleftrightarrow> n \<in> S" if "height + 1 \<le> n" "n \<le> to" for n
    using Suc.prems(1) [of n] that plus by (simp add: word_le_def)
  have cons: "missing G S height (uint to + 1) =
      (if overwrite G \<or> height \<notin> S then height # missing G S (height + 1) (uint to + 1)
       else missing G S (height + 1) (uint to + 1))"
    using heights_Cons [OF le] bound by (simp add: missing_def)
  show ?case
  proof (cases "overwrite G \<or> height \<notin> S")
    case True
    then have ask: "overwrite G \<or> getSynced mbs height = None"
      using Suc.prems(1) [of height] le' by (auto simp: getSynced_None)
    obtain w1 where 1: "retry (rpc_BlockByNumber E height) w = Some (B height, w1)"
      using rpc_Block_returns [OF src] by blast
    obtain rs w2 where 2: "getReceipts E (bk_Transactions (B height)) w1 = Some (rs, w2)"
        "length rs = length (bk_Transactions (B height))" using getReceipts_returns [OF src] by blast
    from IH [OF stored, of "msgs @ [(B height, rs)]" w2] le obtain new w' where
        "syncHeights E G mbs to (height + 1) (msgs @ [(B height, rs)]) w2 = Some ((to + 1, (msgs @ [(B height, rs)]) @ new), w')"
        "messages_of B (missing G S (height + 1) (uint to + 1)) new" by auto
    with ask True show ?thesis
      by (subst syncHeights.simps) (auto simp: le' 1 2 cons intro!: messages_of_Cons)
  next
    case False
    then have "\<not> (overwrite G \<or> getSynced mbs height = None)"
      using Suc.prems(1) [of height] le' by (auto simp: getSynced_None)
    with False IH [OF stored, of msgs w] le show ?thesis
      by (subst syncHeights.simps) (auto simp: le' cons)
  qed
qed

lemma sint_small: "uint (x :: u64) < 10000 + 1 \<Longrightarrow> sint x = uint x"
proof -
  assume "uint x < 10000 + 1"
  moreover have "- 9223372036854775808 \<le> uint x" using uint_ge_0 [of x] by linarith
  ultimately have "signed_take_bit 63 (uint x) = uint x" by (intro signed_take_bit_int_eq_self) auto
  then show ?thesis by (simp add: sint_uint)
qed

lemma range_end_bounds:
  assumes "height \<le> end" "uint end + 10000 < 2 ^ 64"
  shows "uint height \<le> uint (range_end height end)" "uint (range_end height end) \<le> uint end"
    "uint (range_end height end) < uint height + 10000"
proof -
  have le: "uint height \<le> uint end" using assms(1) by (simp add: word_le_def)
  have "height + 10000 - 1 = 9999 + height" by simp
  moreover have "uint (9999 + height) = uint height + 9999" using le assms(2) by (subst uint_add_no_wrap) auto
  ultimately show "uint height \<le> uint (range_end height end)" "uint (range_end height end) \<le> uint end"
    "uint (range_end height end) < uint height + 10000"
    using le by (auto simp: range_end_def Let_def word_less_def word_le_def)
qed

lemma all_stored:
  assumes "uint from \<le> uint to" "uint to < uint from + 10000" "uint to + 10000 < 2 ^ 64"
    and dist: "distinct (map mb_Number mbs)" and set: "set (map mb_Number mbs) = {n \<in> S. from \<le> n \<and> n \<le> to}"
    and len: "int (length mbs) = sint (to - from + 1)"
  shows "{n. from \<le> n \<and> n \<le> to} \<subseteq> S"
proof -
  have "uint (to - from) = uint to - uint from" using assms(1) by (intro word_diff_less_self) (simp add: word_le_def)
  then have d: "uint (to - from + 1) = uint to - uint from + 1"
    using assms(1-3) by (subst uint_add_no_wrap) auto
  have "sint (to - from + 1) = uint (to - from + 1)"
    using d assms(2) by (intro sint_small) simp
  then have len': "int (length mbs) = uint to - uint from + 1" using len d by simp
  have heights: "set (heights from (uint to + 1)) = {n. from \<le> n \<and> n \<le> to}"
    using assms(3) by (subst set_heights) (auto simp: word_le_def)
  have "card {n. from \<le> n \<and> n \<le> to} \<le> length (heights from (uint to + 1))"
    using card_length [of "heights from (uint to + 1)"] heights by simp
  also have "\<dots> = nat (uint to + 1 - uint from)" by (simp add: heights_def)
  also have "\<dots> = length mbs" using len' by simp
  also have "\<dots> = card {n \<in> S. from \<le> n \<and> n \<le> to}"
    using distinct_card [OF dist] set by simp
  finally have "{n \<in> S. from \<le> n \<and> n \<le> to} = {n. from \<le> n \<and> n \<le> to}"
    using heights by (intro card_seteq) (auto intro: finite_subset [OF _ finite_set [of "heights from (uint to + 1)"]])
  then show ?thesis by blast
qed

lemma syncRange_returns:
  assumes src: "sync_source E N B S" and bound: "uint end + 10000 < 2 ^ 64" and le: "uint height \<le> uint end + 1"
  shows "\<exists>new w'. syncRange E G height end msgs w = Some (msgs @ new, w') \<and>
    messages_of B (missing G S height (uint end + 1)) new"
  using le
proof (induction "nat (uint end + 1 - uint height) * (N + 1) + (N - length w)" arbitrary: height msgs w rule: less_induct)
  case less
  show ?case
  proof (cases "height \<le> end")
    case False
    then have "missing G S height (uint end + 1) = []" by (simp add: missing_def word_le_def)
    with False show ?thesis by (subst syncRange.simps) simp
  next
    case True
    let ?to = "range_end height end" and ?find = "EvFind tbBlocks []"
    note to = range_end_bounds [OF True bound]
    have d: "uint (?to - height + 1) = uint ?to - uint height + 1"
    proof -
      have "uint (?to - height) = uint ?to - uint height" using to by (intro word_diff_less_self) (simp add: word_le_def)
      then show ?thesis using to bound by (subst uint_add_no_wrap) auto
    qed
    then have "sint (?to - height + 1) = uint (?to - height + 1)" using to by (intro sint_small) simp
    then have "0 \<le> sint (?to - height + 1)" by simp
    then have find: "FindBlocksInRange E height ?to w = Some (Find_Blocks E w height ?to, w @ [?find])"
      by (simp add: FindBlocksInRange_def)
    have plus: "uint (?to + 1) = uint ?to + 1" using to bound by (subst uint_add_no_wrap) auto
    have smaller: "nat (uint end + 1 - uint (?to + 1)) * (N + 1) + (N - length w')
        < nat (uint end + 1 - uint height) * (N + 1) + (N - length w)" for w' :: world
    proof -
      have "Suc (nat (uint end + 1 - uint (?to + 1))) \<le> nat (uint end + 1 - uint height)"
        using to plus True by (simp add: word_le_def)
      then have "Suc (nat (uint end + 1 - uint (?to + 1))) * (N + 1) \<le> nat (uint end + 1 - uint height) * (N + 1)"
        by (rule mult_le_mono1)
      then have "nat (uint end + 1 - uint (?to + 1)) * (N + 1) + (N + 1) \<le> nat (uint end + 1 - uint height) * (N + 1)"
        by simp
      moreover have "N - length w' \<le> N" by simp
      ultimately show ?thesis by linarith
    qed
    have le': "uint (?to + 1) \<le> uint end + 1" using to plus by simp
    have split: "missing G S height (uint end + 1) = missing G S height (uint ?to + 1) @ missing G S (?to + 1) (uint end + 1)"
      using heights_append [of height "?to + 1" "uint end + 1"] to plus by (simp add: missing_def)
    show ?thesis
    proof (cases "Find_Blocks E w height ?to")
      case (Inl err)
      then have "\<not> N \<le> length w" using sync_sourceD(6) [OF src, of w height ?to] by auto
      then have "N - length ((w @ [?find]) @ [EvSleep retryDuration]) < N - length w" by simp
      with less.hyps [of height "(w @ [?find]) @ [EvSleep retryDuration]" msgs] less.prems show ?thesis
        by (subst syncRange.simps) (simp add: True find Inl)
    next
      case (Inr mbs)
      note stored = sync_sourceD(5) [OF src Inr]
      show ?thesis
      proof (cases "\<not> overwrite G \<and> int (length mbs) = sint (?to - height + 1)")
        case True
        then have "{n. height \<le> n \<and> n \<le> ?to} \<subseteq> S"
          using all_stored [of height ?to mbs S] stored to bound by auto
        then have "missing G S height (uint ?to + 1) = []"
          using True bound to set_heights [of "uint ?to + 1" height]
          by (auto simp: missing_def filter_empty_conv word_le_def subset_iff)
        with less.hyps [OF smaller [of "w @ [?find]"] le', of msgs] show ?thesis
          by (subst syncRange.simps) (simp add: \<open>height \<le> end\<close> find Inr True split)
      next
        case False
        have "n \<in> set (map mb_Number mbs) \<longleftrightarrow> n \<in> S" if "height \<le> n" "n \<le> ?to" for n
          using stored that by auto
        moreover have "uint ?to + 1 < 2 ^ 64" "uint height \<le> uint ?to + 1" using to bound by auto
        ultimately obtain new w1 where 1:
          "syncHeights E G mbs ?to height msgs (w @ [?find]) = Some ((?to + 1, msgs @ new), w1)"
          "messages_of B (missing G S height (uint ?to + 1)) new"
          using syncHeights_returns [OF src, of height ?to mbs G msgs "w @ [?find]"] by blast
        from less.hyps [OF smaller [of w1] le', of "msgs @ new"] obtain new' w' where
          "syncRange E G (?to + 1) end (msgs @ new) w1 = Some ((msgs @ new) @ new', w')"
          "messages_of B (missing G S (?to + 1) (uint end + 1)) new'" by blast
        with 1 False show ?thesis
          by (subst syncRange.simps) (auto simp: \<open>height \<le> end\<close> find Inr split intro!: messages_of_append)
      qed
    qed
  qed
qed

section \<open>What a worker reads\<close>

text \<open>The latest header is known at the latest after \<open>N\<close> events, and is then at least \<open>h\<close>.\<close>

definition headers_reach :: "env \<Rightarrow> nat \<Rightarrow> int \<Rightarrow> bool" where
  "headers_reach E N h \<longleftrightarrow> (\<forall>w. N \<le> length w \<longrightarrow>
     (\<exists>header. HeaderByNumber E w None = Inr header \<and> h \<le> uint (big_Uint64 (h_Number header))))"

text \<open>The range a turn reads: from the next height to \<open>turn_end\<close>.\<close>

definition turn_end :: "worker \<Rightarrow> u64 \<Rightarrow> u64" where
  "turn_end wk latest = (let finish = latest - wk_stable wk
     in if wk_end wk > 0 \<and> finish \<ge> wk_end wk then wk_end wk - 1 else finish)"

lemma doSync_turn_read:
  assumes "\<not> (wk_end wk > 0 \<and> height \<ge> wk_end wk)" "\<not> height + wk_stable wk > latest"
    and "syncRange E G height (turn_end wk latest) msgs w = Some (msgs', w')"
  shows "doSync_turn E G wk latest height msgs w = Some ((True, latest, turn_end wk latest + 1, msgs'), w')"
  using assms by (auto simp: doSync_turn_def turn_end_def Let_def)

lemma doSync_turn_header:
  assumes "\<not> (wk_end wk > 0 \<and> height \<ge> wk_end wk)" "height + wk_stable wk > latest"
  shows "doSync_turn E G wk latest height msgs w =
    (case HeaderByNumber E w None of
       Inl err \<Rightarrow> Some ((True, latest, height, msgs), w @ [EvHeaderByNumber None, EvSleep retryDuration])
     | Inr header \<Rightarrow>
         let latest = big_Uint64 (h_Number header) in
         if height + wk_stable wk > latest
         then Some ((True, latest, height, msgs), w @ [EvHeaderByNumber None, EvSleep (waitDuration G)])
         else doSync_turn E G wk latest height msgs (w @ [EvHeaderByNumber None]))"
  using assms by (auto simp: doSync_turn_def rpc_HeaderByNumber_def Let_def split: sum.split)

lemma turn_end_bounds:
  assumes "height + wk_stable wk \<le> latest" "uint height + uint (wk_stable wk) < 2 ^ 64"
  shows "wk_end wk > 0 \<Longrightarrow> height < wk_end wk \<Longrightarrow>
      uint height \<le> uint (turn_end wk latest) \<and> uint (turn_end wk latest) < uint (wk_end wk)"
    "wk_end wk = 0 \<Longrightarrow> uint height \<le> uint (turn_end wk latest) \<and>
      uint (turn_end wk latest) + uint (wk_stable wk) = uint latest"
proof -
  have le: "uint height + uint (wk_stable wk) \<le> uint latest"
    using assms by (simp add: word_le_def uint_add_no_wrap)
  moreover have "0 \<le> uint height" by simp
  ultimately have "uint (latest - wk_stable wk) = uint latest - uint (wk_stable wk)"
    by (intro word_diff_less_self) (unfold word_le_def, linarith)
  moreover have "wk_end wk > 0 \<Longrightarrow> uint (wk_end wk - 1) = uint (wk_end wk) - 1"
    by (subst word_diff_less_self) (auto simp: word_less_def word_le_def)
  ultimately show "wk_end wk > 0 \<Longrightarrow> height < wk_end wk \<Longrightarrow>
      uint height \<le> uint (turn_end wk latest) \<and> uint (turn_end wk latest) < uint (wk_end wk)"
    "wk_end wk = 0 \<Longrightarrow> uint height \<le> uint (turn_end wk latest) \<and>
      uint (turn_end wk latest) + uint (wk_stable wk) = uint latest"
    using le by (auto simp: turn_end_def Let_def word_less_def word_le_def)
qed

lemma doSync_loop_returns:
  assumes src: "sync_source E N B S" and hdr: "headers_reach E N (uint (wk_end wk) + uint (wk_stable wk))"
    and bound: "uint (wk_end wk) + 10000 < 2 ^ 64" "uint (wk_end wk) + uint (wk_stable wk) < 2 ^ 64"
    and "wk_end wk > 0"
  shows "\<exists>new w'. doSync_loop E G wk latest height msgs w = Some (msgs @ new, w') \<and>
    messages_of B (missing G S height (uint (wk_end wk))) new"
proof (induction "nat (uint (wk_end wk) - uint height) * (N + 1) + (N - length w)"
    arbitrary: latest height msgs w rule: less_induct)
  case less
  show ?case
  proof (cases "height \<ge> wk_end wk")
    case True
    then have "doSync_turn E G wk latest height msgs w = Some ((False, latest, height, msgs), w)"
      using assms(5) by (simp add: doSync_turn_def)
    with True show ?thesis by (subst doSync_loop.simps) (simp add: missing_def word_le_def)
  next
    case False
    then have lt: "uint height < uint (wk_end wk)" by (simp add: word_le_def)
    have go: "\<not> (wk_end wk > 0 \<and> height \<ge> wk_end wk)" using False by simp
    have sum: "uint height + uint (wk_stable wk) < 2 ^ 64" using lt bound(2) by simp
    have read: "\<exists>new w'. doSync_loop E G wk latest height msgs w0 = Some (msgs @ new, w') \<and>
        messages_of B (missing G S height (uint (wk_end wk))) new"
      if stb: "height + wk_stable wk \<le> latest" and w0: "doSync_loop E G wk latest height msgs w0 =
        doSync_turn E G wk latest height msgs w1 \<bind> (\<lambda>((go_on, latest, height, msgs), w).
          if go_on then doSync_loop E G wk latest height msgs w else Some (msgs, w))" for latest w0 w1
    proof -
      let ?last = "turn_end wk latest"
      have last: "uint height \<le> uint ?last" "uint ?last < uint (wk_end wk)"
        using turn_end_bounds(1) [OF stb sum assms(5)] False by auto
      obtain new w2 where 1: "syncRange E G height ?last msgs w1 = Some (msgs @ new, w2)"
          "messages_of B (missing G S height (uint ?last + 1)) new"
        using syncRange_returns [OF src, of ?last height G msgs w1] last bound by auto
      have plus: "uint (?last + 1) = uint ?last + 1" using last bound(1) by (subst uint_add_no_wrap) auto
      have "Suc (nat (uint (wk_end wk) - uint (?last + 1))) \<le> nat (uint (wk_end wk) - uint height)"
        using last plus by simp
      then have "Suc (nat (uint (wk_end wk) - uint (?last + 1))) * (N + 1) \<le> nat (uint (wk_end wk) - uint height) * (N + 1)"
        by (rule mult_le_mono1)
      then have "nat (uint (wk_end wk) - uint (?last + 1)) * (N + 1) + (N + 1) \<le> nat (uint (wk_end wk) - uint height) * (N + 1)"
        by simp
      moreover have "N - length w2 \<le> N" by simp
      ultimately have "nat (uint (wk_end wk) - uint (?last + 1)) * (N + 1) + (N - length w2)
          < nat (uint (wk_end wk) - uint height) * (N + 1) + (N - length w)" by linarith
      from less [OF this, of latest "msgs @ new"] obtain new' w' where
        "doSync_loop E G wk latest (?last + 1) (msgs @ new) w2 = Some ((msgs @ new) @ new', w')"
        "messages_of B (missing G S (?last + 1) (uint (wk_end wk))) new'" by blast
      moreover have "doSync_turn E G wk latest height msgs w1 = Some ((True, latest, ?last + 1, msgs @ new), w2)"
        using doSync_turn_read [OF go _ 1(1)] stb by simp
      moreover have "missing G S height (uint (wk_end wk)) =
          missing G S height (uint ?last + 1) @ missing G S (?last + 1) (uint (wk_end wk))"
        using heights_append [of height "?last + 1" "uint (wk_end wk)"] last plus by (simp add: missing_def)
      ultimately show ?thesis using 1(2) by (simp add: w0 messages_of_append)
    qed
    show ?thesis
    proof (cases "height + wk_stable wk > latest")
      case False
      then show ?thesis using read [of latest w w] by (simp add: doSync_loop.simps [of E G wk latest height msgs w])
    next
      case True
      note turn = doSync_turn_header [OF go True, of E G msgs w]
      have behind: "\<exists>new w'. doSync_loop E G wk latest' height msgs (w @ [EvHeaderByNumber None, e]) = Some (msgs @ new, w') \<and>
          messages_of B (missing G S height (uint (wk_end wk))) new" if "\<not> N \<le> length w" for latest' e
        using that by (intro less) simp
      show ?thesis
      proof (cases "HeaderByNumber E w None")
        case (Inl err)
        then have "\<not> N \<le> length w" using hdr by (auto simp: headers_reach_def)
        with behind turn Inl show ?thesis by (subst doSync_loop.simps) simp
      next
        case (Inr header)
        let ?latest = "big_Uint64 (h_Number header)"
        show ?thesis
        proof (cases "height + wk_stable wk > ?latest")
          case True
          have "\<not> N \<le> length w"
          proof
            assume "N \<le> length w"
            with hdr Inr have "uint (wk_end wk) + uint (wk_stable wk) \<le> uint ?latest"
              by (auto simp: headers_reach_def)
            with lt have "uint (height + wk_stable wk) \<le> uint ?latest" by (simp add: uint_add_no_wrap [OF sum])
            with True show False by (simp add: word_less_def)
          qed
          with behind turn Inr True show ?thesis by (subst doSync_loop.simps) (simp add: Let_def)
        next
          case False
          have "doSync_loop E G wk latest height msgs w =
              doSync_turn E G wk ?latest height msgs (w @ [EvHeaderByNumber None]) \<bind> (\<lambda>((go_on, latest, height, msgs), w).
              if go_on then doSync_loop E G wk latest height msgs w else Some (msgs, w))"
            by (subst doSync_loop.simps) (simp add: turn Inr Let_def False)
          with False show ?thesis using read [of ?latest _ "w @ [EvHeaderByNumber None]"]
            by (simp add: doSync_loop.simps [of E G wk ?latest])
        qed
      qed
    qed
  qed
qed

section \<open>Dividing the range\<close>

definition worker_heights :: "worker \<Rightarrow> u64 list" where
  "worker_heights wk = heights (wk_start wk) (uint (wk_end wk))"

lemma uint_of_nat_less: "i < unat (n :: u64) \<Longrightarrow> uint (of_nat i :: u64) = int i"
  using u64_unat_bound [of n] by (simp add: unsigned_of_nat take_bit_nat_eq_self)

lemma div_word_pos: "0 < n \<Longrightarrow> n \<le> c \<Longrightarrow> 0 < uint (c div n :: u64) \<and> uint n * uint (c div n) \<le> uint c"
proof -
  assume n: "0 < n" "n \<le> c"
  then have pos: "0 < uint n" "uint n \<le> uint c" by (simp_all add: word_less_def word_le_def)
  then have "1 \<le> uint c div uint n" by (simp add: pos_imp_zdiv_pos_iff [THEN iffD2] int_one_le_iff_zero_less)
  moreover have "uint n * (uint c div uint n) \<le> uint c"
    using pos mult_div_mod_eq [of "uint n" "uint c"] pos_mod_sign [of "uint n" "uint c"] by linarith
  ultimately show ?thesis by (simp add: uint_div)
qed

lemma divide_work_workers:
  assumes div: "divide_work jobs s start final = Some (s', wks)" and "wks \<noteq> []" and "start < final"
  obtains n step where "wks = workers_of (sc_stable s) start final n step" "0 < n"
    "uint start + uint n * uint step \<le> uint final" "0 < uint step" "s' = s\<lparr>sc_start := start, sc_last := final\<rparr>"
proof -
  let ?count = "final - start"
  define n where "n = (if ?count div minWorkBlocks > jobs then jobs
    else if ?count div minWorkBlocks = 0 then 1 else ?count div minWorkBlocks)"
  from assms have wks: "wks = workers_of (sc_stable s) start final n (?count div n)" "n \<noteq> 0"
      "s' = s\<lparr>sc_start := start, sc_last := final\<rparr>"
    by (auto simp: divide_work_def Let_def n_def split: if_splits)
  have count: "uint ?count = uint final - uint start"
    using assms(3) by (intro word_diff_less_self) simp
  have "uint ?count div 100 \<le> uint ?count"
    using div_mult_mod_eq [of "uint ?count" 100] pos_mod_sign [of 100 "uint ?count"]
      pos_imp_zdiv_nonneg_iff [of 100 "uint ?count"] uint_ge_0 [of ?count] by linarith
  then have le: "?count div minWorkBlocks \<le> ?count" by (simp add: word_le_def uint_div minWorkBlocks_def)
  moreover have "1 \<le> ?count"
    using count assms(3) by (simp add: word_le_def word_less_def)
  ultimately have "n \<le> ?count" by (auto simp: n_def)
  then have "0 < uint (?count div n)" "uint n * uint (?count div n) \<le> uint ?count"
    using div_word_pos [of n ?count] wks(2) by (auto simp: word_gt_0)
  with count that [OF wks(1) _ _ _ wks(3)] wks(2) show ?thesis by (simp add: word_gt_0)
qed

lemma step_position:
  fixes start n step final :: u64
  assumes fits: "uint start + uint n * uint step \<le> uint final" and i: "i \<le> unat n"
  shows "uint (start + of_nat i * step) = uint start + int i * uint step" "uint start + int i * uint step \<le> uint final"
proof -
  have u: "uint (of_nat i :: u64) = int i"
    using i u64_unat_bound [of n] by (simp add: unsigned_of_nat take_bit_nat_eq_self)
  have "int i * uint step \<le> int (unat n) * uint step" using i by (intro mult_right_mono) (simp only: of_nat_le_iff, simp)
  then have le: "int i * uint step \<le> uint n * uint step" by simp
  with fits show "uint start + int i * uint step \<le> uint final" by simp
  then have b: "uint start + int i * uint step < 2 ^ 64" "int i * uint step < 2 ^ 64"
    using u64_max_bound [of final] uint_ge_0 [of start] by (simp_all, linarith+)
  then have "uint (of_nat i * step) = int i * uint step" by (subst uint_mult_no_wrap) (simp_all add: u)
  with b show "uint (start + of_nat i * step) = uint start + int i * uint step" by (subst uint_add_no_wrap) simp_all
qed

lemma last_worker:
  assumes "0 < n" "i < unat n"
  shows "of_nat i = (n - 1 :: u64) \<longleftrightarrow> Suc i = unat n"
proof -
  have un: "int (unat n) = uint n" by simp
  have "of_nat i = n - 1 \<longleftrightarrow> uint (of_nat i :: u64) = uint (n - 1)" by (simp add: word_uint_eq_iff)
  also have "uint (n - 1) = uint n - 1"
    using assms(1) by (subst word_diff_less_self) (simp_all add: word_less_def word_le_def)
  also have "uint (of_nat i :: u64) = int i" by (rule uint_of_nat_less [OF assms(2)])
  also have "int i = uint n - 1 \<longleftrightarrow> int (Suc i) = int (unat n)" unfolding un by auto
  finally show ?thesis by (simp only: of_nat_eq_iff)
qed

lemma workers_ends:
  assumes "0 < n" and fits: "uint start + uint n * uint step \<le> uint final" and "0 < uint step"
    and "wk \<in> set (workers_of stb start final n step)"
  shows "uint (wk_end wk) \<le> uint final \<and> 0 < wk_end wk \<and> wk_stable wk = stb"
proof -
  from assms(4) obtain i where i: "i < unat n" "wk_stable wk = stb"
      "wk_end wk = (if of_nat i = n - 1 then final else start + of_nat (Suc i) * step)"
    by (auto simp: workers_of_def add.commute)
  note pos = step_position [OF fits, of "Suc i"]
  have "0 \<le> int i * uint step" by simp
  moreover have "int (Suc i) * uint step = uint step + int i * uint step" by (simp add: algebra_simps)
  ultimately have "0 < uint start + int (Suc i) * uint step"
    using uint_ge_0 [of start] assms(3) by linarith
  with pos i show ?thesis by (auto simp: word_less_def)
qed

lemma workers_tile:
  assumes "0 < n" and fits: "uint start + uint n * uint step \<le> uint final" and "0 < uint step"
  shows "concat (map worker_heights (workers_of stb start final n step)) = heights start (uint final)"
proof -
  have npos: "0 < unat n" using assms(1) by (simp add: word_less_nat_alt)
  define w where "w i = \<lparr>wk_id = int i + 1, wk_stable = stb, wk_start = start + of_nat i * step,
    wk_end = if of_nat i = n - 1 then final else start + (of_nat i + 1) * step\<rparr>" for i
  have ws: "workers_of stb start final n step = map w [0 ..< unat n]" by (simp add: workers_of_def w_def)
  note pos = step_position(1) [OF fits] and last = last_worker [OF assms(1)]
  have prefix: "concat (map worker_heights (map w [0 ..< k])) = heights start (uint start + int k * uint step)"
    if "k < unat n" for k
    using that
  proof (induction k)
    case (Suc k)
    have "uint start + int (Suc k) * uint step = uint (start + of_nat (Suc k) * step)" using pos [of "Suc k"] Suc.prems by simp
    moreover have "wk_end (w k) = start + of_nat (Suc k) * step" "wk_start (w k) = start + of_nat k * step"
      using last [of k] Suc.prems by (simp_all add: w_def add.commute)
    moreover have "heights start (uint (start + of_nat (Suc k) * step)) =
        heights start (uint (start + of_nat k * step)) @ heights (start + of_nat k * step) (uint (start + of_nat (Suc k) * step))"
      using pos [of k] pos [of "Suc k"] Suc.prems assms(3)
      by (intro heights_append) (simp_all add: algebra_simps)
    ultimately show ?case
      using Suc pos [of k] by (simp add: worker_heights_def)
  qed simp
  let ?m = "unat n - 1"
  have m: "[0 ..< unat n] = [0 ..< ?m] @ [?m]" using npos by (metis Suc_diff_1 upt_Suc_append zero_le)
  have "wk_start (w ?m) = start + of_nat ?m * step" "wk_end (w ?m) = final"
    using last [of ?m] npos by (simp_all add: w_def)
  moreover have "heights start (uint final) = heights start (uint (start + of_nat ?m * step)) @
      heights (start + of_nat ?m * step) (uint final)"
  proof (rule heights_append)
    have "0 \<le> int ?m * uint step" by (rule mult_nonneg_nonneg) simp_all
    then show "uint start \<le> uint (start + of_nat ?m * step)" using pos [of ?m] by linarith
    show "uint (start + of_nat ?m * step) \<le> uint final" using step_position [OF fits, of ?m] by linarith
  qed
  moreover have "concat (map worker_heights (map w [0 ..< ?m])) = heights start (uint (start + of_nat ?m * step))"
    using prefix [of ?m] npos pos [of ?m] by simp
  ultimately show ?thesis by (simp only: ws m map_append concat_append) (simp add: worker_heights_def)
qed

lemma run_workers_returns:
  assumes src: "sync_source E N B S"
    and wks: "\<And>wk. wk \<in> set wks \<Longrightarrow> headers_reach E N (uint (wk_end wk) + uint (wk_stable wk)) \<and>
      uint (wk_end wk) + 10000 < 2 ^ 64 \<and> uint (wk_end wk) + uint (wk_stable wk) < 2 ^ 64 \<and> wk_end wk > 0"
  shows "\<exists>batches w'. run_workers E G wks w = Some (batches, w') \<and>
    messages_of B (filter (\<lambda>n. overwrite G \<or> n \<notin> S) (concat (map worker_heights wks))) (concat batches)"
  using wks
proof (induction wks arbitrary: w)
  case (Cons wk wks)
  from Cons.prems [of wk] doSync_loop_returns [OF src, of wk G "wk_end wk" "wk_start wk" "[]" w]
  obtain new w1 where 1: "doSync E G wk w = Some (new, w1)" "messages_of B (filter (\<lambda>n. overwrite G \<or> n \<notin> S) (worker_heights wk)) new"
    unfolding doSync_def missing_def worker_heights_def by auto
  obtain batches w2 where "run_workers E G wks w1 = Some (batches, w2)"
      "messages_of B (filter (\<lambda>n. overwrite G \<or> n \<notin> S) (concat (map worker_heights wks))) (concat batches)"
    using Cons.IH [of w1] Cons.prems by auto
  with 1 show ?case by (simp add: messages_of_append)
qed simp

lemma dipatchWork_workers:
  assumes "dipatchWork E G P s w0 = Some ((s', wks), w)" "wks \<noteq> []"
  obtains n step where "wks = workers_of (sc_stable s') (sc_start s') (sc_last s') n step" "0 < n"
    "uint (sc_start s') + uint n * uint step \<le> uint (sc_last s')" "0 < uint step"
proof -
  from assms(1) obtain start final where div: "divide_work (sv_jobCount G) s start final = Some (s', wks)"
    by (auto simp: dipatchWork_def split: Option.bind_splits)
  with assms(2) have "start < final"
    by (cases "final \<le> start") (auto simp: divide_work_def Let_def minWorkBlocks_def split: if_splits)
  from divide_work_workers [OF div assms(2) this] obtain n step where
    "wks = workers_of (sc_stable s) start final n step" "0 < n"
    "uint start + uint n * uint step \<le> uint final" "0 < uint step" "s' = s\<lparr>sc_start := start, sc_last := final\<rparr>" .
  then show ?thesis by (intro that [of n step]) simp_all
qed

lemma workers_read_missing:
  assumes "dipatchWork E G P s w0 = Some ((s', wks), w)" "wks \<noteq> []"
    and "sync_source E N B S" "headers_reach E N (uint (sc_last s') + uint (sc_stable s'))"
    and "uint (sc_last s') + uint (sc_stable s') < 2 ^ 64" "uint (sc_last s') + 10000 < 2 ^ 64"
  shows "\<exists>batches w'. run_workers E G wks w = Some (batches, w') \<and>
    messages_of B (missing G S (sc_start s') (uint (sc_last s'))) (concat batches)"
proof -
  from dipatchWork_workers [OF assms(1,2)] obtain n step where wks:
    "wks = workers_of (sc_stable s') (sc_start s') (sc_last s') n step" "0 < n"
    "uint (sc_start s') + uint n * uint step \<le> uint (sc_last s')" "0 < uint step" .
  have ends: "uint (wk_end wk) \<le> uint (sc_last s') \<and> 0 < wk_end wk \<and> wk_stable wk = sc_stable s'" if "wk \<in> set wks" for wk
    using workers_ends [OF wks(2-4)] that wks(1) by blast
  have "headers_reach E N (uint (wk_end wk) + uint (wk_stable wk)) \<and> uint (wk_end wk) + 10000 < 2 ^ 64 \<and>
      uint (wk_end wk) + uint (wk_stable wk) < 2 ^ 64 \<and> wk_end wk > 0" if "wk \<in> set wks" for wk
  proof -
    note e = ends [OF that]
    then have "uint (wk_end wk) + uint (wk_stable wk) \<le> uint (sc_last s') + uint (sc_stable s')" by simp
    with assms(4) have "headers_reach E N (uint (wk_end wk) + uint (wk_stable wk))"
      unfolding headers_reach_def by (meson order_trans)
    with e assms(5,6) show ?thesis by auto
  qed
  from run_workers_returns [OF assms(3) this]
  have "\<exists>batches w'. run_workers E G wks w = Some (batches, w') \<and>
      messages_of B (filter (\<lambda>n. overwrite G \<or> n \<notin> S) (concat (map worker_heights wks))) (concat batches)" .
  then show ?thesis by (simp add: wks workers_tile [OF wks(2-4)] missing_def)
qed

text \<open>
  C27: The initial synchronisation reads every block of its range that the database lacks, once
  and in order, and no other: the workers among which the range is divided return, and the
  messages they hand to their parsers are, one after the other, the blocks at the missing
  heights from the start of the range up to its end (all heights with \<open>overwrite\<close>), each with
  one receipt entry per transaction. The node and the database may fail at first.
\<close>

theorem sync_reads_missing_blocks:
  assumes "dipatchWork E G P s w0 = Some ((s', wks), w)" "wks \<noteq> []"
    and "sync_source E N B S" "headers_reach E N (uint (sc_last s') + uint (sc_stable s'))"
    and "uint (sc_last s') + uint (sc_stable s') < 2 ^ 64" "uint (sc_last s') + 10000 < 2 ^ 64"
  shows "\<exists>batches w'. run_workers E G wks w = Some (batches, w') \<and>
    messages_of B (missing G S (sc_start s') (uint (sc_last s'))) (concat batches)"
  by (rule workers_read_missing [OF assms])

section \<open>The worker that follows the chain\<close>

text \<open>One turn of a loop that goes on; a state is the latest height, the next one, the messages and the history.\<close>

inductive sync_turn ::
  "env \<Rightarrow> sync_vars \<Rightarrow> worker \<Rightarrow> u64 \<times> u64 \<times> message list \<times> world \<Rightarrow> u64 \<times> u64 \<times> message list \<times> world \<Rightarrow> bool"
  for E G wk where
  turn: "doSync_turn E G wk latest height msgs w = Some ((True, latest', height', msgs'), w') \<Longrightarrow>
    sync_turn E G wk (latest, height, msgs, w) (latest', height', msgs', w')"

inductive_cases sync_turnE: "sync_turn E G wk (latest, height, msgs, w) t"

text \<open>A height the node reported at some time.\<close>

definition reported :: "env \<Rightarrow> u64 \<Rightarrow> bool" where
  "reported E n \<longleftrightarrow> (\<exists>w header. HeaderByNumber E w None = Inr header \<and> n = big_Uint64 (h_Number header))"

definition follows ::
  "env \<Rightarrow> sync_vars \<Rightarrow> (u64 \<Rightarrow> Block) \<Rightarrow> u64 set \<Rightarrow> syncer \<Rightarrow> u64 \<times> u64 \<times> message list \<times> world \<Rightarrow> bool" where
  "follows E G B S s = (\<lambda>(latest, height, msgs, w).
     messages_of B (missing G S (sc_last s) (uint height)) msgs \<and> uint (sc_last s) \<le> uint height \<and>
     (latest = 0 \<or> reported E latest) \<and>
     (height = sc_last s \<or> (\<exists>seen. reported E seen \<and> uint height + uint (sc_stable s) \<le> uint seen + 1)))"

lemma follows_turn:
  assumes src: "sync_source E N B S" and heights: "\<And>n. reported E n \<Longrightarrow> uint n + 10000 < 2 ^ 64"
    and pos: "0 < uint (sc_last s) + uint (sc_stable s)" "uint (sc_last s) + uint (sc_stable s) < 2 ^ 64"
    and step: "sync_turn E G (loop_worker s) st st'" and inv: "follows E G B S s st"
  shows "follows E G B S s st'"
proof -
  obtain latest height msgs w where st: "st = (latest, height, msgs, w)" by (cases st)
  note inv = inv [unfolded st follows_def prod.case]
  have sum: "uint height + uint (sc_stable s) < 2 ^ 64"
    using inv pos heights by (auto dest!: heights)
  have pos': "0 < uint height + uint (sc_stable s)" using inv pos(1) by auto
  have wk: "wk_end (loop_worker s) = 0" "wk_stable (loop_worker s) = sc_stable s" by (simp_all add: loop_worker_def)
  have go: "\<not> (wk_end (loop_worker s) > 0 \<and> height \<ge> wk_end (loop_worker s))" by (simp add: wk)
  have read: "follows E G B S s (latest', height', msgs', w')"
    if stb: "height + wk_stable (loop_worker s) \<le> latest1" and rep: "reported E latest1"
      and turn: "doSync_turn E G (loop_worker s) latest1 height msgs w1 = Some ((True, latest', height', msgs'), w')"
    for latest1 latest' height' msgs' w1 w'
  proof -
    let ?last = "turn_end (loop_worker s) latest1"
    have last: "uint height \<le> uint ?last" "uint ?last + uint (sc_stable s) = uint latest1"
      using turn_end_bounds(2) [OF stb] sum by (auto simp: wk)
    have bound: "uint ?last + 10000 < 2 ^ 64" using heights [OF rep] last uint_ge_0 [of "sc_stable s"] by linarith
    obtain new w2 where 1: "syncRange E G height ?last msgs w1 = Some (msgs @ new, w2)"
        "messages_of B (missing G S height (uint ?last + 1)) new"
      using syncRange_returns [OF src bound, of height G msgs w1] last by auto
    have plus: "uint (?last + 1) = uint ?last + 1" using bound by (subst uint_add_no_wrap) auto
    have t: "latest' = latest1" "height' = ?last + 1" "msgs' = msgs @ new"
      using turn doSync_turn_read [OF go _ 1(1)] stb by auto
    have "missing G S (sc_last s) (uint ?last + 1) = missing G S (sc_last s) (uint height) @ missing G S height (uint ?last + 1)"
      using heights_append [of "sc_last s" height "uint ?last + 1"] inv last by (simp add: missing_def)
    with inv 1(2) last rep plus show ?thesis
      by (auto simp: follows_def t messages_of_append intro!: exI [of _ latest1])
  qed
  from step [unfolded st] obtain latest' height' msgs' w' where st': "st' = (latest', height', msgs', w')"
    and turn: "doSync_turn E G (loop_worker s) latest height msgs w = Some ((True, latest', height', msgs'), w')"
    by (rule sync_turnE)
  show ?thesis
  proof (cases "height + wk_stable (loop_worker s) > latest")
    case False
    have "latest \<noteq> 0"
    proof
      assume "latest = 0"
      with False have "height + sc_stable s = 0" by (simp add: wk word_gt_0)
      with pos' show False using uint_add_no_wrap [OF sum] by simp
    qed
    with inv have "reported E latest" by simp
    from read [OF _ this turn] False show ?thesis by (simp add: st')
  next
    case True
    note header = doSync_turn_header [OF go True, of E G msgs w]
    show ?thesis
    proof (cases "HeaderByNumber E w None")
      case (Inl err)
      with turn header inv show ?thesis by (auto simp: st' follows_def)
    next
      case (Inr h)
      then have rep: "reported E (big_Uint64 (h_Number h))" by (auto simp: reported_def)
      show ?thesis
      proof (cases "height + wk_stable (loop_worker s) > big_Uint64 (h_Number h)")
        case True
        with turn header Inr inv rep show ?thesis by (auto simp: st' follows_def Let_def)
      next
        case False
        with turn header Inr have "doSync_turn E G (loop_worker s) (big_Uint64 (h_Number h)) height msgs
            (w @ [EvHeaderByNumber None]) = Some ((True, latest', height', msgs'), w')" by (simp add: Let_def)
        from read [OF _ rep this] False show ?thesis by (simp add: st')
      qed
    qed
  qed
qed

text \<open>
  C28: The worker that follows the chain keeps up without gaps and stays below the stable height:
  after any number of turns of its endless loop, the messages it sent are those of the missing
  heights from its start up to the next height, in order, and a block is read only when the node
  has reported a height at least the stable height above it.
\<close>

theorem loop_worker_follows_chain:
  assumes "sync_source E N B S" "\<And>n. reported E n \<Longrightarrow> uint n + 10000 < 2 ^ 64"
    and "0 < uint (sc_last s) + uint (sc_stable s)" "uint (sc_last s) + uint (sc_stable s) < 2 ^ 64"
    and "(sync_turn E G (loop_worker s))\<^sup>*\<^sup>* (0, sc_last s, [], w0) (latest, height, msgs, w)"
  shows "messages_of B (missing G S (sc_last s) (uint height)) msgs \<and>
    (height = sc_last s \<or> (\<exists>seen. reported E seen \<and> uint height + uint (sc_stable s) \<le> uint seen + 1))"
proof -
  have "follows E G B S s (latest, height, msgs, w)"
    using assms(5)
  proof (induction "(latest, height, msgs, w)" arbitrary: latest height msgs w rule: rtranclp_induct)
    case base
    show ?case by (simp add: follows_def missing_def)
  next
    case (step st)
    obtain a b c d where "st = (a, b, c, d)" by (cases st)
    with step follows_turn [OF assms(1-4)] show ?case by blast
  qed
  then show ?thesis by (auto simp: follows_def)
qed

section \<open>A concrete synchronisation\<close>

definition sync_block :: "u64 \<Rightarrow> Block" where
  "sync_block n = \<lparr>bk_Hash = ucast n, bk_Number = n, bk_ParentHash = 0, bk_Nonce = 0, bk_Coinbase = 0,
     bk_Difficulty = 1, bk_GasLimit = 0, bk_GasUsed = 0, bk_Time = 13 * uint n, bk_Transactions = []\<rparr>"

definition sync_env :: env where
  "sync_env = base_env\<lparr>BlockByNumber := \<lambda>w k. Inr (sync_block (word_of_int k)), TransactionReceipt := \<lambda>w h. Inr None\<rparr>"

lemma sync_env_source: "sync_source sync_env 0 sync_block {}"
  by (simp add: sync_source_def sync_env_def base_env_def sync_block_def)

lemma sync_env_headers: "headers_reach sync_env 0 1000"
  by (simp add: headers_reach_def sync_env_def base_env_def base_header_def big_Uint64_def)

definition sync_job :: syncer where
  "sync_job = \<lparr>sc_stable = 10, sc_start = 100, sc_end = 400, sc_last = 0\<rparr>"

lemma sync_dispatch:
  "map_option fst (dipatchWork sync_env init_vars test_params sync_job []) =
     Some (sync_job\<lparr>sc_last := 400\<rparr>, workers_of 10 100 400 3 100)"
  "length (workers_of 10 100 400 3 100) = 3"
  by code_simp+

theorem sync_reads_missing_blocks_witness:
  "\<exists>s' wks w' batches w''. dipatchWork sync_env init_vars test_params sync_job [] = Some ((s', wks), w') \<and> length wks = 3 \<and>
     run_workers sync_env init_vars wks w' = Some (batches, w'') \<and>
     map fst (concat batches) = map sync_block (heights 100 400)"
proof -
  from sync_dispatch obtain w' where run: "dipatchWork sync_env init_vars test_params sync_job [] =
      Some ((sync_job\<lparr>sc_last := 400\<rparr>, workers_of 10 100 400 3 100), w')" by auto
  have "headers_reach sync_env 0 410" using sync_env_headers by (force simp: headers_reach_def)
  with sync_reads_missing_blocks [OF run _ sync_env_source] sync_dispatch(2) run show ?thesis
    by (fastforce simp: sync_job_def messages_of_def missing_def)
qed

definition loop_job :: syncer where
  "loop_job = \<lparr>sc_stable = 10, sc_start = 100, sc_end = 0, sc_last = 985\<rparr>"

theorem loop_worker_follows_chain_witness:
  "\<exists>latest msgs w. (sync_turn sync_env init_vars (loop_worker loop_job))\<^sup>*\<^sup>* (0, 985, [], []) (latest, 991, msgs, w) \<and>
     map fst msgs = map sync_block (heights 985 991)"
proof -
  let ?wk = "loop_worker loop_job"
  have header: "HeaderByNumber sync_env w None = Inr (base_header None)" "big_Uint64 (h_Number (base_header None)) = 1000" for w
    by (simp_all add: sync_env_def base_env_def base_header_def big_Uint64_def)
  have wk: "wk_end ?wk = 0" "wk_stable ?wk = 10" "turn_end ?wk 1000 = 990"
    by (simp_all add: loop_worker_def loop_job_def turn_end_def)
  obtain msgs w where read: "syncRange sync_env init_vars 985 990 [] [EvHeaderByNumber None] = Some (msgs, w)"
    using syncRange_returns [OF sync_env_source, of 990 985 init_vars "[]" "[EvHeaderByNumber None]"] by auto
  have "doSync_turn sync_env init_vars ?wk 0 985 [] [] = Some ((True, 1000, 991, msgs), w)"
    using doSync_turn_read [of ?wk 985 1000 sync_env init_vars "[]" "[EvHeaderByNumber None]" msgs w] read
    by (subst doSync_turn_header) (simp_all add: wk header Let_def)
  then have "sync_turn sync_env init_vars ?wk (0, 985, [], []) (1000, 991, msgs, w)" by (rule turn)
  then have steps: "(sync_turn sync_env init_vars ?wk)\<^sup>*\<^sup>* (0, sc_last loop_job, [], []) (1000, 991, msgs, w)"
    by (simp add: loop_job_def)
  have "uint n + 10000 < 2 ^ 64" if "reported sync_env n" for n
    using that by (auto simp: reported_def header)
  from loop_worker_follows_chain [OF sync_env_source this _ _ steps]
  have "map fst msgs = map sync_block (heights 985 991)"
    by (simp add: loop_job_def messages_of_def missing_def)
  with steps show ?thesis by (auto simp: loop_job_def)
qed

end
