(* ===== verification/Pipeline.thy ===== *)
theory Pipeline
  imports Trades Sync_Range Options
begin

text \<open>
  From the chain to the rewards: what the workers of the syncer read, their parsers store, and what
  the distribution by volume then finds in the database.
\<close>

section \<open>Projections of what is stored\<close>

fun block_doc :: "mgo_doc \<Rightarrow> MgoBlock option" where
  "block_doc (DocBlock mb) = Some mb"
| "block_doc _ = None"

fun volume_doc :: "mgo_doc \<Rightarrow> MgoVolumeHistory option" where
  "volume_doc (DocVolumeHistory h) = Some h"
| "volume_doc _ = None"

definition stored_blocks :: "world \<Rightarrow> MgoBlock list" where
  "stored_blocks w = List.map_filter block_doc (stored w)"

lemma map_filter_simps' [simp]:
  "List.map_filter p [] = []" "List.map_filter p (xs @ ys) = List.map_filter p xs @ List.map_filter p ys"
  by (simp_all add: map_filter_def)

lemma mset_map_filter: "mset xs = mset ys \<Longrightarrow> mset (List.map_filter p xs) = mset (List.map_filter p ys)"
  by (simp add: map_filter_def)

lemma map_filter_concat: "List.map_filter p (concat xss) = concat (map (List.map_filter p) xss)"
  by (induction xss) simp_all

lemma recorded_stored: "recorded w = List.map_filter volume_doc (stored w)"
proof (induction w)
  case (Cons e w)
  have "(case trade_event e of None \<Rightarrow> [] | Some h \<Rightarrow> [h]) =
      (case stored_doc e of None \<Rightarrow> [] | Some d \<Rightarrow> (case volume_doc d of None \<Rightarrow> [] | Some h \<Rightarrow> [h]))"
    by (cases e rule: trade_event.cases) (auto split: option.split elim: stored_doc.elims volume_doc.elims)
  with Cons show ?case by (auto simp: map_filter_def split: option.splits)
qed simp

lemma parsed_projection:
  assumes "good_writes E" "no_daily_volumes P"
    and "(parser_step E G wk)\<^sup>*\<^sup>* (startParser msgs P w) s" "parsed s"
  shows "mset (List.map_filter p (stored (ps_world s))) =
    mset (List.map_filter p (stored w)) +
    mset (concat (map (\<lambda>j. List.map_filter p (alone E G wk P j)) (concat (map (jobs_of G) msgs))))"
proof -
  have "mset (stored (ps_world s)) = mset (stored w @ concat (map (alone E G wk P) (concat (map (jobs_of G) msgs))))"
    using parser_steps_store [OF assms(1-3)] assms(4) by (simp add: parsed_def pending_def docs_of_mset)
  from mset_map_filter [OF this, of p] show ?thesis by (simp add: map_filter_concat o_def)
qed

section \<open>What a job stores\<close>

lemma first_try_writes:
  assumes "good_writes E"
  shows "\<exists>w'. TryDoTimes (AddBlock E mb ow) w = Some (None, w') \<and> stored w' = stored w @ [DocBlock mb]"
    "\<exists>w'. TryDoTimes (UpdateSyncInfo E n h t) w = Some (None, w') \<and> stored w' = stored w"
  using assms
  by (auto simp: TryDoTimes_def retryDBCount_def numeral_3_eq_3 AddBlock_def UpdateSyncInfo_def db_Insert_def
      db_UpsertId_def db_UpdateId_def good_writes_def Let_def dup_ok_def split: option.splits)

lemma alone_block:
  assumes "good_writes E"
  shows "\<exists>mb. alone E G wk P (BlockJob block) = [DocBlock mb] \<and> mb_Number mb = bk_Number block \<and>
    mb_Hash mb = Hash_Hex E (bk_Hash block)"
proof -
  let ?run = "parseBlock E G wk block []"
  obtain mb w1 where 1: "mb_Number mb = bk_Number block" "mb_Hash mb = Hash_Hex E (bk_Hash block)"
      "?run = (if wk_end wk = 0 \<and> hasSyncToLatest G
        then TryDoTimes (UpdateSyncInfo E (mb_Number mb) (mb_Hash mb) (mb_Timestamp mb)) w1 \<bind> (\<lambda>(_, w). Some ((), w))
        else Some ((), w1))" "stored w1 = [DocBlock mb]"
  proof -
    let ?mb = "\<lparr>mb_Key = Hash_Hex E (bk_Hash block), mb_Number = bk_Number block, mb_Hash = Hash_Hex E (bk_Hash block),
       mb_ParentHash = Hash_Hex E (bk_ParentHash block), mb_Nonce = fmt_u64 (bk_Nonce block),
       mb_Miner = ToLower (Address_String E (bk_Coinbase block)), mb_Difficulty = big_String (bk_Difficulty block),
       mb_GasLimit = bk_GasLimit block, mb_GasUsed = bk_GasUsed block, mb_Timestamp = big_Uint64 (bk_Time block)\<rparr>"
    obtain w1 where "TryDoTimes (AddBlock E ?mb (overwrite G)) [] = Some (None, w1)" "stored w1 = [DocBlock ?mb]"
      using first_try_writes(1) [OF assms, of ?mb "overwrite G" "[]"] by auto
    then show thesis by (intro that [of ?mb w1]) (simp_all add: parseBlock_def Let_def)
  qed
  moreover obtain w2 where "TryDoTimes (UpdateSyncInfo E (mb_Number mb) (mb_Hash mb) (mb_Timestamp mb)) w1 = Some (None, w2)"
      "stored w2 = stored w1"
    using first_try_writes(2) [OF assms] by blast
  ultimately show ?thesis by (auto simp: alone_def)
qed

abbreviation no_block :: "'a action \<Rightarrow> bool" where
  "no_block f \<equiv> only (\<lambda>e. Option.bind (stored_doc e) block_doc = None) f"

lemma no_block_stored: "no_block f \<Longrightarrow> f w = Some (r, w') \<Longrightarrow> stored_blocks w' = stored_blocks w"
proof -
  have eq: "stored_blocks w = List.map_filter (\<lambda>e. Option.bind (stored_doc e) block_doc) w" for w
    by (induction w) (auto simp: stored_blocks_def map_filter_def split: option.split)
  assume "no_block f" "f w = Some (r, w')"
  then show ?thesis unfolding eq by (blast dest: onlyD intro: adds_mapfilter)
qed

lemma no_block_event:
  "block_doc d = None \<Longrightarrow> Option.bind (stored_doc (EvInsert d err)) block_doc = None"
  "block_doc d = None \<Longrightarrow> Option.bind (stored_doc (EvUpsertId k d err)) block_doc = None"
  by (cases err; simp)+

lemma no_block_writes:
  "no_block (AddTransaction E mt ow)" "no_block (AddAccount E ma)" "no_block (AddTokenAccount E ta)"
  "no_block (AddVolume E mv ow)" "no_block (AddVolumeHistory E mh ow)" "no_block (FindVolume E key)"
  by (auto intro!: onlyI simp: AddTransaction_def AddAccount_def AddTokenAccount_def AddVolume_def AddVolumeHistory_def
      FindVolume_def db_Insert_def db_UpsertId_def Let_def no_block_event split: if_splits option.splits)

lemma no_block_TryDoTimes: "no_block f \<Longrightarrow> no_block (TryDoTimes f)"
  by (rule only_TryDoTimes) simp_all

lemma no_block_volume: "no_block (UpdateVolumeWithReceipt E exr h n t)"
  unfolding UpdateVolumeWithReceipt_def [abs_def] by (rule no_block_writes only_rules | rule only_bind_pure)+

lemma no_block_accounts:
  "no_block (recordAccounts E exchange pairs account)" "no_block (recordTokenAccounts E P token account)"
  "no_block (updateVolumes E G P mt exr topic)" "no_block (recordAccountVoumes E G P mt exr topic)"
  unfolding recordAccounts_def [abs_def] recordTokenAccounts_def [abs_def] updateVolumes_def [abs_def] recordAccountVoumes_def [abs_def]
  by (rule no_block_TryDoTimes no_block_writes no_block_volume only_rules | rule only_bind_pure)+

lemma no_block_parse_log: "no_block (parse_log E G P mt idx rlog)"
  unfolding parse_log_def [abs_def] Let_def addExchangeReceipt_def [abs_def] addErc20Receipt_def [abs_def]
  by (rule no_block_accounts only_rules | rule only_bind_pure)+

lemma no_block_parse_logs: "no_block (parse_logs E G P mt idx rlogs savedb)"
proof (induction rlogs arbitrary: P mt idx savedb)
  case (Cons rlog rest)
  show ?case unfolding parse_logs.simps [abs_def] by (rule no_block_parse_log Cons.IH only_rules | rule only_bind_pure)+
qed (simp add: only_def)

lemma no_block_parseTx: "no_block (parseTx E G i tx block receipts P)"
  unfolding parseTx_def [abs_def] parseReceipt_def [abs_def]
  by (rule no_block_parse_logs no_block_TryDoTimes no_block_writes only_rules | rule only_bind_pure)+

lemma alone_tx_blocks: "List.map_filter block_doc (alone E G wk P (TxJob i tx block receipts)) = []"
  using no_block_stored [OF no_block_parseTx, of E G i tx block receipts P "[]"]
  by (auto simp: alone_def stored_blocks_def split: option.split)

section \<open>From the chain to the database\<close>

abbreviation block_id :: "MgoBlock \<Rightarrow> u64 \<times> string" where
  "block_id mb \<equiv> (mb_Number mb, mb_Hash mb)"

lemma message_blocks:
  assumes "good_writes E" "\<not> onlySyncAccount G"
  shows "map block_id (concat (map (\<lambda>j. List.map_filter block_doc (alone E G wk P j)) (jobs_of G msg))) =
    [(bk_Number (fst msg), Hash_Hex E (bk_Hash (fst msg)))]"
proof -
  obtain block receipts where msg: "msg = (block, receipts)" by (cases msg)
  obtain mb where "alone E G wk P (BlockJob block) = [DocBlock mb]" "mb_Number mb = bk_Number block"
      "mb_Hash mb = Hash_Hex E (bk_Hash block)"
    using alone_block [OF assms(1)] by blast
  moreover have "concat (map (\<lambda>j. List.map_filter block_doc (alone E G wk P j)) (parseTransactions block receipts)) = []"
    by (auto simp: parseTransactions_def alone_tx_blocks)
  ultimately show ?thesis using assms(2) by (simp add: msg jobs_of_def map_filter_def)
qed

lemma parser_stores_blocks:
  assumes "good_writes E" "no_daily_volumes P" "\<not> onlySyncAccount G"
    and "(parser_step E G wk)\<^sup>*\<^sup>* (startParser msgs P []) s" "parsed s"
  shows "mset (map block_id (stored_blocks (ps_world s))) =
    mset (map (\<lambda>msg. (bk_Number (fst msg), Hash_Hex E (bk_Hash (fst msg)))) msgs)"
proof -
  let ?docs = "concat (map (\<lambda>j. List.map_filter block_doc (alone E G wk P j)) (concat (map (jobs_of G) msgs)))"
  have ids: "map block_id ?docs = map (\<lambda>msg. (bk_Number (fst msg), Hash_Hex E (bk_Hash (fst msg)))) msgs"
    by (induction msgs) (simp_all add: message_blocks [OF assms(1,3)] del: map_map)
  have "mset (stored_blocks (ps_world s)) = mset ?docs"
    using parsed_projection [OF assms(1,2,4,5), of block_doc] by (simp add: stored_blocks_def)
  then have "mset (map block_id (stored_blocks (ps_world s))) = mset (map block_id ?docs)"
    by (simp only: mset_map)
  then show ?thesis by (simp only: ids)
qed

text \<open>The parsers of the workers, each with its messages, when they have finished.\<close>

definition parser_ends :: "env \<Rightarrow> sync_vars \<Rightarrow> params \<Rightarrow> worker \<times> message list \<Rightarrow> parser \<Rightarrow> bool" where
  "parser_ends E G P = (\<lambda>(wk, msgs) s. (parser_step E G wk)\<^sup>*\<^sup>* (startParser msgs P []) s \<and> parsed s)"

lemma parsers_store_blocks:
  assumes "good_writes E" "no_daily_volumes P" "\<not> onlySyncAccount G"
    and "list_all2 (parser_ends E G P) (zip wks batches) ss" "length wks = length batches"
  shows "mset (map block_id (concat (map (stored_blocks \<circ> ps_world) ss))) =
    mset (map (\<lambda>msg. (bk_Number (fst msg), Hash_Hex E (bk_Hash (fst msg)))) (concat batches))"
  using assms(5,4)
proof (induction wks batches arbitrary: ss rule: list_induct2)
  case (Cons wk wks msgs batches)
  then obtain s ss' where ss: "ss = s # ss'" "parser_ends E G P (wk, msgs) s" "list_all2 (parser_ends E G P) (zip wks batches) ss'"
    by (auto simp: list_all2_Cons1)
  from Cons.IH [OF ss(3)] parser_stores_blocks [OF assms(1-3), of wk msgs s] ss(1,2) show ?case
    by (simp add: parser_ends_def)
qed simp

lemma run_workers_length: "run_workers E G wks w = Some (batches, w') \<Longrightarrow> length batches = length wks"
  by (induction wks arbitrary: w batches) (auto simp: bind_eq_Some_conv)


section \<open>From the database to the shares\<close>

text \<open>The trades of a message: those of its successful receipts, in order.\<close>

definition block_trades :: "env \<Rightarrow> params \<Rightarrow> message \<Rightarrow> MgoVolumeHistory list" where
  "block_trades E P = (\<lambda>(block, receipts). concat (map (\<lambda>(i, tx).
     case receipts ! i of None \<Rightarrow> []
     | Some r \<Rightarrow> if rc_Status r = 0 then [] else trades E P (tx_document E i tx block (Some r)) 0 (rc_Logs r))
     (enumerate 0 (bk_Transactions block))))"

lemma alone_tx_trades:
  assumes "good_writes E" "topics_differ E" "\<not> onlySyncAccount G"
    and "run_job E G wk (TxJob i tx block receipts) P [] \<noteq> None"
  shows "List.map_filter volume_doc (alone E G wk P (TxJob i tx block receipts)) =
    (case receipts ! i of None \<Rightarrow> []
     | Some r \<Rightarrow> if rc_Status r = 0 then [] else trades E P (tx_document E i tx block (Some r)) 0 (rc_Logs r))"
proof -
  obtain P' w' where run: "parseTx E G i tx block receipts P [] = Some (P', w')" using assms(4) by auto
  with parseTx_trades [OF assms(1-3) run] show ?thesis by (simp add: alone_def flip: recorded_stored)
qed

lemma message_trades:
  assumes "good_writes E" "no_daily_volumes P" "cf_Sync (config P) \<noteq> None" "topics_differ E" "\<not> onlySyncAccount G"
    and "readable E msg"
  shows "concat (map (\<lambda>j. List.map_filter volume_doc (alone E G wk P j)) (jobs_of G msg)) = block_trades E P msg"
proof -
  obtain block receipts where msg: "msg = (block, receipts)" by (cases msg)
  obtain mb where "alone E G wk P (BlockJob block) = [DocBlock mb]" using alone_block [OF assms(1)] by blast
  then have "List.map_filter volume_doc (alone E G wk P (BlockJob block)) = []" by (simp add: map_filter_def)
  moreover have "run_job E G wk j P [] \<noteq> None" if "j \<in> set (parseTransactions block receipts)" for j
    by (rule readable_job [OF assms(3,2,6)]) (use that msg in \<open>simp add: jobs_of_def\<close>)
  then have "run_job E G wk (TxJob i tx block receipts) P [] \<noteq> None" if "(i, tx) \<in> set (enumerate 0 (bk_Transactions block))" for i tx
    using rev_image_eqI [OF that, of "TxJob i tx block receipts" "\<lambda>(i, tx). TxJob i tx block receipts"]
    unfolding parseTransactions_def set_map prod.case by blast
  note trades = alone_tx_trades [OF assms(1,4,5) this]
  have "map (\<lambda>j. List.map_filter volume_doc (alone E G wk P j)) (parseTransactions block receipts) =
      map (\<lambda>(i, tx). case receipts ! i of None \<Rightarrow> []
        | Some r \<Rightarrow> if rc_Status r = 0 then [] else trades E P (tx_document E i tx block (Some r)) 0 (rc_Logs r))
        (enumerate 0 (bk_Transactions block))"
    unfolding parseTransactions_def map_map o_def
    by (intro map_cong refl) (auto simp only: trades split: prod.split)
  ultimately show ?thesis using assms(5) by (simp add: msg jobs_of_def block_trades_def)
qed

lemma parser_records_trades:
  assumes "good_writes E" "no_daily_volumes P" "cf_Sync (config P) \<noteq> None" "topics_differ E" "\<not> onlySyncAccount G"
    and "\<forall>msg \<in> set msgs. readable E msg"
    and "(parser_step E G wk)\<^sup>*\<^sup>* (startParser msgs P []) s" "parsed s"
  shows "mset (recorded (ps_world s)) = mset (concat (map (block_trades E P) msgs))"
proof -
  have "concat (map (\<lambda>j. List.map_filter volume_doc (alone E G wk P j)) (concat (map (jobs_of G) msgs))) =
      concat (map (block_trades E P) msgs)"
    using assms(6) by (induction msgs) (simp_all add: message_trades [OF assms(1-5)])
  with parsed_projection [OF assms(1,2,7,8), of volume_doc] show ?thesis by (simp add: recorded_stored)
qed

text \<open>
  What a log contributes to the shares of an exchange: the buyer and the amount of coins, when the
  log is a purchase on this exchange by an account that is neither an exchange nor excluded.
\<close>

definition traded_coins :: "env \<Rightarrow> Log \<Rightarrow> int option" where
  "traded_coins E rlog =
     (if rl_Topics rlog ! 0 = topicTokenPurchase E then Some (of_bytes (log_word E rlog 2))
      else if rl_Topics rlog ! 0 = topicEthPurchase E then Some (of_bytes (log_word E rlog 3))
      else None)"

definition traded_volume :: "env \<Rightarrow> params \<Rightarrow> string \<Rightarrow> Log \<Rightarrow> (address \<times> int) option" where
  "traded_volume E P exchange rlog =
     (if rl_Removed rlog \<or> length (rl_Topics rlog) < 4 \<or> ToLower (Address_String E (rl_Address rlog)) \<noteq> exchange
        \<or> \<not> (IsScanAllExchange P = Some True \<or> IsConfigedExchange P exchange) then None
      else let buyer = BytesToAddress E (log_word E rlog 1)
           in if IsInAllExchanges P buyer \<or> IsExcludedRewardAccount E P buyer then None
              else case traded_coins E rlog of None \<Rightarrow> None | Some v \<Rightarrow> if v \<le> 0 then None else Some (buyer, v))"

definition block_volumes :: "env \<Rightarrow> params \<Rightarrow> string \<Rightarrow> u64 \<Rightarrow> u64 \<Rightarrow> message \<Rightarrow> (address \<times> int) list" where
  "block_volumes E P exchange start end = (\<lambda>(block, receipts).
     if start \<le> bk_Number block \<and> bk_Number block < end
     then concat (map (\<lambda>(i, tx). case receipts ! i of None \<Rightarrow> []
       | Some r \<Rightarrow> if rc_Status r = 0 then [] else List.map_filter (traded_volume E P exchange) (rc_Logs r))
       (enumerate 0 (bk_Transactions block)))
     else [])"

definition volumes_of :: "env \<Rightarrow> params \<Rightarrow> string \<Rightarrow> u64 \<Rightarrow> u64 \<Rightarrow> MgoVolumeHistory list \<Rightarrow> (address \<times> int) list" where
  "volumes_of E P exchange start end hs = List.map_filter (counted_volume E P)
     (filter (\<lambda>h. mh_Exchange h = exchange \<and> start \<le> mh_BlockNumber h \<and> mh_BlockNumber h < end) hs)"

lemma volumes_of_append [simp]:
  "volumes_of E P exchange start end (hs @ hs') = volumes_of E P exchange start end hs @ volumes_of E P exchange start end hs'"
  by (simp add: volumes_of_def map_filter_def)

lemma volumes_of_Nil [simp]: "volumes_of E P exchange start end [] = []"
  by (simp add: volumes_of_def map_filter_def)

lemma volumes_of_concat [simp]:
  "volumes_of E P exchange start end (concat hss) = concat (map (volumes_of E P exchange start end) hss)"
  by (induction hss) simp_all

lemma trade_of_volume:
  assumes "address_texts E"
  shows "volumes_of E P exchange start end (case trade_of E P mt (idx, rlog) of None \<Rightarrow> [] | Some h \<Rightarrow> [h]) =
    (if start \<le> mt_BlockNumber mt \<and> mt_BlockNumber mt < end
     then List.map_filter (traded_volume E P exchange) [rlog] else [])"
proof -
  let ?known = "\<not> (rl_Removed rlog \<or> length (rl_Topics rlog) < 4) \<and>
    (IsScanAllExchange P = Some True \<or> IsConfigedExchange P (ToLower (Address_String E (rl_Address rlog))))"
  let ?buyer = "BytesToAddress E (log_word E rlog 1)"
  have reads: "HexToAddress E (ToLower (Address_String E a)) = a" for a
    using assms by (simp add: address_texts_def Let_def)
  note simps = trade_of_def trade_type_def volume_record_def exchange_receipt_def traded_volume_def traded_coins_def Let_def
  consider (trade) "?known" "traded_coins E rlog \<noteq> None" "\<not> IsInAllExchanges P ?buyer"
    | (none) "\<not> ?known \<or> traded_coins E rlog = None \<or> IsInAllExchanges P ?buyer" by argo
  then show ?thesis
  proof cases
    case trade
    then obtain h where h: "trade_of E P mt (idx, rlog) = Some h" "mh_Exchange h = ToLower (Address_String E (rl_Address rlog))"
        "mh_BlockNumber h = mt_BlockNumber mt" "found (GetBigIntFromString (mh_CoinAmount h)) = traded_coins E rlog"
        "HexToAddress E (mh_Account h) = ?buyer"
      by (simp add: simps reads found_def split: if_splits)
    with trade show ?thesis
      by (auto simp: volumes_of_def map_filter_def counted_volume_def traded_volume_def Let_def split: option.split)
  next
    case none
    then have "trade_of E P mt (idx, rlog) = None" "traded_volume E P exchange rlog = None"
      by (auto simp: simps reads split: if_splits)
    then show ?thesis by (simp add: map_filter_def)
  qed
qed

lemma trades_volumes:
  assumes "address_texts E"
  shows "volumes_of E P exchange start end (trades E P mt idx rlogs) =
    (if start \<le> mt_BlockNumber mt \<and> mt_BlockNumber mt < end
     then List.map_filter (traded_volume E P exchange) rlogs else [])"
proof (induction rlogs arbitrary: idx)
  case (Cons rlog rest)
  then show ?case
    by (simp only: trades.simps volumes_of_append trade_of_volume [OF assms]) (simp add: map_filter_def)
qed (simp add: map_filter_def)

lemma block_trades_volumes:
  assumes "address_texts E"
  shows "volumes_of E P exchange start end (block_trades E P msg) = block_volumes E P exchange start end msg"
proof -
  obtain block receipts where msg: "msg = (block, receipts)" by (cases msg)
  have number: "mt_BlockNumber (tx_document E i tx block r) = bk_Number block" for i tx r
    by (simp add: tx_document_def Let_def)
  have "volumes_of E P exchange start end (case receipts ! i of None \<Rightarrow> []
      | Some r \<Rightarrow> if rc_Status r = 0 then [] else trades E P (tx_document E i tx block (Some r)) 0 (rc_Logs r)) =
    (if start \<le> bk_Number block \<and> bk_Number block < end then (case receipts ! i of None \<Rightarrow> []
      | Some r \<Rightarrow> if rc_Status r = 0 then [] else List.map_filter (traded_volume E P exchange) (rc_Logs r)) else [])" for i tx
    by (simp add: trades_volumes [OF assms] number split: option.split)
  then show ?thesis
    unfolding msg block_trades_def block_volumes_def prod.case volumes_of_concat map_map o_def
    by (auto intro!: arg_cong [where f = concat])
qed

text \<open>The statistics depend on the entries only, not on their order.\<close>

lemma volume_stats_perm:
  assumes "mset entries = mset entries'"
  shows "sort_key share_rank (map (volume_stat entries) (remdups (map fst entries))) =
    sort_key share_rank (map (volume_stat entries') (remdups (map fst entries')))"
proof -
  have f: "mset (filter (\<lambda>e. fst e = a) entries) = mset (filter (\<lambda>e. fst e = a) entries')" for a
    using assms by simp
  have "(\<Sum>(b, v) \<leftarrow> filter (\<lambda>e. fst e = a) entries. v) = (\<Sum>(b, v) \<leftarrow> filter (\<lambda>e. fst e = a) entries'. v)" for a :: address
  proof -
    have "sum_mset (mset (map (\<lambda>(b, v). v) (filter (\<lambda>e. fst e = a) entries))) =
        sum_mset (mset (map (\<lambda>(b, v). v) (filter (\<lambda>e. fst e = a) entries')))"
      by (simp only: mset_map f)
    then show ?thesis by (simp only: sum_mset_sum_list)
  qed
  with f have stat: "volume_stat entries = volume_stat entries'"
    by (intro ext) (simp add: volume_stat_def mset_eq_length [OF f])
  have "set (map fst entries) = set (map fst entries')" using assms by (metis mset_map set_mset_mset)
  then have "mset (remdups (map fst entries)) = mset (remdups (map fst entries'))"
    using set_eq_iff_mset_eq_distinct [of "remdups (map fst entries)" "remdups (map fst entries')"] by simp
  then have "mset (map (volume_stat entries) (remdups (map fst entries))) =
      mset (map (volume_stat entries') (remdups (map fst entries')))"
    by (simp add: stat)
  from sort_remdups_stats [OF refl, of entries] sort_remdups_stats [OF this] show ?thesis by simp
qed

text \<open>A database that returns the volume records stored before, in any order.\<close>

definition history_db :: "env \<Rightarrow> bool" where
  "history_db E \<longleftrightarrow> (\<forall>w exchange start end. mset (Find_VolumeHistory E w exchange False start end) =
     mset (filter (\<lambda>h. mh_Exchange h = exchange \<and> start \<le> mh_BlockNumber h \<and> mh_BlockNumber h < end) (recorded w)))"


section \<open>Concrete runs\<close>

lemma list_all2_exists: "\<forall>x \<in> set xs. \<exists>y. R x y \<Longrightarrow> \<exists>ys. list_all2 R xs ys"
proof (induction xs)
  case (Cons x xs)
  then obtain y ys where "R x y" "list_all2 R xs ys" by auto
  then show ?case by (intro exI [of _ "y # ys"]) simp
qed (intro exI [of _ "[]"], simp)

lemma sync_env_writes: "good_writes sync_env" "no_daily_volumes test_params" "\<not> onlySyncAccount init_vars"
  by (simp_all add: good_writes_def sync_env_def base_env_def no_daily_volumes_def test_params_def init_vars_def)

lemma sync_parsers_end:
  assumes "\<forall>msg \<in> set msgs. \<exists>n. fst msg = sync_block n"
  shows "\<exists>s. parser_ends sync_env init_vars test_params (wk, msgs) s"
proof -
  have "run_job sync_env init_vars wk j test_params [] \<noteq> None" if j: "j \<in> set (concat (map (jobs_of init_vars) msgs))" for j
  proof -
    from j obtain msg where msg: "msg \<in> set msgs" "j \<in> set (jobs_of init_vars msg)" by auto
    with assms obtain n receipts where "msg = (sync_block n, receipts)" by (cases msg) auto
    with msg(2) have "j = BlockJob (sync_block n)"
      by (auto simp: jobs_of_def parseTransactions_def sync_block_def split: if_splits)
    moreover obtain mb where "alone sync_env init_vars wk test_params (BlockJob (sync_block n)) = [DocBlock mb]"
      using alone_block [OF sync_env_writes(1)] by blast
    ultimately show ?thesis by (auto simp: alone_def simp del: run_job.simps split: option.splits)
  qed
  then show ?thesis
    using parser_goes_on [OF sync_env_writes(1,2) _ rtranclp.rtrancl_refl] unfolding parser_ends_def by fastforce
qed


text \<open>A database over the history, and a block with two trades of the account 5.\<close>

definition pipeline_env :: env where
  "pipeline_env = parser_env\<lparr>Find_VolumeHistory := \<lambda>w x t a b.
     filter (\<lambda>h. mh_Exchange h = x \<and> a \<le> mh_BlockNumber h \<and> mh_BlockNumber h < b) (recorded w)\<rparr>"

lemma pipeline_env_simps [simp]:
  "topicTransfer pipeline_env = topicTransfer parser_env" "topicTokenPurchase pipeline_env = topicTokenPurchase parser_env"
  "topicEthPurchase pipeline_env = topicEthPurchase parser_env" "topicAddLiquidity pipeline_env = topicAddLiquidity parser_env"
  "topicRemoveLiquidity pipeline_env = topicRemoveLiquidity parser_env"
  by (simp_all add: pipeline_env_def topicTransfer_def topicTokenPurchase_def topicEthPurchase_def topicAddLiquidity_def
      topicRemoveLiquidity_def)

lemma pipeline_db: "good_writes pipeline_env" "history_db pipeline_env" "topics_differ pipeline_env" "\<not> onlySyncAccount parser_vars"
  using parser_env_writes
  by (simp_all add: pipeline_env_def good_writes_def history_db_def parser_vars_def topics_differ_def topicTokenPurchase_def
      topicEthPurchase_def topicAddLiquidity_def topicRemoveLiquidity_def parser_env_def)

lemma pipeline_readable: "\<forall>msg \<in> set parser_msgs. readable pipeline_env msg"
proof -
  have "\<not> panic_log pipeline_env rlog" if "rlog \<in> set (rc_Logs parser_receipt)" for rlog
    using that by (auto simp: panic_log_def parser_receipt_def parser_log_def)
  then show ?thesis by (simp add: parser_msgs_def readable_def parser_block_def parser_receipts_def)
qed

lemma pipeline_entries:
  "concat (map (block_volumes pipeline_env parser_params (ToLower ''7'') 100 101) parser_msgs) = [(5, 100), (5, 200)]"
  by code_simp

lemma pipeline_texts: "address_texts pipeline_env"
  using base_texts by (simp add: address_texts_def pipeline_env_def parser_env_def)


end
