(* ===== verification/Worker.thy ===== *)
theory Worker
  imports Distributer
begin

text \<open>
  The package \<open>worker\<close>: the daily liquidity of the exchanges (\<open>updateliquidity.go\<close>). For every day
  since the last one recorded, the state of an exchange at the first block of the day is stored;
  an error is retried until it succeeds, unless the node has no archive. Log output is left out;
  pauses are in milliseconds.
\<close>

section \<open>One day\<close>

definition updateDateLiquidity :: "env \<Rightarrow> params \<Rightarrow> ExchangeConfig \<Rightarrow> u64 \<Rightarrow> error option action" where
  "updateDateLiquidity E P ex timestamp w = do {
     let exchangeAddr = HexToAddress E (ex_Exchange ex);
     let tokenAddr = HexToAddress E (ex_Token ex);
     (blockHeader, w) \<leftarrow> FindBlockByTimestamp E P timestamp w;
     let blockNumber = h_Number blockHeader;
     (r, w) \<leftarrow> GetExchangeLiquidity E exchangeAddr (Some blockNumber) w;
     (case r of Inl err \<Rightarrow> Some (Some err, w) | Inr liquidity \<Rightarrow> do {
     (r, w) \<leftarrow> GetCoinBalance E exchangeAddr (Some blockNumber) w;
     (case r of Inl err \<Rightarrow> Some (Some err, w) | Inr coins \<Rightarrow> do {
     (r, w) \<leftarrow> GetExchangeTokenBalance E exchangeAddr tokenAddr (Some blockNumber) w;
     (case r of Inl err \<Rightarrow> Some (Some err, w) | Inr tokens \<Rightarrow>
     TryDoTimes (AddLiquidity E \<lparr>ml_Key = GetKeyOfExchangeAndTimestamp (ex_Exchange ex) timestamp,
       ml_Exchange = ex_Exchange ex, ml_Pairs = ex_Pairs ex, ml_Coin = big_String coins,
       ml_Token = big_String tokens, ml_Liquidity = big_String liquidity,
       ml_BlockNumber = big_Uint64 blockNumber, ml_BlockHash = Hash_Hex E (Header_Hash E blockHeader),
       ml_Timestamp = timestamp\<rparr> True) w) }) })
   }"

section \<open>All days up to today\<close>

text \<open>\<open>getDayBegin\<close> and \<open>secondsPerDay\<close> are those of the syncer, word for word (theory \<open>Receipts\<close>).\<close>

definition missing_trie_node :: "error \<Rightarrow> bool" where
  "missing_trie_node err = (case err of ExtError s \<Rightarrow> HasPrefix s ''missing trie node'' | _ \<Rightarrow> False)"

partial_function (option) updateDates :: "env \<Rightarrow> params \<Rightarrow> ExchangeConfig \<Rightarrow> u64 \<Rightarrow> u64 \<Rightarrow> unit action" where
  "updateDates E P ex todayBegin timestamp w =
     (if \<not> timestamp \<le> todayBegin then Some ((), w)
      else do {
        (err, w) \<leftarrow> updateDateLiquidity E P ex timestamp w;
        (case err of
           None \<Rightarrow> updateDates E P ex todayBegin (timestamp + secondsPerDay) w
         | Some err \<Rightarrow>
             if missing_trie_node err then Some ((), w)
             else updateDates E P ex todayBegin timestamp (w @ [EvSleep 1000]))
      })"

definition liquidity_from :: "env \<Rightarrow> ExchangeConfig \<Rightarrow> u64 action" where
  "liquidity_from E ex w = do {
     (latest, w) \<leftarrow> FindLatestLiquidity E (ex_Exchange ex) w;
     (case latest of
        Inr latest \<Rightarrow> Some (getDayBegin (ml_Timestamp latest) + secondsPerDay, w)
      | Inl _ \<Rightarrow> do {
          (header, w) \<leftarrow> LoopGetBlockHeader E (Some (uint (ex_CreationHeight ex))) w;
          Some (getDayBegin (big_Uint64 (h_Time header)), w)
        })
   }"

fun updateLiquidity_loop :: "env \<Rightarrow> params \<Rightarrow> u64 \<Rightarrow> ExchangeConfig list \<Rightarrow> unit action" where
  "updateLiquidity_loop E P todayBegin [] w = Some ((), w)"
| "updateLiquidity_loop E P todayBegin (ex # rest) w = do {
     (fromTime, w) \<leftarrow> liquidity_from E ex w;
     (_, w) \<leftarrow> (if fromTime > todayBegin then Some ((), w) else updateDates E P ex todayBegin fromTime w);
     updateLiquidity_loop E P todayBegin rest w
   }"

definition updateLiquidityDailyOnce :: "env \<Rightarrow> params \<Rightarrow> u64 \<Rightarrow> unit action" where
  "updateLiquidityDailyOnce E P todayBegin w = updateLiquidity_loop E P todayBegin (exchanges P) w"

section \<open>The endless loop\<close>

definition daily_turn :: "env \<Rightarrow> params \<Rightarrow> unit action" where
  "daily_turn E P w = do {
     let now = Now_Unix E w;
     let w = w @ [EvNow];
     let todayBegin = getDayBegin now;
     (_, w) \<leftarrow> updateLiquidityDailyOnce E P todayBegin w;
     let now = Now_Unix E w;
     let w = w @ [EvNow];
     Some ((), if now < todayBegin + secondsPerDay
       then w @ [EvSleep (unat (todayBegin + secondsPerDay - now) * 1000)] else w)
   }"

inductive updateLiquidityDailyLoop :: "env \<Rightarrow> params \<Rightarrow> world \<Rightarrow> world \<Rightarrow> bool" for E P where
  turn: "daily_turn E P w = Some ((), w') \<Longrightarrow> updateLiquidityDailyLoop E P w w'"

inductive_cases updateLiquidityDailyLoopE: "updateLiquidityDailyLoop E P w w'"

text \<open>Whether the loop is started; without a configuration of the syncer it panics.\<close>

definition updateLiquidityDaily :: "params \<Rightarrow> sync_vars \<Rightarrow> bool option" where
  "updateLiquidityDaily P G = do {
     syncCfg \<leftarrow> cf_Sync (config P);
     Some (sy_UpdateLiquidity syncCfg \<and> IsEndlessLoop G)
   }"

end
