(* ===== verification/Liquidity_Days.thy ===== *)
theory Liquidity_Days
  imports Worker
begin

text \<open>
  Properties of the daily liquidity (theory \<open>Worker\<close>): the recorded days of an exchange are in a
  row, whatever the node and the database answer, and with a node that answers, every day up to
  today is recorded with the state at its first block.
\<close>

section \<open>The recorded days\<close>

fun liquidity_event :: "event \<Rightarrow> MgoLiquidity option" where
  "liquidity_event (EvUpsertId k (DocLiquidity ml) None) = Some ml"
| "liquidity_event (EvInsert (DocLiquidity ml) None) = Some ml"
| "liquidity_event _ = None"

definition liquidities :: "world \<Rightarrow> MgoLiquidity list" where
  "liquidities w = List.map_filter liquidity_event w"

text \<open>The days recorded for an exchange, in the order in which they were stored.\<close>

definition days :: "string \<Rightarrow> world \<Rightarrow> u64 list" where
  "days exchange w = map ml_Timestamp (filter (\<lambda>ml. ml_Exchange ml = exchange) (liquidities w))"

lemma liquidities_simps [simp]:
  "liquidities [] = []" "liquidities (w @ w') = liquidities w @ liquidities w'"
  "liquidities (e # w) = (case liquidity_event e of None \<Rightarrow> liquidities w | Some ml \<Rightarrow> ml # liquidities w)"
  by (simp_all add: liquidities_def map_filter_def split: option.split)

lemma days_simps [simp]: "days exchange [] = []" "days exchange (w @ w') = days exchange w @ days exchange w'"
  by (simp_all add: days_def)

text \<open>
  The database of the history: the latest liquidity of an exchange is the stored one with the
  greatest timestamp; an upsert by key is never refused as a duplicate.
\<close>

definition liquidity_db :: "env \<Rightarrow> bool" where
  "liquidity_db E \<longleftrightarrow>
     (\<forall>w exchange. case Find_LatestLiquidity E w exchange of
        Inl _ \<Rightarrow> days exchange w = []
      | Inr ml \<Rightarrow> ml_Timestamp ml \<in> set (days exchange w) \<and> (\<forall>d \<in> set (days exchange w). d \<le> ml_Timestamp ml)) \<and>
     (\<forall>w k d. UpsertId E w k d \<noteq> Some ErrDup)"

text \<open>Days in a row: each begins a day after the one before, and the first begins a day.\<close>

fun in_a_row :: "u64 list \<Rightarrow> bool" where
  "in_a_row [] = True"
| "in_a_row [d] = (getDayBegin d = d)"
| "in_a_row (d # d' # ds) = (getDayBegin d = d \<and> uint d' = uint d + 86400 \<and> in_a_row (d' # ds))"

section \<open>What is recorded for a day\<close>

lemma query_no_liquidity: "is_query e \<Longrightarrow> liquidity_event e = None"
  by (cases e) simp_all

lemma query_liquidities: "only is_query f \<Longrightarrow> f w = Some (x, w') \<Longrightarrow> liquidities w' = liquidities w"
  unfolding liquidities_def by (blast dest: onlyD intro: adds_mapfilter query_no_liquidity)

lemma AddLiquidity_records:
  assumes "liquidity_db E" "TryDoTimes (AddLiquidity E ml True) w = Some (err, w')"
  shows "liquidities w' = liquidities w @ (if err = None then [ml] else [])"
proof -
  have one: "AddLiquidity E ml True w = Some (err1, w1) \<Longrightarrow>
      err1 \<noteq> Some ErrDup \<and> liquidities w1 = liquidities w @ (if err1 = None then [ml] else [])" for w err1 w1
    using assms(1) by (auto simp: AddLiquidity_def db_UpsertId_def Let_def liquidity_db_def)
  have "liquidities w' = liquidities w @ (if err = None then [ml] else [])"
    if "TryDoTimes_loop n (AddLiquidity E ml True) err0 w = Some (err, w')" "0 < n \<or> err0 \<noteq> None" for n err0 w
    using that
  proof (induction n arbitrary: err0 w)
    case (Suc n)
    from Suc.prems obtain err1 w1 where run: "AddLiquidity E ml True w = Some (err1, w1)"
      by (auto simp: bind_eq_Some_conv)
    with Suc one [OF run] show ?case by (cases err1) auto
  qed auto
  from this [of retryDBCount None w] assms(2) show ?thesis by (simp add: TryDoTimes_def retryDBCount_def)
qed

text \<open>A run either ends at a failed query or stores the state it has read.\<close>

lemma updateDateLiquidity_cases:
  assumes run: "updateDateLiquidity E P ex t w = Some (err, w')"
  obtains (failed) e where "err = Some e" "liquidities w' = liquidities w"
    | (stored) ml w1 where "liquidities w1 = liquidities w" "ml_Exchange ml = ex_Exchange ex" "ml_Timestamp ml = t"
      "TryDoTimes (AddLiquidity E ml True) w1 = Some (err, w')"
proof -
  let ?x = "HexToAddress E (ex_Exchange ex)" and ?n = "\<lambda>h. Some (h_Number h)"
  from run obtain h w1 r1 w2 where 1: "FindBlockByTimestamp E P t w = Some (h, w1)"
    "GetExchangeLiquidity E ?x (?n h) w1 = Some (r1, w2)"
    by (auto simp: updateDateLiquidity_def Let_def bind_eq_Some_conv)
  have l1: "liquidities w2 = liquidities w"
    using 1 query_liquidities [OF only_FindBlockByTimestamp] query_liquidities [OF only_GetExchangeLiquidity] by metis
  show thesis
  proof (cases r1)
    case (Inl e)
    with run 1 l1 show ?thesis by (intro failed [of e]) (simp_all add: updateDateLiquidity_def Let_def)
  next
    case (Inr a1)
    with run 1 obtain r2 w3 where 2: "GetCoinBalance E ?x (?n h) w2 = Some (r2, w3)"
      by (auto simp: updateDateLiquidity_def Let_def bind_eq_Some_conv)
    have l2: "liquidities w3 = liquidities w" using l1 2 query_liquidities [OF only_calls(2)] by metis
    show thesis
    proof (cases r2)
      case (Inl e)
      with run 1 2 Inr l2 show ?thesis by (intro failed [of e]) (simp_all add: updateDateLiquidity_def Let_def)
    next
      case (Inr a2)
      note r2 = this
      with run 1 2 \<open>r1 = Inr a1\<close> obtain r3 w4 where 3: "GetTokenBalance E (HexToAddress E (ex_Token ex)) ?x (?n h) w3 = Some (r3, w4)"
        by (auto simp: updateDateLiquidity_def GetExchangeTokenBalance_def Let_def bind_eq_Some_conv)
      have l3: "liquidities w4 = liquidities w" using l2 3 query_liquidities [OF only_balances(2)] by metis
      note steps = run 1 2 3 \<open>r1 = Inr a1\<close> r2 l3
      show thesis
      proof (cases r3)
        case (Inl e)
        with steps show ?thesis
          by (intro failed [of e]) (simp_all add: updateDateLiquidity_def GetExchangeTokenBalance_def Let_def)
      next
        case (Inr a3)
        with steps show ?thesis
          by (intro stored [of w4 "\<lparr>ml_Key = GetKeyOfExchangeAndTimestamp (ex_Exchange ex) t,
              ml_Exchange = ex_Exchange ex, ml_Pairs = ex_Pairs ex, ml_Coin = big_String a2,
              ml_Token = big_String a3, ml_Liquidity = big_String a1, ml_BlockNumber = big_Uint64 (h_Number h),
              ml_BlockHash = Hash_Hex E (Header_Hash E h), ml_Timestamp = t\<rparr>"])
            (simp_all add: updateDateLiquidity_def GetExchangeTokenBalance_def Let_def)
      qed
    qed
  qed
qed

lemma updateDateLiquidity_records:
  assumes "liquidity_db E" "updateDateLiquidity E P ex t w = Some (err, w')"
  shows "days x w' = days x w @ (if err = None \<and> x = ex_Exchange ex then [t] else [])"
  using assms(2)
proof (cases rule: updateDateLiquidity_cases)
  case (stored ml w1)
  with AddLiquidity_records [OF assms(1) stored(4)] show ?thesis by (auto simp: days_def)
qed (simp add: days_def)

section \<open>Days in a row\<close>

lemma uint_secondsPerDay [simp]: "uint secondsPerDay = 86400"
  by (simp add: secondsPerDay_def)

lemma uint_getDayBegin: "uint (getDayBegin t) = uint t - uint t mod 86400"
proof -
  have "t mod secondsPerDay \<le> t" by (simp only: word_le_nat_alt unat_mod mod_less_eq_dividend)
  then show ?thesis by (simp add: getDayBegin_def uint_sub_if' uint_mod word_le_def)
qed

lemma aligned_le: "d \<le> n - n mod m" if "d \<le> n" "d mod m = 0" "0 < m" for d n m :: int
proof -
  have "m * (d div m) \<le> m * (n div m)" using that by (simp add: zdiv_mono1)
  moreover have "m * (d div m) = d" using that(2) mult_div_mod_eq [of m d] by simp
  ultimately show ?thesis by (simp add: minus_mod_eq_mult_div)
qed

lemma getDayBegin_eq: "getDayBegin t = t \<longleftrightarrow> uint t mod 86400 = 0"
  by (simp add: word_uint_eq_iff uint_getDayBegin)

lemma getDayBegin_idem [simp]: "getDayBegin (getDayBegin t) = getDayBegin t"
  by (simp add: getDayBegin_eq uint_getDayBegin minus_mod_eq_mult_div)

lemma getDayBegin_le: "getDayBegin t \<le> t"
  by (simp add: word_le_def uint_getDayBegin)

text \<open>A further day keeps the days in a row.\<close>

lemma in_a_row_snoc:
  "in_a_row (ds @ [t]) \<longleftrightarrow> in_a_row ds \<and> getDayBegin t = t \<and> (ds \<noteq> [] \<longrightarrow> uint t = uint (last ds) + 86400)"
  by (induction ds rule: in_a_row.induct) auto

lemma in_a_row_sorted: "in_a_row ds \<Longrightarrow> sorted (map uint ds)"
  by (induction ds rule: in_a_row.induct) auto

lemma in_a_row_begins: "in_a_row ds \<Longrightarrow> d \<in> set ds \<Longrightarrow> getDayBegin d = d"
  by (induction ds rule: in_a_row.induct) auto

lemma in_a_row_last:
  assumes "in_a_row ds" "d \<in> set ds" "\<forall>d' \<in> set ds. d' \<le> d"
  shows "d = last ds"
proof -
  have "ds \<noteq> []" using assms(2) by auto
  then have "last ds \<le> d" using assms(3) by simp
  moreover have "uint d \<le> uint (last ds)"
    using in_a_row_sorted [OF assms(1)] assms(2) \<open>ds \<noteq> []\<close>
    by (induction ds rule: rev_induct) (auto simp: sorted_append)
  ultimately show ?thesis by (simp add: word_le_def word_uint_eq_iff)
qed

section \<open>The loops\<close>

text \<open>The recorded days are in a row and not after a bound.\<close>

definition days_ok :: "string \<Rightarrow> u64 \<Rightarrow> world \<Rightarrow> bool" where
  "days_ok x bound w \<longleftrightarrow> in_a_row (days x w) \<and> (\<forall>d \<in> set (days x w). d \<le> bound)"

lemma day_after:
  assumes "in_a_row (ds @ [t])" "t \<le> today" "uint today + 86400 < 2 ^ 64"
  shows "in_a_row ((ds @ [t]) @ [t + secondsPerDay])"
proof -
  have "uint (t + secondsPerDay) = uint t + 86400"
    using assms(2,3) by (subst uint_add_no_wrap) (simp_all add: word_le_def)
  with assms(1) show ?thesis
    unfolding in_a_row_snoc [of "ds @ [t]"] by (simp add: in_a_row_snoc getDayBegin_eq)
qed

lemma updateDates_days:
  assumes "liquidity_db E" "uint todayBegin + 86400 < 2 ^ 64"
    and run: "updateDates E P ex todayBegin timestamp w = Some ((), w')"
    and "days_ok x todayBegin w" "x = ex_Exchange ex \<longrightarrow> in_a_row (days x w @ [timestamp])"
  shows "days_ok x todayBegin w'"
proof -
  let ?Q = "\<lambda>E ex today t w y. liquidity_db E \<longrightarrow> uint today + 86400 < 2 ^ 64 \<longrightarrow> days_ok x today w \<longrightarrow>
    (x = ex_Exchange ex \<longrightarrow> in_a_row (days x w @ [t])) \<longrightarrow> days_ok x today (snd y)"
  have "?Q E ex todayBegin timestamp w ((), w')"
  proof (rule updateDates.raw_induct [where Pa = "\<lambda>(((((E, P), ex), today), t), w) y. ?Q E ex today t w y", OF _ run,
      unfolded split_conv], goal_cases)
    case (1 rec E P ex today t w y)
    show ?case
    proof (intro impI, cases "t \<le> today")
      case False
      assume "days_ok x today w"
      with 1(2) False show "days_ok x today (snd y)" by auto
    next
      case True
      assume db: "liquidity_db E" and bound: "uint today + 86400 < 2 ^ 64" and ok: "days_ok x today w"
        and row: "x = ex_Exchange ex \<longrightarrow> in_a_row (days x w @ [t])"
      from 1(2) True obtain err w1 where day: "updateDateLiquidity E P ex t w = Some (err, w1)"
        and rest: "(case err of None \<Rightarrow> rec E P ex today (t + secondsPerDay) w1
           | Some err \<Rightarrow> if missing_trie_node err then Some ((), w1) else rec E P ex today t (w1 @ [EvSleep 1000])) = Some y"
        by (auto simp: bind_eq_Some_conv)
      note days = updateDateLiquidity_records [OF db day, of x]
      show "days_ok x today (snd y)"
      proof (cases err)
        case None
        have "days_ok x today w1" using ok row days True None by (auto simp: days_ok_def)
        moreover have "in_a_row (days x w1 @ [t + secondsPerDay])" if x: "x = ex_Exchange ex"
        proof -
          have "in_a_row (days x w @ [t])" using row x by blast
          from day_after [OF this True bound] show ?thesis unfolding days using x None by simp
        qed
        ultimately show ?thesis using 1(1) rest None db bound by auto
      next
        case (Some e)
        then have "days_ok x today w1" "x = ex_Exchange ex \<longrightarrow> in_a_row (days x (w1 @ [EvSleep 1000]) @ [t])"
          using ok row days by (auto simp: days_ok_def days_def)
        moreover from this have "days_ok x today (w1 @ [EvSleep 1000])" by (simp add: days_ok_def days_def)
        ultimately show ?thesis using 1(1) rest Some db bound by (auto split: if_splits)
      qed
    qed
  qed
  with assms show ?thesis by simp
qed

lemma liquidity_from_days:
  assumes "liquidity_db E" "days_ok x today w" "uint today + 86400 < 2 ^ 64" "liquidity_from E ex w = Some (from_time, w')"
  shows "days_ok x today w' \<and> (x = ex_Exchange ex \<longrightarrow> in_a_row (days x w' @ [from_time]))"
proof -
  have db: "case Find_LatestLiquidity E w (ex_Exchange ex) of Inl _ \<Rightarrow> days (ex_Exchange ex) w = []
      | Inr ml \<Rightarrow> ml_Timestamp ml \<in> set (days (ex_Exchange ex) w) \<and> (\<forall>d \<in> set (days (ex_Exchange ex) w). d \<le> ml_Timestamp ml)"
    using assms(1) unfolding liquidity_db_def by blast
  show ?thesis
  proof (cases "Find_LatestLiquidity E w (ex_Exchange ex)")
    case (Inr ml)
    with assms(4) have w': "w' = w @ [EvFind tbLiquidity (ex_Exchange ex)]" "from_time = getDayBegin (ml_Timestamp ml) + secondsPerDay"
      by (simp_all add: liquidity_from_def FindLatestLiquidity_def)
    then have same: "days x w' = days x w" by (simp add: days_def)
    moreover have "in_a_row (days x w @ [from_time])" if x: "x = ex_Exchange ex"
    proof -
      let ?d = "ml_Timestamp ml"
      have d: "?d \<in> set (days x w)" "\<forall>d \<in> set (days x w). d \<le> ?d"
        using db by (simp_all add: Inr x)
      have row: "in_a_row (days x w)" "?d \<le> today" using assms(2) d(1) by (simp_all add: days_ok_def)
      have last: "last (days x w) = ?d" using in_a_row_last [OF row(1) d] by simp
      from d(1) have "days x w \<noteq> []" by auto
      then obtain ds where ds: "days x w = ds @ [?d]" using last by (cases "days x w" rule: rev_cases) auto
      have "in_a_row ((ds @ [?d]) @ [?d + secondsPerDay])" using day_after [OF _ row(2) assms(3), of ds] row(1) ds by simp
      moreover have "getDayBegin ?d = ?d" using in_a_row_begins [OF row(1) d(1)] .
      ultimately show ?thesis using ds w'(2) by simp
    qed
    ultimately show ?thesis using assms(2) by (auto simp: days_ok_def)
  next
    case (Inl e)
    with assms(4) obtain h w1 where run: "LoopGetBlockHeader E (Some (uint (ex_CreationHeight ex))) (w @ [EvFind tbLiquidity (ex_Exchange ex)]) = Some (h, w')"
      "from_time = getDayBegin (big_Uint64 (h_Time h))"
      by (auto simp: liquidity_from_def FindLatestLiquidity_def bind_eq_Some_conv)
    then have same: "days x w' = days x w"
      using query_liquidities [OF only_loops(1) run(1)] by (simp add: days_def)
    moreover have "days (ex_Exchange ex) w = []" using db by (simp add: Inl)
    ultimately show ?thesis using assms(2) run(2) by (auto simp: days_ok_def)
  qed
qed

lemma updateLiquidity_loop_days:
  assumes "liquidity_db E" "uint today + 86400 < 2 ^ 64"
  shows "updateLiquidity_loop E P today exs w = Some ((), w') \<Longrightarrow> days_ok x today w \<Longrightarrow> days_ok x today w'"
proof (induction exs arbitrary: w)
  case (Cons ex rest)
  from Cons.prems(1) obtain from_time w1 w2 where run: "liquidity_from E ex w = Some (from_time, w1)"
    "(if from_time > today then Some ((), w1) else updateDates E P ex today from_time w1) = Some ((), w2)"
    "updateLiquidity_loop E P today rest w2 = Some ((), w')"
    by (auto simp: bind_eq_Some_conv)
  note start = liquidity_from_days [OF assms(1) Cons.prems(2) assms(2) run(1)]
  have "days_ok x today w2"
  proof (cases "from_time > today")
    case False
    with run(2) have "updateDates E P ex today from_time w1 = Some ((), w2)" by simp
    from updateDates_days [OF assms this] start show ?thesis by blast
  qed (use run(2) start in auto)
  with Cons.IH run(3) show ?case by blast
qed auto

lemma silent_updateDateLiquidity: "silent (updateDateLiquidity E P ex timestamp)"
  unfolding updateDateLiquidity_def [abs_def] GetExchangeTokenBalance_def [abs_def]
  by (rule silent_intros only_rules only_AddLiquidity [THEN db_silent] silent_TryDoTimes)+

lemma silent_updateDates: "silent (updateDates E P ex today t)"
proof (rule only_rec)
  fix w y
  assume run: "updateDates E P ex today t w = Some y"
  show "adds (\<lambda>e. \<not> is_send e) w (snd y)"
  proof (rule updateDates.raw_induct [where Pa = "\<lambda>(((((E, P), ex), today), t), w) y. adds (\<lambda>e. \<not> is_send e) w (snd y)",
        OF _ run, unfolded split_conv], goal_cases)
    case (1 rec E P ex today t w y)
    note rec = only_rec [OF 1(1)]
    from 1(2) show ?case
      by (rule only_body [where w = w]) (rule rec silent_updateDateLiquidity only_rules only_after | simp)+
  qed
qed

lemma silent_liquidity_from: "silent (liquidity_from E ex)"
  unfolding liquidity_from_def [abs_def] by (rule silent_intros only_rules)+

lemma silent_updateLiquidity_loop: "silent (updateLiquidity_loop E P today exs)"
proof (induction exs)
  case (Cons ex rest)
  show ?case
    unfolding updateLiquidity_loop.simps [abs_def]
    by (rule silent_liquidity_from silent_updateDates Cons.IH only_rules)+
qed (simp add: only_def)

lemma silent_daily_turn: "silent (daily_turn E P)"
proof (rule onlyI)
  fix w r w' assume "daily_turn E P w = Some (r, w')"
  then obtain today w1 es where "updateLiquidity_loop E P today (exchanges P) (w @ [EvNow]) = Some ((), w1)"
    "w' = w1 @ es" "\<forall>e \<in> set es. \<not> is_send e"
    by (auto simp: daily_turn_def updateLiquidityDailyOnce_def Let_def bind_eq_Some_conv split: if_splits)
  with onlyD [OF silent_updateLiquidity_loop this(1)] show "adds (\<lambda>e. \<not> is_send e) w w'"
    by (auto simp: adds_def)
qed

lemma days_queries:
  "days x (w @ [EvNow]) = days x w" "days x [EvNow] = []" "days x [EvNow, EvSleep n] = []"
  by (simp_all add: days_def)

lemma daily_turn_days:
  assumes "liquidity_db E" "\<forall>w. uint (Now_Unix E w) < 2 ^ 63" "days_ok x (Now_Unix E w) w" "daily_turn E P w = Some ((), w')"
  shows "days_ok x (Now_Unix E w) w'"
proof -
  let ?now = "Now_Unix E w"
  have bound: "uint (getDayBegin ?now) + 86400 < 2 ^ 64"
  proof -
    have "uint (getDayBegin ?now) \<le> uint ?now" using getDayBegin_le by (simp only: word_le_def)
    moreover have "uint ?now < 2 ^ 63" using assms(2) by blast
    ultimately show ?thesis by simp
  qed
  have "days_ok x (getDayBegin ?now) (w @ [EvNow])"
    unfolding days_ok_def days_queries
  proof
    from assms(3) show row: "in_a_row (days x w)" by (simp add: days_ok_def)
    show "\<forall>d \<in> set (days x w). d \<le> getDayBegin ?now"
    proof
      fix d assume d: "d \<in> set (days x w)"
      then have "uint d \<le> uint ?now" "uint d mod 86400 = 0"
        using assms(3) in_a_row_begins [OF row d] by (auto simp: days_ok_def word_le_def getDayBegin_eq)
      from aligned_le [OF this] show "d \<le> getDayBegin ?now" by (simp add: word_le_def uint_getDayBegin)
    qed
  qed
  moreover from assms(4) obtain w1 where once: "updateLiquidity_loop E P (getDayBegin ?now) (exchanges P) (w @ [EvNow]) = Some ((), w1)"
    "days x w' = days x w1"
    by (auto simp: daily_turn_def updateLiquidityDailyOnce_def Let_def bind_eq_Some_conv days_queries split: if_splits)
  ultimately have "days_ok x (getDayBegin ?now) w1"
    using updateLiquidity_loop_days [OF assms(1) bound once(1)] by blast
  with once(2) getDayBegin_le [of ?now] show ?thesis unfolding days_ok_def by (auto intro: order_trans)
qed

text \<open>
  C33: Whatever the node and the database answer, the liquidity of an exchange is recorded for
  days in a row: each day once, none left out, and none before its time. (The clock does not go
  back, and the database returns the latest day stored.)
\<close>

theorem liquidity_days_in_a_row:
  assumes "liquidity_db E" "\<forall>w. uint (Now_Unix E w) < 2 ^ 63" "\<forall>w es. Now_Unix E w \<le> Now_Unix E (w @ es)"
    and "days x w = []" "(updateLiquidityDailyLoop E P)\<^sup>*\<^sup>* w w'"
  shows "in_a_row (days x w') \<and> (\<forall>d \<in> set (days x w'). d \<le> Now_Unix E w')"
proof -
  have "days_ok x (Now_Unix E w') w'"
    using assms(5)
  proof induction
    case base
    from assms(4) show ?case by (simp add: days_ok_def)
  next
    case (step w1 w2)
    from step(2) have turn: "daily_turn E P w1 = Some ((), w2)" by (rule updateLiquidityDailyLoopE)
    from daily_turn_days [OF assms(1,2) step(3) turn] have "days_ok x (Now_Unix E w1) w2" .
    moreover obtain es where "w2 = w1 @ es"
      using onlyD [OF silent_daily_turn turn] by (auto simp: adds_def)
    ultimately show ?case using assms(3) unfolding days_ok_def by (metis order_trans)
  qed
  then show ?thesis by (simp add: days_ok_def)
qed

section \<open>A node that answers\<close>

text \<open>The node answers every call, and the database takes every document.\<close>

definition answers :: "env \<Rightarrow> bool" where
  "answers E \<longleftrightarrow> (\<forall>w a d n. \<exists>res. CallContract_rpc E w a d n = Inr res) \<and>
     (\<forall>w a n. \<exists>coins. BalanceAt E w a n = Inr coins) \<and> (\<forall>w k d. UpsertId E w k d = None)"

text \<open>The state of an exchange at the first block of a day.\<close>

definition state_at :: "env \<Rightarrow> (int \<Rightarrow> Header) \<Rightarrow> ExchangeConfig \<Rightarrow> u64 \<Rightarrow> MgoLiquidity \<Rightarrow> bool" where
  "state_at E chain ex t ml \<longleftrightarrow> (\<exists>k w1 w2 w3 minted coins tokens.
     first_block chain t k \<and> ml_BlockNumber ml = big_Uint64 k \<and> ml_BlockHash ml = Hash_Hex E (Header_Hash E (chain k)) \<and>
     CallContract_rpc E w1 (HexToAddress E (ex_Exchange ex)) (FromHex E ''0x18160ddd'') (Some k) = Inr minted \<and>
     BalanceAt E w2 (HexToAddress E (ex_Exchange ex)) (Some k) = Inr coins \<and>
     CallContract_rpc E w3 (HexToAddress E (ex_Token ex))
       (packBytes E [FromHex E ''0x70a08231'', Address_Bytes E (HexToAddress E (ex_Exchange ex))]) (Some k) = Inr tokens \<and>
     ml_Liquidity ml = big_String (GetBigInt E minted 0 32) \<and> ml_Coin ml = big_String coins \<and>
     ml_Token ml = big_String (GetBigInt E tokens 0 32) \<and>
     ml_Exchange ml = ex_Exchange ex \<and> ml_Pairs ml = ex_Pairs ex \<and> ml_Timestamp ml = t \<and>
     ml_Key ml = GetKeyOfExchangeAndTimestamp (ex_Exchange ex) t)"

lemma updateDateLiquidity_stores:
  assumes "answers E" and chain: "grows_chain E chain head" "reaches head (\<lambda>h. uint t \<le> h_Time (chain h))"
    "cf_Gateway (config P) \<noteq> None"
  shows "\<exists>ml w'. updateDateLiquidity E P ex t w = Some (None, w') \<and> liquidities w' = liquidities w @ [ml] \<and>
    state_at E chain ex t ml"
proof -
  obtain k w1 where k: "FindBlockByTimestamp E P t w = Some (chain k, w1)" "first_block chain t k"
    using FindBlock_first [OF chain] by blast
  have n: "h_Number (chain k) = k" using k(2) grows_chainD(6) [OF chain(1)] by (simp add: first_block_def)
  have call: "\<exists>res. CallContract_rpc E w a d n = Inr res" for w a d n
    using assms(1) unfolding answers_def by blast
  let ?x = "HexToAddress E (ex_Exchange ex)"
  let ?w2 = "w1 @ [EvCallContract ?x (FromHex E ''0x18160ddd'') (Some k)]"
  obtain minted where minted: "CallContract_rpc E w1 ?x (FromHex E ''0x18160ddd'') (Some k) = Inr minted"
    using call by blast
  obtain coins where coins: "BalanceAt E ?w2 ?x (Some k) = Inr coins"
    using assms(1) unfolding answers_def by blast
  let ?w3 = "?w2 @ [EvBalanceAt ?x (Some k)]"
  let ?d = "packBytes E [FromHex E ''0x70a08231'', Address_Bytes E ?x]"
  obtain tokens where tokens: "CallContract_rpc E ?w3 (HexToAddress E (ex_Token ex)) ?d (Some k) = Inr tokens"
    using call by blast
  let ?w4 = "?w3 @ [EvCallContract (HexToAddress E (ex_Token ex)) ?d (Some k)]"
  have reads: "GetExchangeLiquidity E ?x (Some k) w1 = Some (Inr (GetBigInt E minted 0 32), ?w2)"
    "GetCoinBalance E ?x (Some k) ?w2 = Some (Inr coins, ?w3)"
    "GetTokenBalance E (HexToAddress E (ex_Token ex)) ?x (Some k) ?w3 = Some (Inr (GetBigInt E tokens 0 32), ?w4)"
    using CallContract_answers [OF minted] CallContract_answers [OF tokens] coins
    by (simp_all add: GetExchangeLiquidity_def GetTokenTotalSupply_def GetTokenBalance_def call_number_def
        GetCoinBalance_def rpcRetryCount_def numeral_3_eq_3)
  let ?ml = "\<lparr>ml_Key = GetKeyOfExchangeAndTimestamp (ex_Exchange ex) t, ml_Exchange = ex_Exchange ex,
    ml_Pairs = ex_Pairs ex, ml_Coin = big_String coins, ml_Token = big_String (GetBigInt E tokens 0 32),
    ml_Liquidity = big_String (GetBigInt E minted 0 32), ml_BlockNumber = big_Uint64 k,
    ml_BlockHash = Hash_Hex E (Header_Hash E (chain k)), ml_Timestamp = t\<rparr>"
  have store: "TryDoTimes (AddLiquidity E ?ml True) ?w4 = Some (None, ?w4 @ [EvUpsertId (ml_Key ?ml) (DocLiquidity ?ml) None])"
    using assms(1) by (simp add: TryDoTimes_def retryDBCount_def numeral_3_eq_3 AddLiquidity_def db_UpsertId_def Let_def answers_def)
  have run: "updateDateLiquidity E P ex t w = Some (None, ?w4 @ [EvUpsertId (ml_Key ?ml) (DocLiquidity ?ml) None])"
    unfolding updateDateLiquidity_def Let_def GetExchangeTokenBalance_def using k(1) n reads store by simp
  have "liquidities w1 = liquidities w" using query_liquidities [OF only_FindBlockByTimestamp k(1)] .
  moreover have "state_at E chain ex t ?ml"
    unfolding state_at_def using k(2) minted coins tokens
    by (rule_tac exI [of _ k], rule_tac exI [of _ w1], rule_tac exI [of _ ?w2], rule_tac exI [of _ ?w3],
        rule_tac exI [of _ minted], rule_tac exI [of _ coins], rule_tac exI [of _ tokens]) simp
  ultimately show ?thesis using run by (intro exI [of _ ?ml] exI) (rule conjI, assumption, simp)
qed

definition each_day :: "u64 \<Rightarrow> u64 \<Rightarrow> u64 list" where
  "each_day t today = map (\<lambda>i. t + of_nat i * secondsPerDay) [0..<nat ((uint today - uint t) div 86400 + 1)]"

lemma each_day_none: "\<not> t \<le> today \<Longrightarrow> each_day t today = []"
  by (simp add: each_day_def word_le_def div_neg_pos_less0)

lemma each_day_first:
  assumes "t \<le> today" "uint today + 86400 < 2 ^ 64"
  shows "each_day t today = t # each_day (t + secondsPerDay) today"
proof -
  let ?n = "(uint today - uint t) div 86400"
  have t: "uint (t + secondsPerDay) = uint t + 86400"
    using assms by (subst uint_add_no_wrap) (simp_all add: word_le_def)
  have n: "0 \<le> ?n" using assms(1) by (simp add: word_le_def)
  have "(uint today - (uint t + 86400)) div 86400 + 1 = ?n"
    using div_mult_self1 [of 86400 "uint today - uint t" "- 1"] by (simp add: algebra_simps)
  then have "each_day (t + secondsPerDay) today = map (\<lambda>i. t + secondsPerDay + of_nat i * secondsPerDay) [0..<nat ?n]"
    by (simp only: each_day_def t)
  moreover have "each_day t today = map (\<lambda>i. t + of_nat i * secondsPerDay) (0 # map Suc [0..<nat ?n])"
    using n by (simp add: each_day_def nat_add_distrib upt_conv_Cons map_Suc_upt del: upt_Suc)
  ultimately show ?thesis by (simp add: o_def algebra_simps)
qed

lemma reaches_mono: "reaches head Q \<Longrightarrow> (\<And>h. Q h \<Longrightarrow> R h) \<Longrightarrow> reaches head R"
  unfolding reaches_def by blast

lemma updateDates_returns:
  assumes "answers E" "grows_chain E chain head" "reaches head (\<lambda>h. uint todayBegin \<le> h_Time (chain h))"
    and "cf_Gateway (config P) \<noteq> None" "uint todayBegin + 86400 < 2 ^ 64"
  shows "\<exists>mls w'. updateDates E P ex todayBegin timestamp w = Some ((), w') \<and> liquidities w' = liquidities w @ mls \<and>
    list_all2 (state_at E chain ex) (each_day timestamp todayBegin) mls"
proof (induction "length (each_day timestamp todayBegin)" arbitrary: timestamp w)
  case 0
  then have "\<not> timestamp \<le> todayBegin" using each_day_first [OF _ assms(5)] by (metis length_0_conv list.distinct(1))
  then show ?case by (subst updateDates.simps) (simp add: each_day_none)
next
  case (Suc n)
  then have le: "timestamp \<le> todayBegin" using each_day_none by (metis Zero_neq_Suc list.size(3))
  note days = each_day_first [OF le assms(5)]
  have "reaches head (\<lambda>h. uint timestamp \<le> h_Time (chain h))"
    using le by (intro reaches_mono [OF assms(3)]) (simp add: word_le_def)
  then obtain ml w1 where day: "updateDateLiquidity E P ex timestamp w = Some (None, w1)"
    "liquidities w1 = liquidities w @ [ml]" "state_at E chain ex timestamp ml"
    using updateDateLiquidity_stores [OF assms(1,2) _ assms(4)] by blast
  obtain mls w' where "updateDates E P ex todayBegin (timestamp + secondsPerDay) w1 = Some ((), w')"
    "liquidities w' = liquidities w1 @ mls" "list_all2 (state_at E chain ex) (each_day (timestamp + secondsPerDay) todayBegin) mls"
    using Suc(1) [of "timestamp + secondsPerDay" w1] Suc(2) days by auto
  then show ?case
    using le day days by (subst updateDates.simps) (auto intro!: exI [of _ "ml # mls"])
qed

text \<open>
  C34: With a node that answers, the update of an exchange returns, and it has recorded every day
  from the given one up to today, each once and in order, with the liquidity and the balances at
  the first block that is not before the day.
\<close>

theorem updateDates_records_every_day:
  assumes "answers E" "grows_chain E chain head" "reaches head (\<lambda>h. uint todayBegin \<le> h_Time (chain h))"
    and "cf_Gateway (config P) \<noteq> None" "uint todayBegin + 86400 < 2 ^ 64"
  shows "\<exists>mls w'. updateDates E P ex todayBegin timestamp w = Some ((), w') \<and> liquidities w' = liquidities w @ mls \<and>
    list_all2 (state_at E chain ex) (each_day timestamp todayBegin) mls"
  by (rule updateDates_returns [OF assms])

section \<open>A concrete exchange\<close>

definition liquid_chain :: "int \<Rightarrow> Header" where
  "liquid_chain k = \<lparr>h_Number = k, h_Time = 13 * k, h_Rest = []\<rparr>"

definition liquid_env :: env where
  "liquid_env = base_env\<lparr>
     HeaderByNumber := \<lambda>w n. (case n of None \<Rightarrow> Inr (liquid_chain 20000)
       | Some k \<Rightarrow> if k \<le> 20000 then Inr (liquid_chain k) else Inl ErrNotFound),
     Now_Unix := \<lambda>w. 100000,
     Find_LatestLiquidity := \<lambda>w x.
       (let mls = filter (\<lambda>ml. ml_Exchange ml = x) (liquidities w)
        in if mls = [] then Inl ErrNotFound else Inr (last (sort_key ml_Timestamp mls)))\<rparr>"

definition liquid_exchange :: ExchangeConfig where
  "liquid_exchange = \<lparr>ex_Pairs = ''ANY-FSN'', ex_Exchange = ''7'', ex_Token = ''8'', ex_CreationHeight = 0,
     ex_LiquidWeight = 1, ex_TradeWeight = 1\<rparr>"

definition liquid_params :: params where
  "liquid_params = test_params\<lparr>config := (config test_params)\<lparr>cf_Exchanges := Some [liquid_exchange]\<rparr>\<rparr>"

lemma liquid_grows: "grows_chain liquid_env liquid_chain (\<lambda>w. 20000)"
  by (simp add: grows_chain_def liquid_env_def liquid_chain_def)

lemma liquid_reaches: "reaches (\<lambda>w. 20000) (\<lambda>h. uint (86400 :: u64) \<le> h_Time (liquid_chain h))"
  by (simp add: reaches_def liquid_chain_def)

lemma liquid_answers: "answers liquid_env"
  by (simp add: answers_def liquid_env_def base_env_def)

lemma liquid_gateway: "cf_Gateway (config liquid_params) \<noteq> None"
  by (simp add: liquid_params_def test_params_def)

lemma liquid_db: "liquidity_db liquid_env"
proof -
  have "ml_Timestamp (last (sort_key ml_Timestamp mls)) \<in> ml_Timestamp ` set mls \<and>
      (\<forall>ml \<in> set mls. ml_Timestamp ml \<le> ml_Timestamp (last (sort_key ml_Timestamp mls)))" if "mls \<noteq> []" for mls
  proof -
    let ?s = "sort_key ml_Timestamp mls"
    have "?s \<noteq> []" using that by (metis set_empty set_sort)
    moreover have "sorted (map ml_Timestamp ?s)" by simp
    ultimately obtain a b where "?s = a @ [b]" "\<forall>ml \<in> set a. ml_Timestamp ml \<le> ml_Timestamp b"
      by (cases ?s rule: rev_cases) (auto simp: sorted_append)
    moreover have "set mls = set ?s" by simp
    ultimately show ?thesis by auto
  qed
  from this [of "filter (\<lambda>ml. ml_Exchange ml = x) (liquidities w)" for x w] show ?thesis
    by (auto simp: liquidity_db_def liquid_env_def base_env_def days_def Let_def)
qed

theorem updateDates_records_every_day_witness:
  "\<exists>mls w'. updateDates liquid_env liquid_params liquid_exchange 86400 0 [] = Some ((), w') \<and>
     liquidities w' = mls \<and> list_all2 (state_at liquid_env liquid_chain liquid_exchange) [0, 86400] mls"
proof -
  have "each_day 0 86400 = [0, 86400]" by code_simp
  with updateDates_records_every_day [OF liquid_answers liquid_grows liquid_reaches liquid_gateway, of liquid_exchange 0 "[]"]
  show ?thesis by auto
qed

theorem liquidity_days_in_a_row_witness:
  "\<exists>w'. (updateLiquidityDailyLoop liquid_env liquid_params)\<^sup>*\<^sup>* [] w' \<and> days ''7'' w' = [0, 86400] \<and> in_a_row (days ''7'' w')"
proof -
  have days: "each_day 0 86400 = [0, 86400]" by code_simp
  have "LoopGetBlockHeader liquid_env (Some 0) [EvNow, EvFind tbLiquidity ''7''] =
      Some (liquid_chain 0, [EvNow, EvFind tbLiquidity ''7'', EvHeaderByNumber (Some 0)])"
    using header_at [OF liquid_grows, of 0] by simp
  then have from_time: "liquidity_from liquid_env liquid_exchange [EvNow] =
      Some (0, [EvNow, EvFind tbLiquidity ''7'', EvHeaderByNumber (Some 0)])"
    by (simp add: liquidity_from_def FindLatestLiquidity_def liquid_exchange_def liquid_env_def base_env_def Let_def
        liquid_chain_def getDayBegin_def big_Uint64_def)
  have today: "getDayBegin (Now_Unix liquid_env w) = 86400" for w
    by (simp add: getDayBegin_def liquid_env_def secondsPerDay_def)
  have exs: "exchanges liquid_params = [liquid_exchange]"
    by (simp add: exchanges_def liquid_params_def)
  obtain mls w1 where run: "updateDates liquid_env liquid_params liquid_exchange 86400 0
      [EvNow, EvFind tbLiquidity ''7'', EvHeaderByNumber (Some 0)] = Some ((), w1)"
    "liquidities w1 = mls" "list_all2 (state_at liquid_env liquid_chain liquid_exchange) [0, 86400] mls"
    using updateDates_returns [OF liquid_answers liquid_grows liquid_reaches liquid_gateway, of liquid_exchange 0
        "[EvNow, EvFind tbLiquidity ''7'', EvHeaderByNumber (Some 0)]"] days by auto
  have rows: "days ''7'' w1 = [0, 86400]"
    using run(2,3) by (auto simp: days_def list_all2_Cons1 state_at_def liquid_exchange_def)
  obtain w' where turn: "daily_turn liquid_env liquid_params [] = Some ((), w')" "days ''7'' w' = days ''7'' w1"
    using run(1) from_time today [of "[]"]
    by (auto simp: daily_turn_def updateLiquidityDailyOnce_def exs Let_def days_queries)
  from turn(1) have steps: "(updateLiquidityDailyLoop liquid_env liquid_params)\<^sup>*\<^sup>* [] w'"
    by (blast intro: updateLiquidityDailyLoop.turn)
  have "uint (Now_Unix liquid_env w) < 2 ^ 63" "Now_Unix liquid_env w \<le> Now_Unix liquid_env (w @ es)" for w es
    by (simp_all add: liquid_env_def)
  with liquidity_days_in_a_row [OF liquid_db _ _ _ steps, of "''7''"] have "in_a_row (days ''7'' w')" by simp
  with steps turn(2) rows show ?thesis by auto
qed

end
