(* ===== verification/Mongo_Init.thy ===== *)
theory Mongo_Init
  imports Mongo_Api
begin

text \<open>
  \<open>mongodb/dbinit.go\<close> and \<open>tableinit.go\<close>: the session with the database. The variables of the
  packages are a record. A session is named by the length of the history when it was dialled; a
  database or collection is bound to the session it was made from (a collection also has its
  table). A nil database panics.
\<close>

section \<open>Connecting\<close>

record mongo_vars =
  mg_dialInfo :: "DialInfo option"
  mg_session :: "nat option"
  mg_database :: "nat option"
  mg_collection :: "collection \<Rightarrow> (nat \<times> collection) option"

definition zero_mongo_vars :: mongo_vars where
  "zero_mongo_vars = \<lparr>mg_dialInfo = None, mg_session = None, mg_database = None, mg_collection = (\<lambda>tb. None)\<rparr>"

definition initDialInfo :: "string list \<Rightarrow> string \<Rightarrow> string \<Rightarrow> string \<Rightarrow> mongo_vars \<Rightarrow> mongo_vars" where
  "initDialInfo addrs db user pass V =
     V\<lparr>mg_dialInfo := Some \<lparr>dl_Addrs = addrs, dl_Database = db, dl_Username = user, dl_Password = pass\<rparr>\<rparr>"

text \<open>Every collection from the current database.\<close>

definition deinintCollections :: "mongo_vars \<Rightarrow> mongo_vars option" where
  "deinintCollections V = do {
     database \<leftarrow> mg_database V;
     Some (V\<lparr>mg_collection := (\<lambda>tb. Some (database, tb))\<rparr>)
   }"

partial_function (option) dial_loop :: "env \<Rightarrow> DialInfo \<Rightarrow> nat action" where
  "dial_loop E dialInfo w =
     (let err = DialWithInfo E w dialInfo; w = w @ [EvDialMongo err] in
      if err = None then Some (length w, w) else dial_loop E dialInfo (w @ [EvSleep 1000]))"

definition mongoConnect :: "env \<Rightarrow> mongo_vars \<Rightarrow> mongo_vars action" where
  "mongoConnect E V w = do {
     let w = (case mg_session V of None \<Rightarrow> w | Some session \<Rightarrow> w @ [EvCloseSession session]);
     dialInfo \<leftarrow> mg_dialInfo V;
     (session, w) \<leftarrow> dial_loop E dialInfo w;
     V \<leftarrow> deinintCollections (V\<lparr>mg_session := Some session, mg_database := Some session\<rparr>);
     Some (V, w)
   }"

section \<open>Checking the session\<close>

fun ping_loop :: "env \<Rightarrow> nat \<Rightarrow> error option \<Rightarrow> error option action" where
  "ping_loop E 0 err w = Some (err, w)"
| "ping_loop E (Suc n) err w =
     (let r = Ping E w; w = w @ [EvPing] in
      case r of
        None \<Rightarrow> Some (Some (Errorf ''recover from error %v''), w)
      | Some None \<Rightarrow> Some (None, w)
      | Some (Some err) \<Rightarrow> ping_loop E n (Some err) (w @ [EvSleep 10000]))"

definition sessionPing :: "env \<Rightarrow> error option action" where
  "sessionPing E w = ping_loop E 6 None w"

definition ensureMongoConnected :: "env \<Rightarrow> mongo_vars \<Rightarrow> (error option \<times> mongo_vars) action" where
  "ensureMongoConnected E V w = do {
     (err, w) \<leftarrow> sessionPing E w;
     if err = None then Some ((None, V), w)
     else do {
       session \<leftarrow> mg_session V;
       let w = w @ [EvRefreshSession session];
       V \<leftarrow> deinintCollections (V\<lparr>mg_database := Some session\<rparr>);
       (err, w) \<leftarrow> sessionPing E w;
       Some ((err, V), w)
     }
   }"

text \<open>The endless loop of \<open>checkMongoSession\<close>, one step per turn.\<close>

definition session_turn :: "env \<Rightarrow> mongo_vars \<Rightarrow> mongo_vars action" where
  "session_turn E V w = do {
     let w = w @ [EvSleep 60000];
     ((err, V), w) \<leftarrow> ensureMongoConnected E V w;
     if err \<noteq> None then mongoConnect E V w else Some (V, w)
   }"

inductive checkMongoSession :: "env \<Rightarrow> mongo_vars \<times> world \<Rightarrow> mongo_vars \<times> world \<Rightarrow> bool" for E where
  turn: "session_turn E V w = Some (V', w') \<Longrightarrow> checkMongoSession E (V, w) (V', w')"

inductive_cases checkMongoSessionE: "checkMongoSession E (V, w) t"

section \<open>The collections\<close>

definition initCollection :: "collection \<Rightarrow> string list \<Rightarrow> mongo_vars \<Rightarrow> mongo_vars action" where
  "initCollection table indexKey V w = do {
     database \<leftarrow> mg_database V;
     let V = V\<lparr>mg_collection := (mg_collection V)(table := Some (database, table))\<rparr>;
     Some (V, if indexKey \<noteq> [] \<and> indexKey ! 0 \<noteq> [] then w @ [EvEnsureIndex table indexKey] else w)
   }"

definition initLatestSyncInfo :: "env \<Rightarrow> error option action" where
  "initLatestSyncInfo E w = do {
     (r, w) \<leftarrow> FindLatestSyncInfo E w;
     (case r of
        Inr _ \<Rightarrow> Some (None, w)
      | Inl _ \<Rightarrow> db_Insert E (DocSyncInfo \<lparr>si_Key = KeyOfLatestSyncInfo, si_Number = 0, si_Hash = [], si_Timestamp = 0\<rparr>) w)
   }"

definition collection_indexes :: "(collection \<times> string list) list" where
  "collection_indexes =
     [(tbBlocks, [''number'']), (tbTransactions, [''blockNumber'']), (tbSyncInfo, []),
      (tbLiquidity, [''exchange'', ''timestamp'']), (tbVolume, [''exchange'', ''timestamp'']),
      (tbVolumeHistory, [''exchange'', ''account'', ''blockNumber'']), (tbAccounts, [''exchange'']),
      (tbTokenAccounts, [''token'']), (tbLiquidityBalance, [''exchange'', ''account'', ''blockNumber'']),
      (tbDistributeInfo, [''exchange'', ''bywhat'']), (tbVolumeRewardResult, [''exchange'', ''start'']),
      (tbLiquidRewardResult, [''exchange'', ''start''])]"

fun init_tables :: "(collection \<times> string list) list \<Rightarrow> mongo_vars \<Rightarrow> mongo_vars action" where
  "init_tables [] V w = Some (V, w)"
| "init_tables ((table, indexKey) # rest) V w = do {
     (V, w) \<leftarrow> initCollection table indexKey V w;
     init_tables rest V w
   }"

definition initCollections :: "env \<Rightarrow> mongo_vars \<Rightarrow> mongo_vars action" where
  "initCollections E V w = do {
     (V, w) \<leftarrow> init_tables collection_indexes V w;
     (_, w) \<leftarrow> initLatestSyncInfo E w;
     Some (V, w)
   }"

text \<open>What the start does before it starts the goroutine of \<open>checkMongoSession\<close>.\<close>

definition MongoServerInit ::
  "env \<Rightarrow> string list \<Rightarrow> string \<Rightarrow> string \<Rightarrow> string \<Rightarrow> mongo_vars \<Rightarrow> mongo_vars action" where
  "MongoServerInit E addrs dbname user pass V w = do {
     (V, w) \<leftarrow> mongoConnect E (initDialInfo addrs dbname user pass V) w;
     initCollections E V w
   }"

section \<open>Nothing is broadcast\<close>

lemma silent_dial_loop: "silent (dial_loop E dialInfo)"
proof (rule only_rec)
  fix w y assume run: "dial_loop E dialInfo w = Some y"
  show "adds (\<lambda>e. \<not> is_send e) w (snd y)"
  proof (rule dial_loop.raw_induct [where P = "\<lambda>E info w y. adds (\<lambda>e. \<not> is_send e) w (snd y)", OF _ run], goal_cases)
    case (1 rec E info w y)
    let ?w = "w @ [EvDialMongo (DialWithInfo E w info)]"
    have "adds (\<lambda>e. \<not> is_send e) w ?w" "adds (\<lambda>e. \<not> is_send e) w (?w @ [EvSleep 1000])" by simp_all
    with 1 show ?case
      by (cases y) (auto simp: Let_def simp del: adds_append append_assoc split: if_splits intro: adds_trans)
  qed
qed

lemma silent_init_tables: "silent (init_tables tables V)"
proof (induction tables arbitrary: V)
  case (Cons t tables)
  have "silent (initCollection table keys V)" for table keys V
    unfolding initCollection_def [abs_def] by (auto intro!: onlyI simp: Let_def bind_eq_Some_conv)
  then show ?case
    by (cases t) (simp only:, unfold init_tables.simps(2) [abs_def], (rule Cons.IH only_rules | assumption)+)
qed (simp add: only_def)

lemma silent_initLatestSyncInfo: "silent (initLatestSyncInfo E)"
  unfolding initLatestSyncInfo_def [abs_def] FindLatestSyncInfo_def [abs_def] db_Insert_def [abs_def]
  by (auto intro!: onlyI simp: Let_def split: sum.splits)

lemma silent_mongoConnect: "silent (mongoConnect E V)"
proof (rule onlyI)
  fix w r w' assume run: "mongoConnect E V w = Some (r, w')"
  let ?w = "case mg_session V of None \<Rightarrow> w | Some session \<Rightarrow> w @ [EvCloseSession session]"
  have "adds (\<lambda>e. \<not> is_send e) w ?w" by (simp split: option.split)
  moreover have "adds (\<lambda>e. \<not> is_send e) ?w w'"
    using run onlyD [OF silent_dial_loop] by (auto simp: mongoConnect_def Let_def bind_eq_Some_conv)
  ultimately show "adds (\<lambda>e. \<not> is_send e) w w'" by (rule adds_trans)
qed

lemma silent_MongoServerInit [silent_intros]: "silent (MongoServerInit E addrs db user pass V)"
  unfolding MongoServerInit_def [abs_def] initCollections_def [abs_def]
  by (rule silent_mongoConnect silent_init_tables silent_initLatestSyncInfo only_rules)+

section \<open>Sessions and their handles\<close>

text \<open>Events that neither open nor close a session.\<close>

fun quiet :: "event \<Rightarrow> bool" where
  "quiet (EvCloseSession _) = False"
| "quiet _ = True"

text \<open>
  The current session, the database and every collection belong together, and every session that
  was closed is an older one.
\<close>

definition session_ok :: "DialInfo \<Rightarrow> mongo_vars \<times> world \<Rightarrow> bool" where
  "session_ok dialInfo = (\<lambda>(V, w). mg_dialInfo V = Some dialInfo \<and>
     (\<exists>s \<le> length w. mg_session V = Some s \<and> mg_database V = Some s \<and> mg_collection V = (\<lambda>tb. Some (s, tb)) \<and>
       (\<forall>s'. EvCloseSession s' \<in> set w \<longrightarrow> s' < s)))"

lemma adds_quiet: "adds quiet w w' \<Longrightarrow> EvCloseSession s \<in> set w' \<longleftrightarrow> EvCloseSession s \<in> set w"
  by (fastforce simp: adds_def)

lemma adds_length: "adds Q w w' \<Longrightarrow> length w \<le> length w'"
  by (auto simp: adds_def)

lemma session_ok_quiet: "session_ok info (V, w) \<Longrightarrow> adds quiet w w' \<Longrightarrow> session_ok info (V, w')"
  using adds_length [of quiet w w'] adds_quiet [of w w']
  by (auto simp: session_ok_def intro: order_trans)

lemma ping_loop_returns: "\<exists>err w'. ping_loop E n err0 w = Some (err, w') \<and> adds quiet w w'"
proof (induction n arbitrary: err0 w)
  case (Suc n)
  let ?w = "(w @ [EvPing]) @ [EvSleep 10000]"
  have pinged: "adds quiet w (w @ [EvPing])" "adds quiet w ?w" by simp_all
  show ?case
  proof (cases "\<exists>err. Ping E w = Some (Some err)")
    case True
    then obtain err where err: "Ping E w = Some (Some err)" by blast
    obtain err' w' where "ping_loop E n (Some err) ?w = Some (err', w')" "adds quiet ?w w'" using Suc.IH by blast
    with err pinged(2) show ?thesis by (auto simp: Let_def simp del: append_assoc intro: adds_trans)
  next
    case False
    with pinged(1) show ?thesis by (auto simp: Let_def simp del: adds_append split: option.split)
  qed
qed auto

lemma dial_loop_returns:
  assumes "\<And>w. N \<le> length w \<Longrightarrow> DialWithInfo E w info = None"
  shows "\<exists>w'. dial_loop E info w = Some (length w', w') \<and> length w < length w' \<and> adds quiet w w'"
proof (induction "N - length w" arbitrary: w rule: less_induct)
  case less
  show ?case
  proof (cases "DialWithInfo E w info = None")
    case True
    then show ?thesis by (subst dial_loop.simps) (simp add: Let_def)
  next
    case False
    let ?w = "(w @ [EvDialMongo (DialWithInfo E w info)]) @ [EvSleep 1000]"
    have "N - length ?w < N - length w" using False assms [of w] by (cases "N \<le> length w") auto
    from less [OF this] obtain w' where w': "dial_loop E info ?w = Some (length w', w')" "length ?w < length w'" "adds quiet ?w w'"
      by blast
    have "adds quiet w w'" using w'(3) by (rule adds_trans [rotated]) simp
    with w' False show ?thesis by (subst dial_loop.simps) (simp add: Let_def)
  qed
qed

lemma mongoConnect_returns:
  assumes "\<And>w. N \<le> length w \<Longrightarrow> DialWithInfo E w info = None" "mg_dialInfo V = Some info"
    and "\<And>s. EvCloseSession s \<in> set w \<Longrightarrow> s < length w" "\<And>s. mg_session V = Some s \<Longrightarrow> s \<le> length w"
  shows "\<exists>V' w'. mongoConnect E V w = Some (V', w') \<and> session_ok info (V', w')"
proof -
  let ?w = "case mg_session V of None \<Rightarrow> w | Some session \<Rightarrow> w @ [EvCloseSession session]"
  obtain w' where w': "dial_loop E info ?w = Some (length w', w')" "length ?w < length w'" "adds quiet ?w w'"
    using dial_loop_returns [OF assms(1)] by blast
  have "s < length w'" if closed: "EvCloseSession s \<in> set w'" for s
    using closed w'(2) adds_quiet [OF w'(3), of s] assms(3,4) [of s]
    by (fastforce split: option.splits)
  with w' assms(2) show ?thesis by (simp add: mongoConnect_def deinintCollections_def session_ok_def)
qed

lemma session_turn_ok:
  assumes "\<And>w. N \<le> length w \<Longrightarrow> DialWithInfo E w info = None" and ok: "session_ok info (V, w)"
  shows "\<exists>V' w'. session_turn E V w = Some (V', w') \<and> session_ok info (V', w')"
proof -
  let ?w = "w @ [EvSleep 60000]"
  obtain s where s: "mg_session V = Some s" "mg_database V = Some s" "mg_collection V = (\<lambda>tb. Some (s, tb))"
    using ok by (auto simp: session_ok_def)
  then have refreshed: "deinintCollections (V\<lparr>mg_database := Some s\<rparr>) = Some V"
    by (simp add: deinintCollections_def)
  obtain err1 w1 where ping1: "sessionPing E ?w = Some (err1, w1)" "adds quiet ?w w1"
    unfolding sessionPing_def using ping_loop_returns by blast
  obtain err2 w2 where ping2: "sessionPing E (w1 @ [EvRefreshSession s]) = Some (err2, w2)" "adds quiet (w1 @ [EvRefreshSession s]) w2"
    unfolding sessionPing_def using ping_loop_returns by blast
  have "adds quiet w ?w" "adds quiet w1 (w1 @ [EvRefreshSession s])" by simp_all
  with ping1(2) ping2(2) have quiet: "adds quiet w w1" "adds quiet w w2" by (blast intro: adds_trans)+
  obtain err w' where ensure: "ensureMongoConnected E V ?w = Some ((err, V), w')" "adds quiet w w'"
    using ping1(1) ping2(1) s(1) refreshed quiet by (cases "err1 = None") (auto simp: ensureMongoConnected_def)
  note ok' = session_ok_quiet [OF ok ensure(2)]
  show ?thesis
  proof (cases "err = None")
    case True
    with ensure ok' show ?thesis by (simp add: session_turn_def)
  next
    case False
    obtain V' w'' where "mongoConnect E V w' = Some (V', w'')" "session_ok info (V', w'')"
      using mongoConnect_returns [OF assms(1), where V = V and w = w'] ok' by (fastforce simp: session_ok_def)
    with ensure False show ?thesis by (simp add: session_turn_def)
  qed
qed

lemma initCollections_ok:
  assumes "session_ok info (V, w)"
  shows "\<exists>V' w'. initCollections E V w = Some (V', w') \<and> session_ok info (V', w')"
proof -
  have tables: "session_ok info (V, w) \<Longrightarrow> \<exists>w'. init_tables tables V w = Some (V, w') \<and> adds quiet w w'" for tables w
  proof (induction tables arbitrary: w)
    case (Cons t tables)
    obtain table keys where t: "t = (table, keys)" by (cases t)
    obtain s where s: "mg_database V = Some s" "mg_collection V = (\<lambda>tb. Some (s, tb))"
      using Cons.prems by (auto simp: session_ok_def)
    let ?w = "if keys \<noteq> [] \<and> keys ! 0 \<noteq> [] then w @ [EvEnsureIndex table keys] else w"
    have "(mg_collection V)(table \<mapsto> (s, table)) = mg_collection V" by (auto simp: s(2))
    then have one: "initCollection table keys V w = Some (V, ?w)" by (simp add: initCollection_def s(1))
    have "adds quiet w ?w" by simp
    with Cons.IH [OF session_ok_quiet [OF Cons.prems this]] one show ?case
      by (auto simp: t simp del: adds_append intro: adds_trans)
  qed auto
  obtain w1 where w1: "init_tables collection_indexes V w = Some (V, w1)" "adds quiet w w1"
    using tables [OF assms] by blast
  have "\<exists>err w2. initLatestSyncInfo E w1 = Some (err, w2) \<and> adds quiet w1 w2"
    by (auto simp: initLatestSyncInfo_def FindLatestSyncInfo_def db_Insert_def Let_def split: sum.split)
  then obtain err w2 where "initLatestSyncInfo E w1 = Some (err, w2)" "adds quiet w1 w2" by blast
  with w1 session_ok_quiet [OF assms] show ?thesis
    by (auto simp: initCollections_def intro: adds_trans)
qed


text \<open>A database that is down at first, and whose sessions never answer a ping.\<close>

definition down_env :: env where
  "down_env = base_env\<lparr>DialWithInfo := \<lambda>w info. if length w < 5 then Some (ExtError ''no reachable servers'') else None,
     Ping := \<lambda>w. Some (Some (ExtError ''EOF''))\<rparr>"


end
