(* ===== verification/Flags.thy ===== *)
theory Flags
  imports Go_Base
begin

text \<open>
  The command line (\<open>cmd/utils/flags.go\<close>, \<open>cmd/distribute/\<close>): the flags with their names and
  default values, and the flags that each command declares. The third-party package \<open>cli\<close> parses
  the command line; what it hands to a command is the record \<open>cli_context\<close>, a parameter of the
  commands, and \<open>cli_documented\<close> says what it documents.
\<close>

section \<open>Flags\<close>

text \<open>The type of a flag, with its default value.\<close>

datatype flag_value =
    StringFlag string
  | Uint64Flag u64
  | BoolFlag bool
  | StringSliceFlag
  | Int64SliceFlag

record cli_flag =
  fl_Name :: string
  fl_Aliases :: "string list"
  fl_Value :: flag_value

definition DataDirFlag :: cli_flag where
  "DataDirFlag = \<lparr>fl_Name = ''datadir'', fl_Aliases = [], fl_Value = StringFlag []\<rparr>"

definition ConfigFileFlag :: cli_flag where
  "ConfigFileFlag = \<lparr>fl_Name = ''config'', fl_Aliases = [''c''], fl_Value = StringFlag []\<rparr>"

definition LogFileFlag :: cli_flag where
  "LogFileFlag = \<lparr>fl_Name = ''log'', fl_Aliases = [], fl_Value = StringFlag []\<rparr>"

definition LogRotationFlag :: cli_flag where
  "LogRotationFlag = \<lparr>fl_Name = ''rotate'', fl_Aliases = [], fl_Value = Uint64Flag 24\<rparr>"

definition LogMaxAgeFlag :: cli_flag where
  "LogMaxAgeFlag = \<lparr>fl_Name = ''maxage'', fl_Aliases = [], fl_Value = Uint64Flag 720\<rparr>"

definition VerbosityFlag :: cli_flag where
  "VerbosityFlag = \<lparr>fl_Name = ''verbosity'', fl_Aliases = [''v''], fl_Value = Uint64Flag 4\<rparr>"

definition JSONFormatFlag :: cli_flag where
  "JSONFormatFlag = \<lparr>fl_Name = ''json'', fl_Aliases = [], fl_Value = BoolFlag False\<rparr>"

definition ColorFormatFlag :: cli_flag where
  "ColorFormatFlag = \<lparr>fl_Name = ''color'', fl_Aliases = [], fl_Value = BoolFlag True\<rparr>"

definition SyncFromFlag :: cli_flag where
  "SyncFromFlag = \<lparr>fl_Name = ''syncfrom'', fl_Aliases = [], fl_Value = Uint64Flag 0\<rparr>"

definition SyncToFlag :: cli_flag where
  "SyncToFlag = \<lparr>fl_Name = ''syncto'', fl_Aliases = [], fl_Value = Uint64Flag 0\<rparr>"

definition OverwriteFlag :: cli_flag where
  "OverwriteFlag = \<lparr>fl_Name = ''overwrite'', fl_Aliases = [], fl_Value = BoolFlag False\<rparr>"

definition KeyStoreFileFlag :: cli_flag where
  "KeyStoreFileFlag = \<lparr>fl_Name = ''keystore'', fl_Aliases = [], fl_Value = StringFlag []\<rparr>"

definition PasswordFileFlag :: cli_flag where
  "PasswordFileFlag = \<lparr>fl_Name = ''password'', fl_Aliases = [], fl_Value = StringFlag []\<rparr>"

definition GasLimitFlag :: cli_flag where
  "GasLimitFlag = \<lparr>fl_Name = ''gasLimit'', fl_Aliases = [], fl_Value = StringFlag []\<rparr>"

definition GasPriceFlag :: cli_flag where
  "GasPriceFlag = \<lparr>fl_Name = ''gasPrice'', fl_Aliases = [], fl_Value = StringFlag []\<rparr>"

definition AccountNonceFlag :: cli_flag where
  "AccountNonceFlag = \<lparr>fl_Name = ''nonce'', fl_Aliases = [], fl_Value = StringFlag []\<rparr>"

definition RewardTokenFlag :: cli_flag where
  "RewardTokenFlag = \<lparr>fl_Name = ''rewardToken'', fl_Aliases = [], fl_Value = StringFlag []\<rparr>"

definition TotalRewardsFlag :: cli_flag where
  "TotalRewardsFlag = \<lparr>fl_Name = ''rewards'', fl_Aliases = [], fl_Value = StringFlag []\<rparr>"

definition StartHeightFlag :: cli_flag where
  "StartHeightFlag = \<lparr>fl_Name = ''start'', fl_Aliases = [], fl_Value = Uint64Flag 0\<rparr>"

definition EndHeightFlag :: cli_flag where
  "EndHeightFlag = \<lparr>fl_Name = ''end'', fl_Aliases = [], fl_Value = Uint64Flag 0\<rparr>"

definition StableHeightFlag :: cli_flag where
  "StableHeightFlag = \<lparr>fl_Name = ''stable'', fl_Aliases = [], fl_Value = Uint64Flag 30\<rparr>"

definition StepCountFlag :: cli_flag where
  "StepCountFlag = \<lparr>fl_Name = ''step'', fl_Aliases = [], fl_Value = Uint64Flag 100\<rparr>"

definition StepRewardFlag :: cli_flag where
  "StepRewardFlag = \<lparr>fl_Name = ''stepReward'', fl_Aliases = [], fl_Value = StringFlag ''250000000000000000000''\<rparr>"

definition PairsFlag :: cli_flag where
  "PairsFlag = \<lparr>fl_Name = ''pairs'', fl_Aliases = [], fl_Value = StringFlag []\<rparr>"

definition TokenFlag :: cli_flag where
  "TokenFlag = \<lparr>fl_Name = ''token'', fl_Aliases = [], fl_Value = StringFlag []\<rparr>"

definition ExchangeFlag :: cli_flag where
  "ExchangeFlag = \<lparr>fl_Name = ''exchange'', fl_Aliases = [], fl_Value = StringFlag []\<rparr>"

definition ExchangeSliceFlag :: cli_flag where
  "ExchangeSliceFlag = \<lparr>fl_Name = ''exchange'', fl_Aliases = [], fl_Value = StringSliceFlag\<rparr>"

definition WeightSliceFlag :: cli_flag where
  "WeightSliceFlag = \<lparr>fl_Name = ''weight'', fl_Aliases = [], fl_Value = Int64SliceFlag\<rparr>"

definition InputFileFlag :: cli_flag where
  "InputFileFlag = \<lparr>fl_Name = ''input'', fl_Aliases = [], fl_Value = StringFlag []\<rparr>"

definition InputFileSliceFlag :: cli_flag where
  "InputFileSliceFlag = \<lparr>fl_Name = ''input'', fl_Aliases = [], fl_Value = StringSliceFlag\<rparr>"

definition OutputFileFlag :: cli_flag where
  "OutputFileFlag = \<lparr>fl_Name = ''output'', fl_Aliases = [], fl_Value = StringFlag []\<rparr>"

definition OutputFileSliceFlag :: cli_flag where
  "OutputFileSliceFlag = \<lparr>fl_Name = ''output'', fl_Aliases = [], fl_Value = StringSliceFlag\<rparr>"

definition DryRunFlag :: cli_flag where
  "DryRunFlag = \<lparr>fl_Name = ''dryrun'', fl_Aliases = [], fl_Value = BoolFlag False\<rparr>"

definition GatewayFlag :: cli_flag where
  "GatewayFlag = \<lparr>fl_Name = ''gateway'', fl_Aliases = [], fl_Value = StringFlag []\<rparr>"

definition SenderFlag :: cli_flag where
  "SenderFlag = \<lparr>fl_Name = ''sender'', fl_Aliases = [], fl_Value = StringFlag []\<rparr>"

definition SaveDBFlag :: cli_flag where
  "SaveDBFlag = \<lparr>fl_Name = ''savedb'', fl_Aliases = [], fl_Value = BoolFlag False\<rparr>"

definition SampleFlag :: cli_flag where
  "SampleFlag = \<lparr>fl_Name = ''sample'', fl_Aliases = [], fl_Value = Uint64Flag 0\<rparr>"

definition RewardTyepFlag :: cli_flag where
  "RewardTyepFlag = \<lparr>fl_Name = ''rewardType'', fl_Aliases = [], fl_Value = StringFlag []\<rparr>"

definition DustRewardFlag :: cli_flag where
  "DustRewardFlag = \<lparr>fl_Name = ''dustReward'', fl_Aliases = [], fl_Value = StringFlag []\<rparr>"

definition BatchCountFlag :: cli_flag where
  "BatchCountFlag = \<lparr>fl_Name = ''batchCount'', fl_Aliases = [], fl_Value = Uint64Flag 100\<rparr>"

definition BatchIntervalFlag :: cli_flag where
  "BatchIntervalFlag = \<lparr>fl_Name = ''batchInterval'', fl_Aliases = [], fl_Value = Uint64Flag 13000\<rparr>"

definition OnlySyncAccountFlag :: cli_flag where
  "OnlySyncAccountFlag = \<lparr>fl_Name = ''onlySyncAccount'', fl_Aliases = [], fl_Value = BoolFlag False\<rparr>"

definition UseTimeMeasurementFlag :: cli_flag where
  "UseTimeMeasurementFlag = \<lparr>fl_Name = ''usetime'', fl_Aliases = [], fl_Value = BoolFlag False\<rparr>"

definition ArchiveModeFlag :: cli_flag where
  "ArchiveModeFlag = \<lparr>fl_Name = ''archivemode'', fl_Aliases = [], fl_Value = BoolFlag False\<rparr>"

definition PercentageWeightFlag :: cli_flag where
  "PercentageWeightFlag = \<lparr>fl_Name = ''percentWeight'', fl_Aliases = [], fl_Value = BoolFlag False\<rparr>"

definition ScalingValueFlag :: cli_flag where
  "ScalingValueFlag = \<lparr>fl_Name = ''scaling'', fl_Aliases = [], fl_Value = StringFlag []\<rparr>"

definition calcTypeFlag :: cli_flag where
  "calcTypeFlag = \<lparr>fl_Name = ''type'', fl_Aliases = [], fl_Value = StringFlag ''both''\<rparr>"

definition mongoURLFlag :: cli_flag where
  "mongoURLFlag = \<lparr>fl_Name = ''mongoURL'', fl_Aliases = [], fl_Value = StringFlag ''localhost:27017''\<rparr>"

definition dbNameFlag :: cli_flag where
  "dbNameFlag = \<lparr>fl_Name = ''dbName'', fl_Aliases = [], fl_Value = StringFlag []\<rparr>"

definition dbUserFlag :: cli_flag where
  "dbUserFlag = \<lparr>fl_Name = ''dbUser'', fl_Aliases = [], fl_Value = StringFlag []\<rparr>"

definition dbPassFlag :: cli_flag where
  "dbPassFlag = \<lparr>fl_Name = ''dbPass'', fl_Aliases = [], fl_Value = StringFlag []\<rparr>"

section \<open>Commands and the flags they declare\<close>

record cli_command =
  cm_Name :: string
  cm_Flags :: "cli_flag list"

definition byLiquidityCommand :: cli_command where
  "byLiquidityCommand = \<lparr>cm_Name = ''byliquid'',
     cm_Flags = [RewardTokenFlag, TotalRewardsFlag, StartHeightFlag, EndHeightFlag, StableHeightFlag,
       ExchangeSliceFlag, WeightSliceFlag, InputFileSliceFlag, OutputFileSliceFlag, SenderFlag,
       KeyStoreFileFlag, PasswordFileFlag, GasLimitFlag, GasPriceFlag, AccountNonceFlag, SampleFlag,
       SaveDBFlag, DryRunFlag, BatchCountFlag, BatchIntervalFlag, UseTimeMeasurementFlag,
       ArchiveModeFlag]\<rparr>"

definition byVolumeCommand :: cli_command where
  "byVolumeCommand = \<lparr>cm_Name = ''byvolume'',
     cm_Flags = [RewardTokenFlag, TotalRewardsFlag, StartHeightFlag, EndHeightFlag, StableHeightFlag,
       StepCountFlag, StepRewardFlag, ExchangeSliceFlag, WeightSliceFlag, InputFileSliceFlag,
       OutputFileSliceFlag, SenderFlag, KeyStoreFileFlag, PasswordFileFlag, GasLimitFlag, GasPriceFlag,
       AccountNonceFlag, SaveDBFlag, DryRunFlag, BatchCountFlag, BatchIntervalFlag,
       UseTimeMeasurementFlag, PercentageWeightFlag]\<rparr>"

definition calcRewardsCommand :: cli_command where
  "calcRewardsCommand = \<lparr>cm_Name = ''calcRewards'',
     cm_Flags = [StartHeightFlag, EndHeightFlag, SampleFlag, InputFileSliceFlag, calcTypeFlag]\<rparr>"

definition sendRewardsCommand :: cli_command where
  "sendRewardsCommand = \<lparr>cm_Name = ''sendrewards'',
     cm_Flags = [GatewayFlag, RewardTyepFlag, DustRewardFlag, ExchangeSliceFlag, RewardTokenFlag,
       StartHeightFlag, EndHeightFlag, InputFileSliceFlag, OutputFileSliceFlag, SenderFlag,
       KeyStoreFileFlag, PasswordFileFlag, GasLimitFlag, GasPriceFlag, AccountNonceFlag, SaveDBFlag,
       DryRunFlag, BatchCountFlag, BatchIntervalFlag, ScalingValueFlag]\<rparr>"

definition importRewardsCommand :: cli_command where
  "importRewardsCommand = \<lparr>cm_Name = ''importrewards'',
     cm_Flags = [RewardTyepFlag, ExchangeFlag, RewardTokenFlag, StartHeightFlag, EndHeightFlag,
       InputFileFlag, DryRunFlag]\<rparr>"

definition insertAccountCommand :: cli_command where
  "insertAccountCommand = \<lparr>cm_Name = ''insertaccount'',
     cm_Flags = [mongoURLFlag, dbNameFlag, dbUserFlag, dbPassFlag, ExchangeFlag, PairsFlag, TokenFlag,
       InputFileFlag, DryRunFlag]\<rparr>"

definition LicenseCommand :: cli_command where
  "LicenseCommand = \<lparr>cm_Name = ''license'', cm_Flags = []\<rparr>"

definition VersionCommand :: cli_command where
  "VersionCommand = \<lparr>cm_Name = ''version'', cm_Flags = []\<rparr>"

text \<open>The commands of the application, and its own flags, which every command sees.\<close>

definition app_Commands :: "cli_command list" where
  "app_Commands = [byLiquidityCommand, byVolumeCommand, calcRewardsCommand, sendRewardsCommand,
     importRewardsCommand, insertAccountCommand, LicenseCommand, VersionCommand]"

definition app_Flags :: "cli_flag list" where
  "app_Flags = [ConfigFileFlag, SyncFromFlag, SyncToFlag, OverwriteFlag, OnlySyncAccountFlag,
     VerbosityFlag, LogFileFlag, LogRotationFlag, LogMaxAgeFlag, JSONFormatFlag, ColorFormatFlag]"

section \<open>What a command sees\<close>

record cli_context =
  cx_NArg :: nat
  cx_IsSet :: "string \<Rightarrow> bool"
  cx_String :: "string \<Rightarrow> string"
  cx_Uint64 :: "string \<Rightarrow> u64"
  cx_Bool :: "string \<Rightarrow> bool"
  cx_StringSlice :: "string \<Rightarrow> string list"
  cx_Int64Slice :: "string \<Rightarrow> int list"

text \<open>
  A flag that is not set has its default value, and a name that is declared neither by the command
  nor by the application counts as not set and reads as the zero value of the type asked for.
  The package declares the help flag itself.
\<close>

definition flag_default :: "cli_context \<Rightarrow> cli_flag \<Rightarrow> bool" where
  "flag_default ctx flag = (case fl_Value flag of
     StringFlag v \<Rightarrow> cx_String ctx (fl_Name flag) = v
   | Uint64Flag v \<Rightarrow> cx_Uint64 ctx (fl_Name flag) = v
   | BoolFlag v \<Rightarrow> cx_Bool ctx (fl_Name flag) = v
   | StringSliceFlag \<Rightarrow> cx_StringSlice ctx (fl_Name flag) = []
   | Int64SliceFlag \<Rightarrow> cx_Int64Slice ctx (fl_Name flag) = [])"

definition reads_zero :: "cli_context \<Rightarrow> string \<Rightarrow> bool" where
  "reads_zero ctx name \<longleftrightarrow> \<not> cx_IsSet ctx name \<and> cx_String ctx name = [] \<and> cx_Uint64 ctx name = 0 \<and>
     \<not> cx_Bool ctx name \<and> cx_StringSlice ctx name = [] \<and> cx_Int64Slice ctx name = []"

definition declared_names :: "cli_flag list \<Rightarrow> string list" where
  "declared_names flags = ''help'' # ''h'' # concat (map (\<lambda>flag. fl_Name flag # fl_Aliases flag) flags)"

definition cli_documented :: "cli_flag list \<Rightarrow> cli_context \<Rightarrow> bool" where
  "cli_documented flags ctx \<longleftrightarrow>
     (\<forall>flag \<in> set flags. \<not> cx_IsSet ctx (fl_Name flag) \<longrightarrow> flag_default ctx flag) \<and>
     (\<forall>name. name \<notin> set (declared_names flags) \<longrightarrow> reads_zero ctx name)"

text \<open>The names of the flags, for the simplifier.\<close>

named_theorems flag_defs

lemmas flags_unfolded [flag_defs] =
  DataDirFlag_def ConfigFileFlag_def LogFileFlag_def LogRotationFlag_def
  LogMaxAgeFlag_def VerbosityFlag_def JSONFormatFlag_def ColorFormatFlag_def
  SyncFromFlag_def SyncToFlag_def OverwriteFlag_def KeyStoreFileFlag_def
  PasswordFileFlag_def GasLimitFlag_def GasPriceFlag_def AccountNonceFlag_def
  RewardTokenFlag_def TotalRewardsFlag_def StartHeightFlag_def EndHeightFlag_def
  StableHeightFlag_def StepCountFlag_def StepRewardFlag_def PairsFlag_def
  TokenFlag_def ExchangeFlag_def ExchangeSliceFlag_def WeightSliceFlag_def
  InputFileFlag_def InputFileSliceFlag_def OutputFileFlag_def OutputFileSliceFlag_def
  DryRunFlag_def GatewayFlag_def SenderFlag_def SaveDBFlag_def
  SampleFlag_def RewardTyepFlag_def DustRewardFlag_def BatchCountFlag_def
  BatchIntervalFlag_def OnlySyncAccountFlag_def UseTimeMeasurementFlag_def ArchiveModeFlag_def
  PercentageWeightFlag_def ScalingValueFlag_def calcTypeFlag_def mongoURLFlag_def
  dbNameFlag_def dbUserFlag_def dbPassFlag_def

end
