(* ===== verification/Commands.thy ===== *)
theory Commands
  imports Worker Mongo_Init Flags
begin

text \<open>
  The commands (\<open>cmd/distribute\<close>) and the start of the program (\<open>cmd/utils/initapp.go\<close>,
  \<open>worker/work.go\<close>): the flags become the options of the distributions. The parsed command line
  is the record \<open>cli_context\<close> (see \<open>Flags\<close>). \<open>log.Fatal\<close> ends the process: no result. Log
  output is left out; the decoded configuration file is an argument. The collections of the
  database are named directly by the operations on them, so the variables of the connection are
  not passed on.
\<close>

section \<open>Arguments of the syncer (flags.go)\<close>

definition InitSyncArguments :: "cli_context \<Rightarrow> SyncArguments" where
  "InitSyncArguments ctx = \<lparr>
     SyncStartHeight = (if cx_IsSet ctx (fl_Name SyncFromFlag) then Some (cx_Uint64 ctx (fl_Name SyncFromFlag)) else None),
     SyncEndHeight = (if cx_IsSet ctx (fl_Name SyncToFlag) then Some (cx_Uint64 ctx (fl_Name SyncToFlag)) else None),
     SyncOverwrite = (if cx_IsSet ctx (fl_Name OverwriteFlag) then Some (cx_Bool ctx (fl_Name OverwriteFlag)) else None)\<rparr>"

section \<open>The start of a command (initapp.go)\<close>

fun verifyConfig_loop :: "env \<Rightarrow> ExchangeConfig list \<Rightarrow> params \<Rightarrow> (error option \<times> params) action" where
  "verifyConfig_loop E [] P w = Some ((None, P), w)"
| "verifyConfig_loop E (ex # rest) P w = do {
     let exchange = HexToAddress E (ex_Exchange ex);
     let token = HexToAddress E (ex_Token ex);
     (wantToken, w) \<leftarrow> GetExchangeTokenAddress E exchange w;
     if token \<noteq> wantToken
     then Some ((Some (Errorf ''exchange token mismatch. exchange %v want token %v, but have %v''), P), w)
     else do {
       (factory, w) \<leftarrow> GetExchangeFactoryAddress E exchange w;
       let (configed, P) = IsConfigedFactory E P factory;
       if \<not> configed then Some ((Some (Errorf ''exchange %v 's factory %v is not configed''), P), w)
       else verifyConfig_loop E rest P w
     }
   }"

definition verifyConfig :: "env \<Rightarrow> params \<Rightarrow> (error option \<times> params) action" where
  "verifyConfig E P w = verifyConfig_loop E (exchanges P) P w"

partial_function (option) DialServer :: "env \<Rightarrow> string \<Rightarrow> unit action" where
  "DialServer E serverURL w = do {
     (err, w) \<leftarrow> capi_DialServer E serverURL w;
     if err = None then Some ((), w) else DialServer E serverURL (w @ [EvSleep 3000])
   }"

definition InitMongodb :: "env \<Rightarrow> params \<Rightarrow> mongo_vars action" where
  "InitMongodb E P w = do {
     dbConfig \<leftarrow> cf_MongoDB (config P);
     MongoServerInit E [DBURL dbConfig] (DBName dbConfig) (UserName dbConfig) (Password dbConfig) zero_mongo_vars w
   }"

text \<open>\<open>tmpConfig\<close>: the decoded configuration file.\<close>

definition initApp :: "env \<Rightarrow> params \<Rightarrow> Config \<Rightarrow> bool \<Rightarrow> string \<Rightarrow> params action" where
  "initApp E P tmpConfig withConfigFile serverURL w =
     (if \<not> withConfigFile then do { (_, w) \<leftarrow> DialServer E serverURL w; Some (P, w) }
      else do {
        P \<leftarrow> LoadConfig E P tmpConfig;
        (_, w) \<leftarrow> InitMongodb E P w;
        serverURL \<leftarrow> (if serverURL = [] then map_option APIAddress (cf_Gateway (config P)) else Some serverURL);
        (_, w) \<leftarrow> DialServer E serverURL w;
        ((err, P), w) \<leftarrow> verifyConfig E P w;
        if err \<noteq> None then None else Some (P, w)
      })"

definition InitApp :: "env \<Rightarrow> params \<Rightarrow> Config \<Rightarrow> bool \<Rightarrow> params action" where
  "InitApp E P tmpConfig withConfigFile w = initApp E P tmpConfig withConfigFile [] w"

definition InitAppWithURL :: "env \<Rightarrow> params \<Rightarrow> Config \<Rightarrow> string \<Rightarrow> bool \<Rightarrow> params action" where
  "InitAppWithURL E P tmpConfig serverURL withConfigFile w = initApp E P tmpConfig withConfigFile serverURL w"

section \<open>From flags to options (util.go)\<close>

definition big_flag :: "cli_context \<Rightarrow> string \<Rightarrow> error + int option" where
  "big_flag ctx flag =
     (if cx_IsSet ctx flag
      then (case GetBigIntFromString (cx_String ctx flag) of Inl err \<Rightarrow> Inl err | Inr b \<Rightarrow> Inr (Some b))
      else Inr None)"

definition cmd_getBuildTxArgs :: "env \<Rightarrow> cli_context \<Rightarrow> (error + BuildTxArgs) action" where
  "cmd_getBuildTxArgs E ctx w =
     (case big_flag ctx (fl_Name GasPriceFlag) of Inl err \<Rightarrow> Some (Inl err, w) | Inr gasPrice \<Rightarrow>
      (case big_flag ctx (fl_Name GasLimitFlag) of Inl err \<Rightarrow> Some (Inl err, w) | Inr gasLimit \<Rightarrow>
      (case big_flag ctx (fl_Name AccountNonceFlag) of Inl err \<Rightarrow> Some (Inl err, w) | Inr nonce \<Rightarrow> do {
         let args = zero_BuildTxArgs\<lparr>ba_Sender := cx_String ctx (fl_Name SenderFlag),
           ba_KeystoreFile := cx_String ctx (fl_Name KeyStoreFileFlag), ba_PasswordFile := cx_String ctx (fl_Name PasswordFileFlag),
           ba_Nonce := map_option big_Uint64 nonce, ba_GasLimit := map_option big_Uint64 gasLimit,
           ba_GasPrice := gasPrice\<rparr>;
         ((err, args), w) \<leftarrow> Check E args (cx_Bool ctx (fl_Name DryRunFlag)) w;
         Some (case err of Some err \<Rightarrow> Inl err | None \<Rightarrow> Inr args, w)
       })))"

definition setConfigParams :: "cli_context \<Rightarrow> params \<Rightarrow> error + params" where
  "setConfigParams ctx P =
     (case big_flag ctx (fl_Name DustRewardFlag) of
        Inl err \<Rightarrow> Inl err
      | Inr None \<Rightarrow> Inr P
      | Inr (Some dustReward) \<Rightarrow> Inr (SetDustRewardThreshold P (big_String dustReward)))"

definition flag_weights :: "int list \<Rightarrow> error + u64 list" where
  "flag_weights ws =
     (if \<exists>wt \<in> set ws. wt < 0 then Inl (Errorf ''non positive weight %v'') else Inr (map word_of_int ws))"

definition option_of_flags :: "cli_context \<Rightarrow> BuildTxArgs \<Rightarrow> int option \<Rightarrow> int option \<Rightarrow> u64 list \<Rightarrow> Opt" where
  "option_of_flags ctx args rewards stepReward weights = zero_Option args\<lparr>
     o_RewardToken := cx_String ctx (fl_Name RewardTokenFlag), o_TotalValue := rewards,
     o_StartHeight := cx_Uint64 ctx (fl_Name StartHeightFlag), o_EndHeight := cx_Uint64 ctx (fl_Name EndHeightFlag),
     o_StableHeight := cx_Uint64 ctx (fl_Name StableHeightFlag), o_StepCount := cx_Uint64 ctx (fl_Name StepCountFlag),
     o_StepReward := stepReward, o_Exchanges := cx_StringSlice ctx (fl_Name ExchangeSliceFlag), o_Weights := Some weights,
     o_InputFiles := cx_StringSlice ctx (fl_Name InputFileSliceFlag), o_OutputFiles := cx_StringSlice ctx (fl_Name OutputFileSliceFlag),
     o_SampleHeight := cx_Uint64 ctx (fl_Name SampleFlag), o_SaveDB := cx_Bool ctx (fl_Name SaveDBFlag), o_DryRun := cx_Bool ctx (fl_Name DryRunFlag),
     o_BatchCount := cx_Uint64 ctx (fl_Name BatchCountFlag), o_BatchInterval := cx_Uint64 ctx (fl_Name BatchIntervalFlag),
     o_UseTimeMeasurement := cx_Bool ctx (fl_Name UseTimeMeasurementFlag), o_ArchiveMode := cx_Bool ctx (fl_Name ArchiveModeFlag),
     o_WeightIsPercentage := cx_Bool ctx (fl_Name PercentageWeightFlag)\<rparr>"

definition getOptionAndTxArgs :: "env \<Rightarrow> cli_context \<Rightarrow> params \<Rightarrow> ((error + Opt) \<times> params) action" where
  "getOptionAndTxArgs E ctx P w =
     (case big_flag ctx (fl_Name TotalRewardsFlag) of Inl err \<Rightarrow> Some ((Inl err, P), w) | Inr rewards \<Rightarrow> do {
        (r, w) \<leftarrow> cmd_getBuildTxArgs E ctx w;
        (case r of Inl err \<Rightarrow> Some ((Inl err, P), w) | Inr args \<Rightarrow>
        (case setConfigParams ctx P of Inl err \<Rightarrow> Some ((Inl err, P), w) | Inr P \<Rightarrow>
        (case (if cx_Uint64 ctx (fl_Name StepCountFlag) \<noteq> 0
          then (case GetBigIntFromString (cx_String ctx (fl_Name StepRewardFlag)) of Inl err \<Rightarrow> Inl err | Inr b \<Rightarrow> Inr (Some b))
          else Inr None) of Inl err \<Rightarrow> Some ((Inl err, P), w) | Inr stepReward \<Rightarrow>
        (case flag_weights (cx_Int64Slice ctx (fl_Name WeightSliceFlag)) of Inl err \<Rightarrow> Some ((Inl err, P), w) | Inr weights \<Rightarrow>
           let opt = option_of_flags ctx args rewards stepReward weights;
               (err, opt) = (if cx_IsSet ctx (fl_Name RewardTyepFlag) then SetByWhat opt (cx_String ctx (fl_Name RewardTyepFlag)) else (None, opt))
           in case err of Some err \<Rightarrow> Some ((Inl err, P), w) | None \<Rightarrow>
              (case CheckBasic E P opt of Some err \<Rightarrow> Some ((Inl err, P), w) | None \<Rightarrow> Some ((Inr opt, P), w))))))
      })"

section \<open>The commands\<close>

definition cmd_byLiquidity :: "env \<Rightarrow> cli_context \<Rightarrow> Config \<Rightarrow> params \<Rightarrow> error option action" where
  "cmd_byLiquidity E ctx tmpConfig P w = do {
     (P, w) \<leftarrow> InitApp E P tmpConfig True w;
     ((r, P), w) \<leftarrow> getOptionAndTxArgs E ctx P w;
     (case r of Inl err \<Rightarrow> None | Inr opt \<Rightarrow> do {
       ((err, opt), w) \<leftarrow> ByLiquidity E P opt w;
       Some (err, w)
     })
   }"

text \<open>
  No syncer runs in the process of a command, so the flag that \<open>WaitSyncToLatest\<close> waits for keeps
  its initial value.
\<close>

definition cmd_byVolume :: "env \<Rightarrow> cli_context \<Rightarrow> Config \<Rightarrow> params \<Rightarrow> error option action" where
  "cmd_byVolume E ctx tmpConfig P w = do {
     (P, w) \<leftarrow> InitApp E P tmpConfig True w;
     ((r, P), w) \<leftarrow> getOptionAndTxArgs E ctx P w;
     (case r of Inl err \<Rightarrow> None | Inr opt \<Rightarrow> do {
       (_, w) \<leftarrow> (if [] \<in> set (o_InputFiles opt) then WaitSyncToLatest (\<lambda>w. hasSyncToLatest init_vars) w else Some ((), w));
       ((err, opt), w) \<leftarrow> ByVolume E P opt w;
       Some (err, w)
     })
   }"

text \<open>The scaling of the rewards; no result: a fatal error.\<close>

definition getScalingValue :: "string \<Rightarrow> (int option \<times> int option) option" where
  "getScalingValue scalingStr =
     (if scalingStr = [] then Some (None, None)
      else let parts = blankOrCommaSep_Split scalingStr in
        if length parts > 2 then None
        else do {
          numerator \<leftarrow> SetString (parts ! 0) 0;
          if length parts > 1 then do {
            denominator \<leftarrow> SetString (parts ! 1) 0;
            if denominator = 0 then None else Some (Some numerator, Some denominator)
          }
          else if numerator = 1 then Some (None, None)
          else Some (Some numerator, None)
        })"

definition cmd_sendRewards :: "env \<Rightarrow> cli_context \<Rightarrow> Config \<Rightarrow> params \<Rightarrow> error option action" where
  "cmd_sendRewards E ctx tmpConfig P w =
     (let serverURL = cx_String ctx (fl_Name GatewayFlag); rewardType = cx_String ctx (fl_Name RewardTyepFlag) in
      if serverURL = [] then Some (Some (Errorf ''must specify gateway URL''), w)
      else if rewardType = [] then Some (Some (Errorf ''must specify rewardType''), w)
      else do {
        (P, w) \<leftarrow> InitAppWithURL E P tmpConfig serverURL (\<not> IsCustomMethod rewardType) w;
        ((r, P), w) \<leftarrow> getOptionAndTxArgs E ctx P w;
        (case r of Inl err \<Rightarrow> None | Inr opt \<Rightarrow> do {
          (num, den) \<leftarrow> getScalingValue (cx_String ctx (fl_Name ScalingValueFlag));
          ((err, opt), w) \<leftarrow> SendRewardsFromFile E P (opt\<lparr>o_ScalingNumerator := num, o_ScalingDenominator := den\<rparr>) w;
          Some (err, w)
        })
      })"

definition cmd_calcRewards :: "env \<Rightarrow> cli_context \<Rightarrow> Config \<Rightarrow> params \<Rightarrow> error option action" where
  "cmd_calcRewards E ctx tmpConfig P w =
     (let startHeight = cx_Uint64 ctx (fl_Name StartHeightFlag); endHeight = cx_Uint64 ctx (fl_Name EndHeightFlag);
          sampleHeight = cx_Uint64 ctx (fl_Name SampleFlag); calcType = cx_String ctx (fl_Name calcTypeFlag) in
      if cx_String ctx (fl_Name ConfigFileFlag) = [] then None
      else if startHeight \<ge> endHeight then None
      else if sampleHeight \<noteq> 0 \<and> \<not> (sampleHeight \<ge> startHeight \<and> sampleHeight < endHeight) then None
      else if calcType \<notin> {CalcBothRewards, CalcVolumeRewards, CalcLiquidRewards} then None
      else do {
        (P, w) \<leftarrow> InitApp E P tmpConfig True w;
        dist_CalcRewards E P startHeight endHeight sampleHeight calcType (cx_StringSlice ctx (fl_Name InputFileSliceFlag)) w
      })"

section \<open>The program without a command (worker/work.go)\<close>

text \<open>
  What runs after the start: the syncer, the daily liquidity, the runner of the distributions.
  With \<open>onlySyncAccount\<close> the syncer runs in the goroutine of the start, which has nothing else to
  do; otherwise each one in its own.
\<close>

datatype task = Syncing syncer sync_vars | UpdatingLiquidity | Distributing

definition StartWork ::
  "env \<Rightarrow> params \<Rightarrow> SyncArguments \<Rightarrow> sync_vars \<Rightarrow> bool \<Rightarrow> (task list \<times> params) action" where
  "StartWork E P args G onlySyncAcc w = do {
     ((s, G, P), w) \<leftarrow> syncer_Start E P args G onlySyncAcc w;
     if onlySyncAcc then Some (([Syncing s G], P), w)
     else do {
       liquidity \<leftarrow> updateLiquidityDaily P G;
       distCfg \<leftarrow> cf_Distribute (config P);
       (enabled, w) \<leftarrow> (if \<not> dc_Enable distCfg then Some (False, w)
         else do { (runner, w) \<leftarrow> initDistributer E P distCfg w; Some (\<not> isl runner, w) });
       Some ((Syncing s G # (if liquidity then [UpdatingLiquidity] else []) @ (if enabled then [Distributing] else []), P), w)
     }
   }"

definition cmd_distribute :: "env \<Rightarrow> cli_context \<Rightarrow> Config \<Rightarrow> params \<Rightarrow> (error + task list) action" where
  "cmd_distribute E ctx tmpConfig P w =
     (if cx_NArg ctx > 0 then Some (Inl (Errorf ''invalid command: %q''), w)
      else do {
        (P, w) \<leftarrow> InitApp E P tmpConfig True w;
        ((tasks, P), w) \<leftarrow> StartWork E P (InitSyncArguments ctx) init_vars (cx_Bool ctx (fl_Name OnlySyncAccountFlag)) w;
        Some (Inr tasks, w)
      })"

end
