(* ===== verification/Command_Safety.thy ===== *)
theory Command_Safety
  imports Commands
begin

text \<open>
  Properties of the commands (theory \<open>Commands\<close>), over everything they call: a dry run broadcasts
  nothing, and a command that waits for the syncer never comes back.
\<close>

text \<open>A result of a case distinction comes from one of the cases.\<close>

lemma sum_case_eq_Some:
  "(case r of Inl e \<Rightarrow> f e | Inr x \<Rightarrow> g x) = Some y \<longleftrightarrow>
     (\<exists>e. r = Inl e \<and> f e = Some y) \<or> (\<exists>x. r = Inr x \<and> g x = Some y)"
  by (cases r) auto

lemma option_case_eq_Some:
  "(case m of None \<Rightarrow> a | Some x \<Rightarrow> g x) = Some y \<longleftrightarrow>
     m = None \<and> a = Some y \<or> (\<exists>x. m = Some x \<and> g x = Some y)"
  by (cases m) auto

section \<open>The start of a command broadcasts nothing\<close>

lemma silent_verifyConfig_loop: "silent (verifyConfig_loop E exs P)"
proof (induction exs arbitrary: P)
  case (Cons ex rest)
  show ?case
    unfolding verifyConfig_loop.simps [abs_def]
    by (rule Cons.IH silent_intros only_rules)+
qed (simp add: only_def)

lemma silent_DialServer: "silent (DialServer E serverURL)"
proof (rule only_rec)
  fix w y assume run: "DialServer E serverURL w = Some y"
  show "adds (\<lambda>e. \<not> is_send e) w (snd y)"
  proof (rule DialServer.raw_induct [where P = "\<lambda>E url w y. adds (\<lambda>e. \<not> is_send e) w (snd y)", OF _ run], goal_cases)
    case (1 rec E url w y)
    then obtain err w1 where dial: "capi_DialServer E url w = Some (err, w1)"
      and more: "err = None \<and> y = ((), w1) \<or> rec E url (w1 @ [EvSleep 3000]) = Some y"
      by (auto simp: bind_eq_Some_conv split: if_splits)
    have first: "adds (\<lambda>e. \<not> is_send e) w w1" using onlyD [OF silent_capi_DialServer dial] .
    have "adds (\<lambda>e. \<not> is_send e) w1 (w1 @ [EvSleep 3000])" by simp
    with first more 1(1) show ?case by (cases y) (auto simp del: adds_append intro: adds_trans)
  qed
qed

lemma silent_InitMongodb: "silent (InitMongodb E P)"
  unfolding InitMongodb_def [abs_def] by (rule only_bind_pure silent_intros)+

lemma silent_initApp: "silent (initApp E P tmpConfig withConfigFile serverURL)"
  unfolding initApp_def [abs_def] verifyConfig_def
  by (rule silent_verifyConfig_loop silent_DialServer silent_InitMongodb silent_intros only_rules | rule only_bind_pure)+

lemma silent_cmd_getBuildTxArgs: "silent (cmd_getBuildTxArgs E ctx)"
  unfolding cmd_getBuildTxArgs_def [abs_def] by (rule silent_intros only_rules)+

lemma silent_getOptionAndTxArgs: "silent (getOptionAndTxArgs E ctx P)"
  unfolding getOptionAndTxArgs_def [abs_def] by (rule silent_cmd_getBuildTxArgs only_rules)+

lemmas silent_start [silent_intros] = silent_initApp silent_initApp [folded InitApp_def [abs_def]]
  silent_getOptionAndTxArgs

lemma silent_InitApp: "silent (InitApp E P tmpConfig b)" "silent (InitAppWithURL E P tmpConfig url b)"
  unfolding InitApp_def [abs_def] InitAppWithURL_def [abs_def] by (rule silent_initApp)+

section \<open>Options follow the flags\<close>

lemma SetByWhat_fields: "SetByWhat opt m = (err, opt') \<Longrightarrow> \<exists>m'. opt' = opt\<lparr>o_byWhat := m'\<rparr>"
  by (cases opt) (auto simp: SetByWhat_def split: if_splits)

text \<open>The reward of a step, read when there are steps.\<close>

definition step_flag :: "cli_context \<Rightarrow> error + int option" where
  "step_flag ctx =
     (if cx_Uint64 ctx (fl_Name StepCountFlag) \<noteq> 0
      then (case GetBigIntFromString (cx_String ctx (fl_Name StepRewardFlag)) of Inl err \<Rightarrow> Inl err | Inr b \<Rightarrow> Inr (Some b))
      else Inr None)"

lemma option_of_run:
  assumes run: "getOptionAndTxArgs E ctx P w = Some ((Inr opt, P'), w')"
  obtains args rewards stepReward weights m where
    "opt = (option_of_flags ctx args rewards stepReward weights)\<lparr>o_byWhat := m\<rparr>"
    "big_flag ctx (fl_Name TotalRewardsFlag) = Inr rewards" "step_flag ctx = Inr stepReward"
    "flag_weights (cx_Int64Slice ctx (fl_Name WeightSliceFlag)) = Inr weights"
    "setConfigParams ctx P = Inr P'" "CheckBasic E P' opt = None"
proof -
  note def = getOptionAndTxArgs_def [folded step_flag_def]
  obtain rewards where 1: "big_flag ctx (fl_Name TotalRewardsFlag) = Inr rewards"
    using run by (cases "big_flag ctx (fl_Name TotalRewardsFlag)") (simp_all add: def)
  obtain r w1 where 2: "cmd_getBuildTxArgs E ctx w = Some (r, w1)"
    using run 1 by (auto simp: def bind_eq_Some_conv)
  obtain args where 3: "r = Inr args"
    using run 1 2 by (cases r) (simp_all add: def)
  obtain P1 where 4: "setConfigParams ctx P = Inr P1"
    using run 1 2 3 by (cases "setConfigParams ctx P") (simp_all add: def)
  obtain stepReward where 5: "step_flag ctx = Inr stepReward"
    using run 1 2 3 4 by (cases "step_flag ctx") (simp_all add: def)
  obtain weights where 6: "flag_weights (cx_Int64Slice ctx (fl_Name WeightSliceFlag)) = Inr weights"
    using run 1 2 3 4 5 by (cases "flag_weights (cx_Int64Slice ctx (fl_Name WeightSliceFlag))") (simp_all add: def)
  let ?opt = "option_of_flags ctx args rewards stepReward weights"
  let ?set = "if cx_IsSet ctx (fl_Name RewardTyepFlag) then SetByWhat ?opt (cx_String ctx (fl_Name RewardTyepFlag)) else (None, ?opt)"
  obtain err opt1 where set: "?set = (err, opt1)" by (meson surj_pair)
  have "?opt = ?opt\<lparr>o_byWhat := o_byWhat ?opt\<rparr>" by simp
  then obtain m where "opt1 = ?opt\<lparr>o_byWhat := m\<rparr>"
    using set SetByWhat_fields by (metis prod.inject)
  moreover have "opt1 = opt \<and> P1 = P' \<and> CheckBasic E P1 opt1 = None"
    using run unfolding def 1 2 3 4 5 6 Let_def sum.case prod.case Option.bind.bind_lunit set
    by (auto split: option.splits)
  ultimately show thesis using that 1 4 5 6 by blast
qed

lemma option_follows_flags:
  assumes "getOptionAndTxArgs E ctx P w = Some ((Inr opt, P'), w')"
  shows "o_DryRun opt = cx_Bool ctx (fl_Name DryRunFlag) \<and> o_InputFiles opt = cx_StringSlice ctx (fl_Name InputFileSliceFlag) \<and>
    CheckBasic E P' opt = None"
  using assms by (rule option_of_run) (simp add: option_of_flags_def)

section \<open>Waiting for the syncer\<close>

lemma WaitSyncToLatest_forever: "WaitSyncToLatest (\<lambda>w. False) w = None"
proof (rule ccontr)
  assume "WaitSyncToLatest (\<lambda>w. False) w \<noteq> None"
  then obtain y where run: "WaitSyncToLatest (\<lambda>w. False) w = Some y" by blast
  have "(\<lambda>w. False) = flag \<longrightarrow> False" if "WaitSyncToLatest flag w = Some y" for flag w
    by (rule WaitSyncToLatest.raw_induct [where P = "\<lambda>flag w y. (\<lambda>w. False) = flag \<longrightarrow> False", OF _ that])
      (auto split: if_splits)
  with run show False by blast
qed

text \<open>
  The command that distributes by volume never comes back when one of its input files is
  given as the empty name: it waits until the syncer has reached the latest block, and no syncer
  runs in its process.
\<close>

lemma cmd_byVolume_waits_forever:
  assumes "[] \<in> set (cx_StringSlice ctx (fl_Name InputFileSliceFlag))"
  shows "cmd_byVolume E ctx tmpConfig P w = None"
proof (cases "InitApp E P tmpConfig True w")
  case None
  then show ?thesis by (simp add: cmd_byVolume_def)
next
  case (Some p)
  obtain P1 w1 where p: "p = (P1, w1)" by (cases p)
  show ?thesis
  proof (cases "getOptionAndTxArgs E ctx P1 w1")
    case None
    with Some p show ?thesis by (simp add: cmd_byVolume_def)
  next
    case (Some q)
    obtain r P2 w2 where q: "q = ((r, P2), w2)" by (metis prod.exhaust_sel)
    have wait: "WaitSyncToLatest (\<lambda>w. hasSyncToLatest init_vars) w2 = None"
      using WaitSyncToLatest_forever by (simp add: init_vars_def)
    show ?thesis
    proof (cases r)
      case (Inl e)
      with Some p q \<open>InitApp E P tmpConfig True w = Some p\<close> show ?thesis by (simp add: cmd_byVolume_def)
    next
      case (Inr opt)
      with Some q have "o_InputFiles opt = cx_StringSlice ctx (fl_Name InputFileSliceFlag)"
        using option_follows_flags [of E ctx P1 w1 opt P2 w2] by simp
      with assms wait Inr Some p q \<open>InitApp E P tmpConfig True w = Some p\<close> show ?thesis
        by (simp add: cmd_byVolume_def)
    qed
  qed
qed

section \<open>Dry runs\<close>

lemma silent_checkSendRewardsFromFile: "silent (checkSendRewardsFromFile E P opt ifile)"
  unfolding checkSendRewardsFromFile_def [abs_def]
  by (rule silent_intros only_rules | rule only_bind_pure)+

lemma checkSendRewardsFromFile_dry:
  "checkSendRewardsFromFile E P opt ifile w = Some ((r, opt'), w') \<Longrightarrow> o_DryRun opt' = o_DryRun opt"
  by (auto simp: checkSendRewardsFromFile_def bind_eq_Some_conv sum_case_eq_Some option_case_eq_Some Let_def split: if_splits)

lemma sendRewardsFromFile_dry:
  assumes run: "sendRewardsFromFile E P opt exchange ifile ofile w = Some ((r, opt'), w')" and dry: "o_DryRun opt"
  shows "adds (\<lambda>e. \<not> is_send e) w w' \<and> o_DryRun opt'"
proof -
  obtain c opt1 w1 where check: "checkSendRewardsFromFile E P opt ifile w = Some ((c, opt1), w1)"
    using run by (auto simp: sendRewardsFromFile_def bind_eq_Some_conv)
  have dry1: "o_DryRun opt1" using checkSendRewardsFromFile_dry [OF check] dry by simp
  have a1: "adds (\<lambda>e. \<not> is_send e) w w1" using onlyD [OF silent_checkSendRewardsFromFile check] .
  show ?thesis
  proof (cases c)
    case (Inl e)
    with run check a1 dry1 show ?thesis by (auto simp: sendRewardsFromFile_def)
  next
    case (Inr stats)
    obtain err w2 where opened: "OpenFile E ofile w1 = Some (err, w2)"
      using run check Inr by (auto simp: sendRewardsFromFile_def bind_eq_Some_conv)
    have a2: "adds (\<lambda>e. \<not> is_send e) w w2" using adds_trans [OF a1] onlyD [OF silent_OpenFile opened] .
    show ?thesis
    proof (cases "err = None")
      case False
      with run check Inr opened a2 dry1 show ?thesis by (auto simp: sendRewardsFromFile_def)
    next
      case True
      obtain t e opt2 w3 where loop: "sendRewards_loop E P opt1 ofile exchange stats 0 0 w2 = Some (((t, e), opt2), w3)"
        "opt' = deinit opt2" "w' = w3"
        using run check Inr opened True by (auto simp: sendRewardsFromFile_def bind_eq_Some_conv)
      from loop_dry [OF loop(1) dry1] adds_trans [OF a2] dry1 loop(2,3) show ?thesis by (auto simp: deinit_def)
    qed
  qed
qed

lemma SendRewardsFromFile_loop_dry:
  "SendRewardsFromFile_loop E P opt i files w = Some ((e, opt'), w') \<Longrightarrow> o_DryRun opt \<Longrightarrow> adds (\<lambda>e. \<not> is_send e) w w'"
proof (induction files arbitrary: opt i w)
  case (Cons f files)
  obtain x t err opt1 w1 where run: "sendRewardsFromFile E P opt x f (o_OutputFiles opt ! i) w = Some (((t, err), opt1), w1)"
    "err \<noteq> None \<and> w' = w1 \<or> SendRewardsFromFile_loop E P opt1 (Suc i) files w1 = Some ((e, opt'), w')"
    using Cons.prems(1) by (auto simp: Let_def bind_eq_Some_conv split: if_splits)
  note one = sendRewardsFromFile_dry [OF run(1) Cons.prems(2)]
  from run(2) show ?case
  proof
    assume "SendRewardsFromFile_loop E P opt1 (Suc i) files w1 = Some ((e, opt'), w')"
    from Cons.IH [OF this] one show ?thesis by (blast intro: adds_trans)
  qed (use one in blast)
qed simp

lemma SendRewardsFromFile_dry:
  "SendRewardsFromFile E P opt w = Some ((e, opt'), w') \<Longrightarrow> o_DryRun opt \<Longrightarrow> adds (\<lambda>e. \<not> is_send e) w w'"
  by (auto simp: SendRewardsFromFile_def split: if_splits dest: SendRewardsFromFile_loop_dry)

text \<open>The distributions with the options of a dry run.\<close>

lemma started:
  assumes "initApp E P tmpConfig b url w = Some (P1, w1)" "getOptionAndTxArgs E ctx P1 w1 = Some ((Inr opt, P2), w2)"
    and "cx_Bool ctx (fl_Name DryRunFlag)"
  shows "adds (\<lambda>e. \<not> is_send e) w w2 \<and> o_DryRun opt"
  using onlyD [OF silent_initApp assms(1)] onlyD [OF silent_getOptionAndTxArgs assms(2)] option_follows_flags [OF assms(2)] assms(3)
  by (auto intro: adds_trans)

lemma cmd_byVolume_dry:
  assumes "cmd_byVolume E ctx tmpConfig P w = Some (r, w')" "cx_Bool ctx (fl_Name DryRunFlag)"
  shows "adds (\<lambda>e. \<not> is_send e) w w'"
proof -
  from assms(1) obtain P1 w1 opt P2 w2 w3 e opt' where run: "InitApp E P tmpConfig True w = Some (P1, w1)"
    "getOptionAndTxArgs E ctx P1 w1 = Some ((Inr opt, P2), w2)"
    "(if [] \<in> set (o_InputFiles opt) then WaitSyncToLatest (\<lambda>w. hasSyncToLatest init_vars) w2 else Some ((), w2)) = Some ((), w3)"
    "ByVolume E P2 opt w3 = Some ((e, opt'), w')"
    by (auto simp: cmd_byVolume_def bind_eq_Some_conv sum_case_eq_Some)
  note start = started [OF run(1) [unfolded InitApp_def] run(2) assms(2)]
  have "adds (\<lambda>e. \<not> is_send e) w2 w3"
    using run(3) onlyD [OF silent_WaitSyncToLatest] by (auto split: if_splits)
  with start ByVolume_dry [OF run(4)] show ?thesis by (blast intro: adds_trans)
qed

lemma cmd_byLiquidity_dry:
  assumes "cmd_byLiquidity E ctx tmpConfig P w = Some (r, w')" "cx_Bool ctx (fl_Name DryRunFlag)"
  shows "adds (\<lambda>e. \<not> is_send e) w w'"
proof -
  from assms(1) obtain P1 w1 opt P2 w2 e opt' where run: "InitApp E P tmpConfig True w = Some (P1, w1)"
    "getOptionAndTxArgs E ctx P1 w1 = Some ((Inr opt, P2), w2)" "ByLiquidity E P2 opt w2 = Some ((e, opt'), w')"
    by (auto simp: cmd_byLiquidity_def bind_eq_Some_conv sum_case_eq_Some)
  from started [OF run(1) [unfolded InitApp_def] run(2) assms(2)] ByLiquidity_dry [OF run(3)]
  show ?thesis by (blast intro: adds_trans)
qed

lemma cmd_sendRewards_dry:
  assumes "cmd_sendRewards E ctx tmpConfig P w = Some (r, w')" "cx_Bool ctx (fl_Name DryRunFlag)"
  shows "adds (\<lambda>e. \<not> is_send e) w w'"
proof (cases "cx_String ctx (fl_Name GatewayFlag) = [] \<or> cx_String ctx (fl_Name RewardTyepFlag) = []")
  case True
  with assms(1) show ?thesis by (auto simp: cmd_sendRewards_def Let_def split: if_splits)
next
  case False
  with assms(1) obtain P1 w1 opt P2 w2 num den e opt' where
    run: "initApp E P tmpConfig (\<not> IsCustomMethod (cx_String ctx (fl_Name RewardTyepFlag))) (cx_String ctx (fl_Name GatewayFlag)) w = Some (P1, w1)"
    "getOptionAndTxArgs E ctx P1 w1 = Some ((Inr opt, P2), w2)"
    "SendRewardsFromFile E P2 (opt\<lparr>o_ScalingNumerator := num, o_ScalingDenominator := den\<rparr>) w2 = Some ((e, opt'), w')"
    by (auto simp: cmd_sendRewards_def InitAppWithURL_def Let_def bind_eq_Some_conv sum_case_eq_Some)
  from started [OF run(1,2) assms(2)] SendRewardsFromFile_dry [OF run(3)] show ?thesis
    by (auto intro: adds_trans)
qed

lemma silent_cmd_calcRewards: "silent (cmd_calcRewards E ctx tmpConfig P)"
  unfolding cmd_calcRewards_def [abs_def] Let_def
  by (rule silent_InitApp silent_dist_CalcRewards silent_intros only_rules)+

text \<open>
  C35: With \<open>--dryrun\<close> no command broadcasts a transaction, whatever the flags, the configuration,
  the node and the files say: not by volume, by liquidity, or from files. The command that
  computes rewards never does.
\<close>

theorem commands_dry_run_pay_nothing:
  assumes "cx_Bool ctx (fl_Name DryRunFlag) \<and> cmd \<in> {cmd_byVolume, cmd_byLiquidity, cmd_sendRewards} \<or> cmd = cmd_calcRewards"
    and "cmd E ctx tmpConfig P w = Some (r, w')"
  shows "sent w' = sent w"
proof -
  have "adds (\<lambda>e. \<not> is_send e) w w'"
    using assms onlyD [OF silent_cmd_calcRewards]
    by (auto intro: cmd_byVolume_dry cmd_byLiquidity_dry cmd_sendRewards_dry)
  then show ?thesis by (rule adds_sent)
qed

section \<open>The witnesses\<close>

text \<open>
  Sending the rewards of one file, without a configuration file: \<open>sendrewards --dryrun --gateway x
  --rewardType custom --input in --output out\<close>, where the file \<open>in\<close> pays 30 to the account 7.
\<close>

definition dry_ctx :: cli_context where
  "dry_ctx = \<lparr>cx_NArg = 0, cx_IsSet = (\<lambda>flag. flag = (fl_Name RewardTyepFlag)),
     cx_String = (\<lambda>flag. if flag = (fl_Name GatewayFlag) then ''x'' else if flag = (fl_Name RewardTyepFlag) then ''custom'' else []),
     cx_Uint64 = (\<lambda>flag. 0), cx_Bool = (\<lambda>flag. flag = (fl_Name DryRunFlag)),
     cx_StringSlice = (\<lambda>flag. if flag = (fl_Name InputFileSliceFlag) then [''in''] else if flag = (fl_Name OutputFileSliceFlag) then [''out''] else []),
     cx_Int64Slice = (\<lambda>flag. [])\<rparr>"

definition dry_env :: env where
  "dry_env = base_env\<lparr>ReadFile_Lines := \<lambda>w f. Inr [''7 30'']\<rparr>"

definition dry_args :: BuildTxArgs where
  "dry_args = zero_BuildTxArgs\<lparr>ba_Sender := ''0'', ba_Nonce := Some 0, ba_GasLimit := Some 90000,
     ba_GasPrice := Some 1, ba_chainID := Some 32659, ba_chainSigner := Some 32659\<rparr>"

definition dry_option :: Opt where
  "dry_option = (option_of_flags dry_ctx dry_args None None [])\<lparr>o_byWhat := customMethodID\<rparr>"

definition dry_dialled :: world where
  "dry_dialled = [EvDialServer ''x'' None, EvHeaderByNumber None]"

definition dry_start :: world where
  "dry_start = dry_dialled @ [EvNetworkID, EvPendingNonceAt 0, EvSuggestGasPrice]"

lemma dry_digits: "nat_digits 0 = ''0''"
  by code_simp

lemma dry_dial: "DialServer dry_env ''x'' [] = Some ((), dry_dialled)"
  by (subst DialServer.simps)
    (simp add: capi_DialServer_def LoopGetLatestBlockHeader_def rpc_HeaderByNumber_def retry.simps dry_env_def base_env_def
      dry_dialled_def)

lemma dry_build: "cmd_getBuildTxArgs dry_env dry_ctx dry_dialled = Some (Inr dry_args, dry_start)"
  unfolding cmd_getBuildTxArgs_def Check_def setDefaults_def
  by (subst setDefaults_loop.simps)
    (simp add: big_flag_def dry_ctx_def flag_defs zero_BuildTxArgs_def dry_env_def base_env_def GetChainID_def
      GetAccountNonce_def SuggestGasPrice_def dry_args_def dry_start_def dry_dialled_def dry_digits)

lemma dry_flags: "getOptionAndTxArgs dry_env dry_ctx P dry_dialled = Some ((Inr dry_option, P), dry_start)"
proof -
  have "SetByWhat opt ''custom'' = (None, opt\<lparr>o_byWhat := customMethodID\<rparr>)" for opt
    by (simp add: SetByWhat_def byLiquidMethodID_def byLiquidMethodAliasID_def byVolumeMethodID_def
      byVolumeMethodAliasID_def customMethodID_def)
  moreover have "CheckBasic dry_env P dry_option = None"
    by (simp add: CheckBasic_def dry_option_def option_of_flags_def dry_ctx_def flag_defs)
  moreover have "big_flag dry_ctx (fl_Name TotalRewardsFlag) = Inr None" "setConfigParams dry_ctx P = Inr P"
      "cx_Uint64 dry_ctx (fl_Name StepCountFlag) = 0" "flag_weights (cx_Int64Slice dry_ctx (fl_Name WeightSliceFlag)) = Inr []"
      "cx_IsSet dry_ctx (fl_Name RewardTyepFlag)" "cx_String dry_ctx (fl_Name RewardTyepFlag) = ''custom''"
    by (simp_all add: big_flag_def setConfigParams_def flag_weights_def dry_ctx_def flag_defs)
  ultimately show ?thesis
    by (simp add: getOptionAndTxArgs_def dry_build flip: dry_option_def)
qed

lemma dry_sending:
  "map_option (\<lambda>((e, _), w'). (e, length w')) (SendRewardsFromFile dry_env test_params dry_option dry_start) = Some (None, 9)"
  by code_simp

theorem commands_dry_run_pay_nothing_witness:
  "\<exists>w'. (\<forall>tmpConfig. cmd_sendRewards dry_env dry_ctx tmpConfig test_params [] = Some (None, w')) \<and>
    length w' = 9 \<and> sent w' = []"
proof -
  obtain opt' w' where sending: "SendRewardsFromFile dry_env test_params dry_option dry_start = Some ((None, opt'), w')"
      "length w' = 9"
    using dry_sending by auto
  have flags: "cx_String dry_ctx (fl_Name GatewayFlag) = ''x''" "cx_String dry_ctx (fl_Name RewardTyepFlag) = ''custom''"
      "cx_String dry_ctx (fl_Name ScalingValueFlag) = []" "cx_Bool dry_ctx (fl_Name DryRunFlag)"
    by (simp_all add: dry_ctx_def flag_defs)
  have "dry_option\<lparr>o_ScalingNumerator := None, o_ScalingDenominator := None\<rparr> = dry_option"
    by (simp add: dry_option_def option_of_flags_def zero_Option_def)
  then have run: "cmd_sendRewards dry_env dry_ctx tmpConfig test_params [] = Some (None, w')" for tmpConfig
    by (simp add: cmd_sendRewards_def InitAppWithURL_def initApp_def IsCustomMethod_def customMethodID_def
      flags dry_dial dry_flags getScalingValue_def sending)
  have "sent w' = sent []"
    by (rule commands_dry_run_pay_nothing [where cmd = cmd_sendRewards, OF _ run]) (simp add: flags)
  with run sending(2) show ?thesis by (simp add: sent_def)
qed

end
