(* ===== verification/Command_Flags.thy ===== *)
theory Command_Flags
  imports Command_Safety
begin

text \<open>
  What the flags of a command mean: the options it ends up with, by the flags it declares and their
  defaults (theory \<open>Flags\<close>), and what it can spend, from the command line to the payments.
\<close>

section \<open>Flags that are not declared, or not set\<close>

lemma undeclared: "cli_documented flags ctx \<Longrightarrow> name \<notin> set (declared_names flags) \<Longrightarrow> reads_zero ctx name"
  by (simp add: cli_documented_def)

lemma unset_default: "cli_documented flags ctx \<Longrightarrow> flag \<in> set flags \<Longrightarrow> \<not> cx_IsSet ctx (fl_Name flag) \<Longrightarrow> flag_default ctx flag"
  by (simp add: cli_documented_def)

definition given_uint64 :: "cli_context \<Rightarrow> cli_flag \<Rightarrow> u64 \<Rightarrow> u64" where
  "given_uint64 ctx flag v = (if cx_IsSet ctx (fl_Name flag) then cx_Uint64 ctx (fl_Name flag) else v)"

lemma given_uint64:
  assumes "cli_documented flags ctx" "flag \<in> set flags" "fl_Value flag = Uint64Flag v"
  shows "cx_Uint64 ctx (fl_Name flag) = given_uint64 ctx flag v"
  using unset_default [OF assms(1,2)] assms(3) by (auto simp: given_uint64_def flag_default_def)

abbreviation declares :: "cli_command \<Rightarrow> cli_flag \<Rightarrow> bool" where
  "declares command flag \<equiv> fl_Name flag \<in> set (declared_names (cm_Flags command @ app_Flags))"

lemma liquid_undeclared:
  "\<not> declares byLiquidityCommand StepCountFlag" "\<not> declares byLiquidityCommand PercentageWeightFlag"
  "\<not> declares byLiquidityCommand DustRewardFlag" "\<not> declares byLiquidityCommand RewardTyepFlag"
  by code_simp+

lemma volume_undeclared:
  "\<not> declares byVolumeCommand SampleFlag" "\<not> declares byVolumeCommand ArchiveModeFlag"
  "\<not> declares byVolumeCommand DustRewardFlag" "\<not> declares byVolumeCommand RewardTyepFlag"
  by code_simp+

lemma send_undeclared:
  "\<not> declares sendRewardsCommand StepCountFlag" "\<not> declares sendRewardsCommand PercentageWeightFlag"
  "\<not> declares sendRewardsCommand SampleFlag" "\<not> declares sendRewardsCommand ArchiveModeFlag"
  "\<not> declares sendRewardsCommand StableHeightFlag" "\<not> declares sendRewardsCommand UseTimeMeasurementFlag"
  "\<not> declares sendRewardsCommand TotalRewardsFlag" "\<not> declares sendRewardsCommand WeightSliceFlag"
  by code_simp+

lemma command_names:
  "byLiquidityCommand \<noteq> byVolumeCommand" "byVolumeCommand \<noteq> byLiquidityCommand"
  "byLiquidityCommand \<noteq> sendRewardsCommand" "sendRewardsCommand \<noteq> byLiquidityCommand"
  "byVolumeCommand \<noteq> sendRewardsCommand" "sendRewardsCommand \<noteq> byVolumeCommand"
  by (simp_all add: byLiquidityCommand_def byVolumeCommand_def sendRewardsCommand_def)

lemmas command_flags = byLiquidityCommand_def byVolumeCommand_def sendRewardsCommand_def

lemma flag_values:
  "fl_Value BatchCountFlag = Uint64Flag 100" "fl_Value BatchIntervalFlag = Uint64Flag 13000"
  "fl_Value StableHeightFlag = Uint64Flag 30" "fl_Value SampleFlag = Uint64Flag 0"
  "fl_Value StepCountFlag = Uint64Flag 100" "fl_Value StepRewardFlag = StringFlag ''250000000000000000000''"
  by (simp_all add: flag_defs)

lemma default_step: "GetBigIntFromString ''250000000000000000000'' = Inr 250000000000000000000"
  by (simp add: GetBigIntFromString_def SetString_def nat_SetString_def scan_prefix_def digit_val_def)

lemmas reads_zero = undeclared [unfolded reads_zero_def]

section \<open>The parameters after the start\<close>

definition same_rules :: "params \<Rightarrow> params \<Rightarrow> bool" where
  "same_rules P P' \<longleftrightarrow> config P' = config P \<and> AllExchanges P' = AllExchanges P"

lemma same_rules_refl [simp]: "same_rules P P"
  by (simp add: same_rules_def)

lemma same_rules_trans: "same_rules P P' \<Longrightarrow> same_rules P' P'' \<Longrightarrow> same_rules P P''"
  by (simp add: same_rules_def)

lemma IsConfigedFactory_rules: "same_rules P (snd (IsConfigedFactory E P factory))"
  by (auto simp: IsConfigedFactory_def GetFactories_def same_rules_def Let_def split: option.splits)

lemma verifyConfig_rules: "verifyConfig_loop E exs P w = Some ((err, P'), w') \<Longrightarrow> same_rules P P'"
proof (induction exs arbitrary: P w)
  case (Cons ex rest)
  then show ?case
    by (auto simp: Let_def bind_eq_Some_conv case_prod_unfold IsConfigedFactory_rules split: if_splits
        dest!: Cons.IH intro: same_rules_trans [OF IsConfigedFactory_rules])
qed simp

lemma InitApp_rules:
  assumes "InitApp E P tmpConfig True w = Some (P1, w1)"
  obtains P0 where "LoadConfig E P tmpConfig = Some P0" "same_rules P0 P1"
  using assms
  by (auto simp: InitApp_def initApp_def verifyConfig_def bind_eq_Some_conv split: if_splits dest!: verifyConfig_rules)

lemma within_budget_rules:
  assumes "same_rules P P'"
  shows "within_budget E P' T due = within_budget E P T due"
proof -
  have "IsExcludedRewardAccount E P' account = IsExcludedRewardAccount E P account" for account
    using assms by (simp add: same_rules_def IsExcludedRewardAccount_def IsConfigedExchange_def GetExchangePairs_def
        exchanges_def IsInAllExchanges_def)
  then show ?thesis using assms by (simp add: same_rules_def within_budget_def GetDustRewardThreshold_def)
qed

lemma no_dust_flag:
  assumes "cli_documented flags ctx" "fl_Name DustRewardFlag \<notin> set (declared_names flags)"
  shows "setConfigParams ctx P = Inr P"
  using reads_zero [OF assms] by (simp add: setConfigParams_def big_flag_def)

section \<open>Options by the flags\<close>


section \<open>Spending by the flags\<close>

text \<open>What the command line grants: the total rewards, when they are given and positive.\<close>

definition allowance :: "cli_context \<Rightarrow> int" where
  "allowance ctx = (case big_flag ctx (fl_Name TotalRewardsFlag) of
     Inr (Some T) \<Rightarrow> if 0 < T then T else 0 | _ \<Rightarrow> 0)"

text \<open>A distribution that is within the budget of its options, whatever they are.\<close>

definition spends_within :: "env \<Rightarrow> params \<Rightarrow> string \<Rightarrow> int \<Rightarrow> world \<Rightarrow> world \<Rightarrow> bool" where
  "spends_within E P token T w w' \<longleftrightarrow> (\<exists>due txs. sent w' = sent w @ txs \<and>
     map pays txs = due_payments E token due \<and> within_budget E P T due)"

lemma spends_nothing: "adds (\<lambda>e. \<not> is_send e) w w' \<Longrightarrow> 0 \<le> T \<Longrightarrow> spends_within E P token T w w'"
  unfolding spends_within_def
  by (intro exI [of _ "[]"]) (auto simp: adds_sent due_payments_def within_budget_def)

lemma spends_after:
  "adds (\<lambda>e. \<not> is_send e) w0 w \<Longrightarrow> spends_within E P token T w w' \<Longrightarrow> spends_within E P token T w0 w'"
  by (simp add: spends_within_def adds_sent)

lemma spends_rules: "same_rules P P' \<Longrightarrow> spends_within E P' token T w w' = spends_within E P token T w w'"
  by (simp add: spends_within_def within_budget_rules)

lemma spends_ByLiquidity:
  assumes "ByLiquidity E P opt w = Some ((e, opt'), w')"
  shows "spends_within E P (o_RewardToken opt) (case o_TotalValue opt of None \<Rightarrow> 0 | Some T \<Rightarrow> if 0 < T then T else 0) w w'"
proof (cases "\<exists>T. o_TotalValue opt = Some T \<and> 0 < T")
  case True
  then show ?thesis using ByLiquidity_budget [OF assms] by (auto simp: spends_within_def)
next
  case False
  then have "w' = w" using assms by (auto simp: ByLiquidity_def Let_def split: option.splits if_splits)
  with False show ?thesis by (auto intro!: spends_nothing split: option.split)
qed

lemma spends_ByVolume:
  assumes "ByVolume E P opt w = Some ((e, opt'), w')" "length (o_Exchanges opt) = 1"
  shows "spends_within E P (o_RewardToken opt) (case o_TotalValue opt of None \<Rightarrow> 0 | Some T \<Rightarrow> if 0 < T then T else 0) w w'"
proof (cases "\<exists>T. o_TotalValue opt = Some T \<and> 0 < T")
  case True
  then show ?thesis using ByVolume_budget [OF assms(1)] assms(2) by (auto simp: spends_within_def)
next
  case False
  then have "w' = w" using assms(1) by (auto simp: ByVolume_def Let_def split: option.splits if_splits)
  with False show ?thesis by (auto intro!: spends_nothing split: option.split)
qed

lemma started_by_flags:
  assumes "cli_documented (cm_Flags command @ app_Flags) ctx" "\<not> declares command DustRewardFlag"
    and "InitApp E P tmpConfig True w = Some (P1, w1)" "getOptionAndTxArgs E ctx P1 w1 = Some ((Inr opt, P2), w2)"
  obtains P0 where "LoadConfig E P tmpConfig = Some P0" "same_rules P0 P2" "adds (\<lambda>e. \<not> is_send e) w w2"
    "o_RewardToken opt = cx_String ctx (fl_Name RewardTokenFlag)" "o_Exchanges opt = cx_StringSlice ctx (fl_Name ExchangeSliceFlag)"
    "allowance ctx = (case o_TotalValue opt of None \<Rightarrow> 0 | Some T \<Rightarrow> if 0 < T then T else 0)"
proof -
  obtain P0 where P0: "LoadConfig E P tmpConfig = Some P0" "same_rules P0 P1" using InitApp_rules [OF assms(3)] .
  have quiet: "adds (\<lambda>e. \<not> is_send e) w w2"
    using onlyD [OF silent_InitApp(1) assms(3)] onlyD [OF silent_getOptionAndTxArgs assms(4)] by (auto intro: adds_trans)
  from assms(4) show thesis
  proof (rule option_of_run)
    fix args rewards stepReward weights m
    assume opt: "opt = (option_of_flags ctx args rewards stepReward weights)\<lparr>o_byWhat := m\<rparr>"
      and total: "big_flag ctx (fl_Name TotalRewardsFlag) = Inr rewards" and params: "setConfigParams ctx P1 = Inr P2"
    have "P2 = P1" using params no_dust_flag [OF assms(1,2)] by simp
    with P0(2) have rules: "same_rules P0 P2" by simp
    have "allowance ctx = (case o_TotalValue opt of None \<Rightarrow> 0 | Some T \<Rightarrow> if 0 < T then T else 0)"
      by (simp add: allowance_def total opt option_of_flags_def)
    then show thesis using that [OF P0(1) rules quiet] by (simp add: opt option_of_flags_def)
  qed
qed

lemma cmd_byLiquidity_spends:
  assumes "cli_documented (cm_Flags byLiquidityCommand @ app_Flags) ctx" "cmd_byLiquidity E ctx tmpConfig P w = Some (r, w')"
  shows "\<exists>P0. LoadConfig E P tmpConfig = Some P0 \<and>
    spends_within E P0 (cx_String ctx (fl_Name RewardTokenFlag)) (allowance ctx) w w'"
proof -
  from assms(2) obtain P1 w1 opt P2 w2 e opt' where run: "InitApp E P tmpConfig True w = Some (P1, w1)"
    "getOptionAndTxArgs E ctx P1 w1 = Some ((Inr opt, P2), w2)" "ByLiquidity E P2 opt w2 = Some ((e, opt'), w')"
    by (auto simp: cmd_byLiquidity_def bind_eq_Some_conv sum_case_eq_Some)
  show ?thesis
    using started_by_flags [OF assms(1) liquid_undeclared(3) run(1,2)] spends_ByLiquidity [OF run(3)]
    by (metis spends_rules spends_after)
qed

lemma cmd_byVolume_spends:
  assumes "cli_documented (cm_Flags byVolumeCommand @ app_Flags) ctx" "cmd_byVolume E ctx tmpConfig P w = Some (r, w')"
    and "length (cx_StringSlice ctx (fl_Name ExchangeSliceFlag)) = 1"
  shows "\<exists>P0. LoadConfig E P tmpConfig = Some P0 \<and>
    spends_within E P0 (cx_String ctx (fl_Name RewardTokenFlag)) (allowance ctx) w w'"
proof -
  from assms(2) obtain P1 w1 opt P2 w2 w3 e opt' where run: "InitApp E P tmpConfig True w = Some (P1, w1)"
    "getOptionAndTxArgs E ctx P1 w1 = Some ((Inr opt, P2), w2)"
    "(if [] \<in> set (o_InputFiles opt) then WaitSyncToLatest (\<lambda>w. hasSyncToLatest init_vars) w2 else Some ((), w2)) = Some ((), w3)"
    "ByVolume E P2 opt w3 = Some ((e, opt'), w')"
    by (auto simp: cmd_byVolume_def bind_eq_Some_conv sum_case_eq_Some)
  have "adds (\<lambda>e. \<not> is_send e) w2 w3"
    using run(3) onlyD [OF silent_WaitSyncToLatest] by (auto split: if_splits)
  then show ?thesis
    using started_by_flags [OF assms(1) volume_undeclared(3) run(1,2)] spends_ByVolume [OF run(4)] assms(3)
    by (metis spends_rules spends_after)
qed

text \<open>
  C5: What is spent is what the command line grants: the commands that distribute by liquidity, or
  by volume over one exchange, pay at most \<open>--rewards\<close>, nothing without it, in the token
  \<open>--rewardToken\<close>, and only what the configuration file allows: positive amounts, none below its
  dust threshold, none to an exchange, whatever the other flags, the files, the database and the
  answers of the node are.
\<close>

theorem commands_within_budget:
  assumes "command = byLiquidityCommand \<and> cmd = cmd_byLiquidity \<or>
      command = byVolumeCommand \<and> cmd = cmd_byVolume \<and> length (cx_StringSlice ctx (fl_Name ExchangeSliceFlag)) = 1"
    and "cli_documented (cm_Flags command @ app_Flags) ctx" "cmd E ctx tmpConfig P w = Some (r, w')"
  shows "\<exists>P0 due txs. LoadConfig E P tmpConfig = Some P0 \<and> sent w' = sent w @ txs \<and>
    map pays txs = due_payments E (cx_String ctx (fl_Name RewardTokenFlag)) due \<and> within_budget E P0 (allowance ctx) due"
  using cmd_byLiquidity_spends [of ctx E tmpConfig P w r w'] cmd_byVolume_spends [of ctx E tmpConfig P w r w'] assms
  unfolding spends_within_def by blast

section \<open>The witnesses\<close>

text \<open>A configuration with one exchange, and a command line that distributes the rewards of a file.\<close>

definition pay_config :: Config where
  "pay_config = \<lparr>cf_MongoDB = Some \<lparr>DBURL = ''db'', DBName = ''rewards'', UserName = [], Password = []\<rparr>,
     cf_Gateway = Some \<lparr>APIAddress = ''node'', AverageBlockTime = 0\<rparr>,
     cf_Sync = Some \<lparr>sy_JobCount = 0, sy_WaitInterval = 0, sy_Stable = 30, sy_UpdateLiquidity = False,
       sy_UpdateVolume = False, sy_ScanAllExchange = False, sy_RecordTokenAccount = False\<rparr>,
     cf_Distribute = Some (zero_DistributeConfig\<lparr>dc_DustRewardThreshold := ''2''\<rparr>),
     cf_Exchanges = Some [\<lparr>ex_Pairs = ''A'', ex_Exchange = ''7'', ex_Token = ''100'', ex_CreationHeight = 1,
       ex_LiquidWeight = 1, ex_TradeWeight = 1\<rparr>],
     cf_Factories = [''100''], cf_Stake = None, cf_Routers = []\<rparr>"

text \<open>
  \<open>byvolume -c config.toml --rewards 100 --rewardToken 9 --start 100 --end 200 --step 0 --exchange 7
  --weight 1 --sender 1 --input 3 --output a\<close>.
\<close>

definition pay_ctx :: cli_context where
  "pay_ctx = \<lparr>cx_NArg = 0,
     cx_IsSet = (\<lambda>name. name \<in> fl_Name ` {TotalRewardsFlag, RewardTokenFlag, StartHeightFlag, EndHeightFlag,
       ExchangeSliceFlag, WeightSliceFlag, InputFileSliceFlag, OutputFileSliceFlag, SenderFlag, StepCountFlag, ConfigFileFlag}),
     cx_String = (\<lambda>name. if name = fl_Name TotalRewardsFlag then ''100'' else if name = fl_Name RewardTokenFlag then ''9''
       else if name = fl_Name SenderFlag then ''1'' else if name = fl_Name ConfigFileFlag then ''config.toml''
       else if name = fl_Name StepRewardFlag then ''250000000000000000000'' else []),
     cx_Uint64 = (\<lambda>name. if name = fl_Name StartHeightFlag then 100 else if name = fl_Name EndHeightFlag then 200
       else if name = fl_Name StableHeightFlag then 30
       else if name = fl_Name BatchCountFlag then 100 else if name = fl_Name BatchIntervalFlag then 13000
       else if name = fl_Name VerbosityFlag then 4 else if name = fl_Name LogRotationFlag then 24
       else if name = fl_Name LogMaxAgeFlag then 720 else 0),
     cx_Bool = (\<lambda>name. name = fl_Name ColorFormatFlag),
     cx_StringSlice = (\<lambda>name. if name = fl_Name ExchangeSliceFlag then [''7''] else if name = fl_Name InputFileSliceFlag then [''3'']
       else if name = fl_Name OutputFileSliceFlag then [''a''] else []),
     cx_Int64Slice = (\<lambda>name. if name = fl_Name WeightSliceFlag then [1] else [])\<rparr>"

lemma pay_documented: "cli_documented (cm_Flags byVolumeCommand @ app_Flags) pay_ctx"
proof -
  have "\<forall>flag \<in> set (cm_Flags byVolumeCommand @ app_Flags). \<not> cx_IsSet pay_ctx (fl_Name flag) \<longrightarrow> flag_default pay_ctx flag"
    by code_simp
  moreover have "reads_zero pay_ctx name" if "name \<notin> set (declared_names (cm_Flags byVolumeCommand @ app_Flags))" for name
    using that by (auto simp: reads_zero_def pay_ctx_def declared_names_def byVolumeCommand_def app_Flags_def flag_defs)
  ultimately show ?thesis unfolding cli_documented_def by blast
qed

lemmas run_code [code] = waitForTimestamp.simps binarySearch.simps setDefaults_loop.simps WaitSyncToLatest.simps
  stepBack.simps dial_loop.simps DialServer.simps steps_loop.simps

definition pay_start :: "params \<times> world" where
  "pay_start = the (InitApp reward_env test_params pay_config True [])"

definition pay_option :: "((error + Opt) \<times> params) \<times> world" where
  "pay_option = the (getOptionAndTxArgs reward_env pay_ctx (fst pay_start) (snd pay_start))"

lemma pay_stages:
  "InitApp reward_env test_params pay_config True [] \<noteq> None"
  "map_option (\<lambda>((r, P), w). isl r) (getOptionAndTxArgs reward_env pay_ctx (fst pay_start) (snd pay_start)) = Some False"
  "map_option (\<lambda>((e, opt), w). (e, length (sent w)))
    (ByVolume reward_env (snd (fst pay_option)) (projr (fst (fst pay_option))) (snd pay_option)) = Some (None, 2)"
  "allowance pay_ctx = 100" "cx_StringSlice pay_ctx (fl_Name InputFileSliceFlag) = [''3'']"
  "cx_StringSlice pay_ctx (fl_Name ExchangeSliceFlag) = [''7'']" "cx_String pay_ctx (fl_Name RewardTokenFlag) = ''9''"
  "cx_IsSet pay_ctx (fl_Name StepCountFlag)" "cx_Uint64 pay_ctx (fl_Name StepCountFlag) = 0"
  "\<not> cx_IsSet pay_ctx (fl_Name StableHeightFlag)" "\<not> cx_IsSet pay_ctx (fl_Name BatchIntervalFlag)"
  by code_simp+

lemma pay_runs:
  obtains P1 w1 opt P2 w2 where
    "InitApp reward_env test_params pay_config True [] = Some (P1, w1)"
    "getOptionAndTxArgs reward_env pay_ctx P1 w1 = Some ((Inr opt, P2), w2)"
    "map_option (\<lambda>((e, opt), w). (e, length (sent w))) (ByVolume reward_env P2 opt w2) = Some (None, 2)"
proof -
  obtain P1 w1 where start: "InitApp reward_env test_params pay_config True [] = Some (P1, w1)"
    using pay_stages(1) by auto
  then have eq: "pay_start = (P1, w1)" by (simp add: pay_start_def)
  from pay_stages(2) obtain r P2 w2 where "getOptionAndTxArgs reward_env pay_ctx P1 w1 = Some ((r, P2), w2)" "\<not> isl r"
    unfolding eq by auto
  then obtain opt where opt: "getOptionAndTxArgs reward_env pay_ctx P1 w1 = Some ((Inr opt, P2), w2)"
    by (cases r) auto
  then have option: "pay_option = ((Inr opt, P2), w2)" by (simp add: pay_option_def eq)
  show thesis using that [OF start opt] pay_stages(3) unfolding option by simp
qed


theorem commands_within_budget_witness:
  "\<exists>w' due. cmd_byVolume reward_env pay_ctx pay_config test_params [] = Some (None, w') \<and>
    map pays (sent w') = due_payments reward_env ''9'' due \<and> length due = 2 \<and> sum_list (map snd due) \<le> 100"
proof (rule pay_runs)
  fix P1 w1 opt P2 w2
  assume run: "InitApp reward_env test_params pay_config True [] = Some (P1, w1)"
    "getOptionAndTxArgs reward_env pay_ctx P1 w1 = Some ((Inr opt, P2), w2)"
    "map_option (\<lambda>((e, opt), w). (e, length (sent w))) (ByVolume reward_env P2 opt w2) = Some (None, 2)"
  from run(3) obtain opt' w' where pay: "ByVolume reward_env P2 opt w2 = Some ((None, opt'), w')" "length (sent w') = 2"
    by auto
  have "[] \<notin> set (o_InputFiles opt)" using option_follows_flags [OF run(2)] by (simp add: pay_stages)
  with run pay have cmd: "cmd_byVolume reward_env pay_ctx pay_config test_params [] = Some (None, w')"
    by (simp add: cmd_byVolume_def)
  from commands_within_budget [where command = byVolumeCommand and cmd = cmd_byVolume, OF _ pay_documented cmd] obtain due where
    due: "map pays (sent w') = due_payments reward_env ''9'' due" "sum_list (map snd due) \<le> 100"
    by (auto simp: pay_stages within_budget_def sent_def)
  from due(1) have "length due = length (sent w')" by (metis due_payments_def length_map)
  with due pay(2) cmd show ?thesis by auto
qed

end
