(* ===== verification/Import.thy ===== *)
theory Import
  imports Commands
begin

text \<open>
  Two commands that fill the database from files (\<open>cmd/distribute/importrewards.go\<close>,
  \<open>insertaccount.go\<close>). A fatal error ends the process (\<open>Fatal\<close>) after what was done so far; its
  message is left out, like all log output. The lines of a file are what \<open>ReadLine\<close> returns before
  the end; the file that is read twice does not change in between. The variables of the package
  are the fields of a record.
\<close>

datatype exit = Returned "error option" | Fatal

section \<open>Importing rewards\<close>

definition cycleLen :: u64 where "cycleLen = 6600"

record import_vars =
  iv_inputFileName :: string
  iv_dryRun :: bool
  iv_rewardType :: string
  iv_isLiquidReward :: bool
  iv_isVolumeReward :: bool
  iv_exchange :: string
  iv_rewardToken :: string
  iv_startHeight :: u64
  iv_endHeight :: u64

definition checkRewardType :: "string \<Rightarrow> import_vars \<Rightarrow> import_vars option" where
  "checkRewardType t V =
     (if t = ''liquid'' \<or> t = ''liquidity'' then Some (V\<lparr>iv_isLiquidReward := True\<rparr>)
      else if t = ''volume'' \<or> t = ''trade'' then Some (V\<lparr>iv_isVolumeReward := True\<rparr>)
      else None)"

text \<open>The next line with content, trimmed, and the lines after it; the empty line at the end.\<close>

fun readOneLine :: "string list \<Rightarrow> string \<times> string list" where
  "readOneLine [] = ([], [])"
| "readOneLine (slineData # rest) =
     (let line = TrimSpace slineData in
      if line \<noteq> [] \<and> \<not> isCommentedLine line then (line, rest) else readOneLine rest)"

text \<open>A line: account, reward, share, number and hash; \<open>None\<close>: a fatal error.\<close>

definition number_part :: "string \<Rightarrow> int option option" where
  "number_part s = (if s = [] then Some None else map_option Some (SetString s 10))"

definition hash_part :: "env \<Rightarrow> string \<Rightarrow> hash option option" where
  "hash_part E s =
     (if s = [] then Some None
      else let h = HexToHash E s in if Hash_Hex E h \<noteq> s then None else Some (Some h))"

definition parse_line :: "env \<Rightarrow> string \<Rightarrow> (address \<times> int \<times> int option \<times> int option \<times> hash option) option" where
  "parse_line E line =
     (let parts = blankOrCommaSep_Split line in
      if length parts < 2 then None
      else let accountStr = parts ! 0; rewardStr = parts ! 1;
        (shareStr, numberStr, txHashStr) =
          (if length parts > 3 then (parts ! 2, parts ! 3, if length parts > 4 then parts ! 4 else [])
           else if length parts = 3 then ([], [], parts ! 2) else ([], [], []))
      in if \<not> IsHexAddress E accountStr then None
      else do {
        reward \<leftarrow> SetString rewardStr 10;
        share \<leftarrow> number_part shareStr;
        number \<leftarrow> number_part numberStr;
        txhash \<leftarrow> hash_part E txHashStr;
        Some (HexToAddress E accountStr, reward, share, number, txhash)
      })"

definition addRewardResultToDB ::
  "env \<Rightarrow> params \<Rightarrow> import_vars \<Rightarrow> address \<Rightarrow> int \<Rightarrow> int option \<Rightarrow> int option \<Rightarrow> hash option \<Rightarrow> exit action" where
  "addRewardResultToDB E P V account reward share number txhash w = do {
     let accoutStr = ToLower (Address_String E account);
     let rewardStr = big_String reward;
     let pairs = GetExchangePairs P (iv_exchange V);
     let shareStr = (case share of None \<Rightarrow> [] | Some s \<Rightarrow> big_String s);
     let numVal = (case number of None \<Rightarrow> 0 | Some n \<Rightarrow> big_Uint64 n);
     let hashStr = (case txhash of None \<Rightarrow> [] | Some h \<Rightarrow> Hash_Hex E h);
     (if iv_dryRun V then Some (Returned None, w)
      else if iv_isVolumeReward V then do {
        let timestamp = Now_Unix E w;
        let mr = \<lparr>vr_Key = GetKeyOfRewardResult (iv_exchange V) accoutStr (iv_startHeight V),
          vr_Exchange = iv_exchange V, vr_Pairs = pairs, vr_Start = iv_startHeight V, vr_End = iv_endHeight V,
          vr_RewardToken = iv_rewardToken V, vr_Account = accoutStr, vr_Reward = rewardStr,
          vr_Volume = shareStr, vr_TxCount = numVal, vr_RewardTx = hashStr, vr_Timestamp = timestamp\<rparr>;
        (_, w) \<leftarrow> TryDoTimes (AddVolumeRewardResult E mr) (w @ [EvNow]);
        Some (Returned None, w)
      }
      else if iv_isLiquidReward V then do {
        let timestamp = Now_Unix E w;
        let mr = \<lparr>lr_Key = GetKeyOfRewardResult (iv_exchange V) accoutStr (iv_startHeight V),
          lr_Exchange = iv_exchange V, lr_Pairs = pairs, lr_Start = iv_startHeight V, lr_End = iv_endHeight V,
          lr_RewardToken = iv_rewardToken V, lr_Account = accoutStr, lr_Reward = rewardStr,
          lr_Liquidity = shareStr, lr_Height = numVal, lr_RewardTx = hashStr, lr_Timestamp = timestamp\<rparr>;
        (_, w) \<leftarrow> TryDoTimes (AddLiquidRewardResult E mr) (w @ [EvNow]);
        Some (Returned None, w)
      }
      else Some (Fatal, w))
   }"

definition processLine :: "env \<Rightarrow> params \<Rightarrow> import_vars \<Rightarrow> string \<Rightarrow> bool \<Rightarrow> exit action" where
  "processLine E P V line addToDB w =
     (case parse_line E line of
        None \<Rightarrow> Some (Fatal, w)
      | Some (account, reward, share, number, txhash) \<Rightarrow>
          if addToDB then addRewardResultToDB E P V account reward share number txhash w
          else Some (Returned None, w))"

lemma readOneLine_shorter: "readOneLine raws = (line, rest) \<Longrightarrow> line \<noteq> [] \<Longrightarrow> length rest < length raws"
  by (induction raws rule: readOneLine.induct) (auto simp: Let_def split: if_splits)

text \<open>One pass over the file, until the empty line at the end.\<close>

function process_lines :: "env \<Rightarrow> params \<Rightarrow> import_vars \<Rightarrow> bool \<Rightarrow> string list \<Rightarrow> exit action" where
  "process_lines E P V addToDB raws w =
     (case readOneLine raws of (line, rest) \<Rightarrow>
        if line = [] then Some (Returned None, w)
        else do {
          (r, w) \<leftarrow> processLine E P V line addToDB w;
          (case r of Fatal \<Rightarrow> Some (Fatal, w) | Returned _ \<Rightarrow> process_lines E P V addToDB rest w)
        })"
  by pat_completeness auto
termination
  by (relation "measure (\<lambda>(E, P, V, addToDB, raws, w). length raws)")
    (auto dest: readOneLine_shorter [OF sym])

declare process_lines.simps [simp del]

definition verifyFile :: "env \<Rightarrow> params \<Rightarrow> import_vars \<Rightarrow> string list \<Rightarrow> exit action" where
  "verifyFile E P V raws w = process_lines E P V False raws w"

definition processFile :: "env \<Rightarrow> params \<Rightarrow> import_vars \<Rightarrow> exit action" where
  "processFile E P V w =
     (let opened = ReadFile_Lines E w (iv_inputFileName V); w = w @ [EvOpenFile (iv_inputFileName V)] in
      case opened of
        Inl err \<Rightarrow> Some (Fatal, w)
      | Inr raws \<Rightarrow> do {
          (r, w) \<leftarrow> verifyFile E P V raws w;
          (case r of Fatal \<Rightarrow> Some (Fatal, w) | Returned _ \<Rightarrow> process_lines E P V True raws w)
        })"

text \<open>The checks of the flags, in order.\<close>

definition import_range :: "cli_context \<Rightarrow> (u64 \<times> u64) option" where
  "import_range ctx =
     (let isStart = cx_IsSet ctx (fl_Name StartHeightFlag); isEnd = cx_IsSet ctx (fl_Name EndHeightFlag);
          startHeight = (if isStart then cx_Uint64 ctx (fl_Name StartHeightFlag) else cx_Uint64 ctx (fl_Name EndHeightFlag) - cycleLen);
          endHeight = (if isEnd then cx_Uint64 ctx (fl_Name EndHeightFlag) else cx_Uint64 ctx (fl_Name StartHeightFlag) + cycleLen) in
      if \<not> isStart \<and> \<not> isEnd then None
      else if endHeight - startHeight \<noteq> cycleLen then None
      else Some (startHeight, endHeight))"

definition importRewards :: "env \<Rightarrow> cli_context \<Rightarrow> Config \<Rightarrow> params \<Rightarrow> exit action" where
  "importRewards E ctx tmpConfig P w =
     (let V = \<lparr>iv_inputFileName = cx_String ctx (fl_Name InputFileFlag), iv_dryRun = False, iv_rewardType = cx_String ctx (fl_Name RewardTyepFlag),
        iv_isLiquidReward = False, iv_isVolumeReward = False, iv_exchange = cx_String ctx (fl_Name ExchangeFlag),
        iv_rewardToken = cx_String ctx (fl_Name RewardTokenFlag), iv_startHeight = 0, iv_endHeight = 0\<rparr> in
      if iv_inputFileName V = [] then Some (Fatal, w)
      else if iv_rewardType V = [] then Some (Returned (Some (Errorf ''must specify rewardType'')), w)
      else case checkRewardType (iv_rewardType V) V of
        None \<Rightarrow> Some (Fatal, w)
      | Some V \<Rightarrow>
        (case import_range ctx of
           None \<Rightarrow> Some (Fatal, w)
         | Some (startHeight, endHeight) \<Rightarrow>
             if iv_exchange V = [] then Some (Returned (Some (Errorf ''must specify exchange'')), w)
             else if iv_rewardToken V = [] then Some (Returned (Some (Errorf ''must specify rewardToken'')), w)
             else (case InitApp E P tmpConfig True w of
                None \<Rightarrow> None
              | Some (P, w) \<Rightarrow> do {
                  (r, w) \<leftarrow> processFile E P (V\<lparr>iv_dryRun := cx_Bool ctx (fl_Name DryRunFlag), iv_startHeight := startHeight,
                    iv_endHeight := endHeight\<rparr>) w;
                  Some (case r of Fatal \<Rightarrow> Fatal | Returned _ \<Rightarrow> Returned None, w)
                })))"

section \<open>Inserting accounts\<close>

record insert_vars =
  nv_inputFileName :: string
  nv_exchange :: string
  nv_token :: string
  nv_pairs :: string
  nv_dryRun :: bool

definition addAccountToDB :: "env \<Rightarrow> insert_vars \<Rightarrow> string \<Rightarrow> error option action" where
  "addAccountToDB E V account w =
     (if nv_exchange V \<noteq> [] then
        (if nv_dryRun V then Some (None, w)
         else AddAccount E \<lparr>ma_Key = GetKeyOfExchangeAndAccount (nv_exchange V) account,
           ma_Exchange = ToLower (nv_exchange V), ma_Pairs = nv_pairs V, ma_Account = ToLower account\<rparr> w)
      else if nv_token V \<noteq> [] then
        (if nv_dryRun V then Some (None, w)
         else AddTokenAccount E \<lparr>ta_Key = GetKeyOfTokenAndAccount (nv_token V) account,
           ta_Token = ToLower (nv_token V), ta_Account = ToLower account\<rparr> w)
      else Some (Some (Errorf ''no exchange or token is specified''), w))"

text \<open>\<open>accountMap\<close>: the accounts inserted so far. A failed insertion is only logged.\<close>

fun insert_lines :: "env \<Rightarrow> insert_vars \<Rightarrow> address set \<Rightarrow> string list \<Rightarrow> unit action" where
  "insert_lines E V accountMap [] w = Some ((), w)"
| "insert_lines E V accountMap (lineData # rest) w =
     (let line = TrimSpace lineData; account = HexToAddress E line in
      if isCommentedLine line then insert_lines E V accountMap rest w
      else if \<not> IsHexAddress E line then insert_lines E V accountMap rest w
      else if account \<in> accountMap then insert_lines E V accountMap rest w
      else do {
        (err, w) \<leftarrow> addAccountToDB E V (ToLower (Address_String E account)) w;
        insert_lines E V (insert account accountMap) rest w
      })"

definition insertAccountFromFile :: "env \<Rightarrow> insert_vars \<Rightarrow> exit action" where
  "insertAccountFromFile E V w =
     (let opened = ReadFile_Lines E w (nv_inputFileName V); w = w @ [EvOpenFile (nv_inputFileName V)] in
      case opened of
        Inl err \<Rightarrow> Some (Fatal, w)
      | Inr raws \<Rightarrow> do { (_, w) \<leftarrow> insert_lines E V {} raws w; Some (Returned None, w) })"

definition initMongodb :: "env \<Rightarrow> cli_context \<Rightarrow> mongo_vars action" where
  "initMongodb E ctx w =
     (let dbURL = cx_String ctx (fl_Name mongoURLFlag); dbName = cx_String ctx (fl_Name dbNameFlag);
          userName = cx_String ctx (fl_Name dbUserFlag); passwd = cx_String ctx (fl_Name dbPassFlag) in
      if dbName = [] then None else MongoServerInit E [dbURL] dbName userName passwd zero_mongo_vars w)"

definition insertAccount :: "env \<Rightarrow> cli_context \<Rightarrow> exit action" where
  "insertAccount E ctx w =
     (let V = \<lparr>nv_inputFileName = cx_String ctx (fl_Name InputFileFlag), nv_exchange = cx_String ctx (fl_Name ExchangeFlag),
        nv_token = cx_String ctx (fl_Name TokenFlag), nv_pairs = cx_String ctx (fl_Name PairsFlag), nv_dryRun = cx_Bool ctx (fl_Name DryRunFlag)\<rparr> in
      if nv_inputFileName V = [] then Some (Fatal, w)
      else if nv_exchange V = [] \<and> nv_token V = [] then Some (Fatal, w)
      else if nv_exchange V \<noteq> [] \<and> nv_token V \<noteq> [] then Some (Fatal, w)
      else if nv_exchange V \<noteq> [] \<and> nv_pairs V = [] then Some (Fatal, w)
      else if cx_String ctx (fl_Name dbNameFlag) = [] then Some (Fatal, w)
      else do { (_, w) \<leftarrow> initMongodb E ctx w; insertAccountFromFile E V w })"

end
