(* ===== verification/Import_Files.thy ===== *)
theory Import_Files
  imports Import Parser
begin

text \<open>
  Properties of the imports (theory \<open>Import\<close>): nothing is stored unless the whole file is right;
  importing the output of a distribution stores what the distribution would have stored; accounts
  are inserted once each.
\<close>

section \<open>The lines of a file\<close>

definition content_line :: "string \<Rightarrow> bool" where
  "content_line line \<longleftrightarrow> line \<noteq> [] \<and> \<not> isCommentedLine line"

definition contents :: "string list \<Rightarrow> string list" where
  "contents raws = filter content_line (map TrimSpace raws)"

lemma contents_simps [simp]:
  "contents [] = []"
  "contents (r # raws) = (if content_line (TrimSpace r) then TrimSpace r # contents raws else contents raws)"
  by (simp_all add: contents_def)

fun each_line :: "env \<Rightarrow> params \<Rightarrow> import_vars \<Rightarrow> bool \<Rightarrow> string list \<Rightarrow> exit action" where
  "each_line E P V addToDB [] w = Some (Returned None, w)"
| "each_line E P V addToDB (line # rest) w = do {
     (r, w) \<leftarrow> processLine E P V line addToDB w;
     (case r of Fatal \<Rightarrow> Some (Fatal, w) | Returned _ \<Rightarrow> each_line E P V addToDB rest w)
   }"

lemma process_lines_contents: "process_lines E P V b raws w = each_line E P V b (contents raws) w"
proof (induction raws arbitrary: w)
  case Nil
  show ?case by (subst process_lines.simps) simp
next
  case (Cons r raws)
  show ?case
  proof (cases "content_line (TrimSpace r)")
    case True
    then show ?thesis
      by (subst process_lines.simps) (auto simp: Let_def content_line_def Cons.IH split: exit.split Option.bind_split prod.split)
  next
    case False
    then have "process_lines E P V b (r # raws) w = process_lines E P V b raws w"
      by (subst (1 2) process_lines.simps) (auto simp: Let_def content_line_def)
    with False Cons.IH show ?thesis by simp
  qed
qed

section \<open>All or nothing\<close>

lemma verify_lines:
  "each_line E P V False ls w =
     Some (if \<forall>line \<in> set ls. parse_line E line \<noteq> None then Returned None else Fatal, w)"
  by (induction ls) (auto simp: processLine_def split: option.splits)

lemma bind_const: "m \<noteq> None \<Longrightarrow> \<exists>w'. (m \<bind> (\<lambda>(_, w). Some (c, w))) = Some (c, w')"
  by (cases m) auto

lemma returning_addRewardResultToDB:
  assumes "iv_isVolumeReward V \<or> iv_isLiquidReward V"
  shows "\<exists>w'. addRewardResultToDB E P V a r s n h w = Some (Returned None, w') \<and> (iv_dryRun V \<longrightarrow> w' = w)"
proof -
  have "returning (TryDoTimes (AddVolumeRewardResult E vr))" "returning (TryDoTimes (AddLiquidRewardResult E lr))" for vr lr
    by (rule returning_intros)+
  then have "TryDoTimes (AddVolumeRewardResult E vr) w \<noteq> None" "TryDoTimes (AddLiquidRewardResult E lr) w \<noteq> None" for vr lr w
    by (simp_all only: returning_def simp_thms)
  note stored = bind_const [OF this(1)] bind_const [OF this(2)]
  show ?thesis
    using assms unfolding addRewardResultToDB_def Let_def
    by (cases "iv_dryRun V"; cases "iv_isVolumeReward V") (simp_all add: stored)
qed

lemma add_lines:
  assumes "iv_isVolumeReward V \<or> iv_isLiquidReward V"
  shows "\<forall>line \<in> set ls. parse_line E line \<noteq> None \<Longrightarrow>
    \<exists>w'. each_line E P V True ls w = Some (Returned None, w') \<and> (iv_dryRun V \<longrightarrow> w' = w)"
proof (induction ls arbitrary: w)
  case (Cons line ls)
  obtain a r s n h where line: "parse_line E line = Some (a, r, s, n, h)" using Cons.prems by (auto split: prod.splits)
  obtain w1 where one: "addRewardResultToDB E P V a r s n h w = Some (Returned None, w1)" "iv_dryRun V \<longrightarrow> w1 = w"
    using returning_addRewardResultToDB [OF assms] by blast
  with Cons.IH [of w1] Cons.prems line show ?case by (auto simp: processLine_def)
qed simp


section \<open>Importing the output of a distribution\<close>

lemma nat_SetString_10: "nat_SetString 10 (nat_digits n) = Some n"
  using nat_digits_dec [of _ n] by (simp add: nat_SetString_def scan_prefix_def scan_digits_dec dec_val_nat_digits)

lemma SetString_10: "SetString (big_String x) 10 = Some x"
proof (cases "x < 0")
  case True
  then show ?thesis by (simp add: SetString_def big_String_def nat_SetString_10)
next
  case False
  obtain c cs where s: "nat_digits (nat x) = c # cs" by (cases "nat_digits (nat x)") auto
  then have "c \<noteq> CHR ''-''" "c \<noteq> CHR ''+''" using hd_nat_digits_dec by (blast dest: is_dec_neq)+
  then have "SetString (c # cs) 10 = map_option int (nat_SetString 10 (c # cs))" by (simp add: SetString_def)
  with False s show ?thesis
    by (simp add: big_String_def flip: s) (simp add: nat_SetString_10)
qed

lemma big_String_neq: "big_String x \<noteq> []"
  by (simp add: big_String_def)

text \<open>Texts of hashes are read back.\<close>

definition hash_roundtrip :: "env \<Rightarrow> bool" where
  "hash_roundtrip E \<longleftrightarrow> (\<forall>h. HexToHash E (Hash_Hex E h) = h)"

definition output_stat :: "AccountStat \<Rightarrow> bool" where
  "output_stat stat \<longleftrightarrow> Reward stat \<noteq> None \<and> (Share stat = None \<longrightarrow> Number stat = 0)"

lemma parse_row:
  assumes E: "address_texts E" "hash_texts E" "hash_roundtrip E" and "output_stat stat"
  shows "parse_line E (Join (reward_row E stat h) '','') =
    Some (Account stat, the (Reward stat), Share stat, map_option (\<lambda>_. uint (Number stat)) (Share stat), h)"
proof -
  obtain r where r: "Reward stat = Some r" using assms(4) by (auto simp: output_stat_def)
  have num: "SetString (fmt_u64 n) 10 = Some (uint n)" "fmt_u64 n \<noteq> []" for n
    using SetString_10 [of "uint n"] big_String_neq [of "uint n"] by simp_all
  show ?thesis
    unfolding parse_line_def reward_row_line(3) [OF E(1,2) r]
    using E r by (cases "Share stat"; cases h)
      (simp_all add: reward_row_def address_texts_def hash_texts_def hash_roundtrip_def Let_def ptr_String_def
        number_part_def hash_part_def SetString_10 num big_String_neq)
qed

text \<open>What a distribution that saves to the database stores for the rows.\<close>

fun save_rows :: "env \<Rightarrow> params \<Rightarrow> Opt \<Rightarrow> string \<Rightarrow> (AccountStat \<times> hash option) list \<Rightarrow> unit action" where
  "save_rows E P opt exchange [] w = Some ((), w)"
| "save_rows E P opt exchange ((stat, h) # rest) w = do {
     (_, w) \<leftarrow> WriteRewardResultToDB E P opt exchange (ToLower (Address_String E (Account stat))) (ptr_String (Reward stat))
       (case Share stat of None \<Rightarrow> [] | Some s \<Rightarrow> big_String s) (Number stat)
       (case h of None \<Rightarrow> [] | Some h \<Rightarrow> Hash_Hex E h) w;
     save_rows E P opt exchange rest w
   }"

text \<open>The flags of the import are those of the distribution.\<close>

definition same_rewards :: "import_vars \<Rightarrow> Opt \<Rightarrow> string \<Rightarrow> bool" where
  "same_rewards V opt exchange \<longleftrightarrow> \<not> iv_dryRun V \<and> o_SaveDB opt \<and> iv_exchange V = ToLower exchange \<and>
     iv_startHeight V = o_StartHeight opt \<and> iv_endHeight V = o_EndHeight opt \<and> iv_rewardToken V = o_RewardToken opt \<and>
     (iv_isVolumeReward V \<and> o_byWhat opt = byVolumeMethodID \<or>
      \<not> iv_isVolumeReward V \<and> iv_isLiquidReward V \<and> o_byWhat opt = byLiquidMethodID)"

lemma add_row:
  assumes "same_rewards V opt exchange" "output_stat stat"
  shows "addRewardResultToDB E P V (Account stat) (the (Reward stat)) (Share stat)
      (map_option (\<lambda>_. uint (Number stat)) (Share stat)) h w =
    WriteRewardResultToDB E P opt exchange (ToLower (Address_String E (Account stat))) (ptr_String (Reward stat))
      (case Share stat of None \<Rightarrow> [] | Some s \<Rightarrow> big_String s) (Number stat)
      (case h of None \<Rightarrow> [] | Some h \<Rightarrow> Hash_Hex E h) w \<bind> (\<lambda>(_, w). Some (Returned None, w))"
proof -
  obtain r where r: "Reward stat = Some r" using assms(2) by (auto simp: output_stat_def)
  have num: "(case map_option (\<lambda>_. uint (Number stat)) (Share stat) of None \<Rightarrow> 0 | Some n \<Rightarrow> big_Uint64 n) = Number stat"
    using assms(2) by (auto simp: output_stat_def split: option.split)
  have "byVolumeMethodID \<noteq> customMethodID" "byLiquidMethodID \<noteq> customMethodID" "byLiquidMethodID \<noteq> byVolumeMethodID"
    by (simp_all add: byVolumeMethodID_def byLiquidMethodID_def customMethodID_def)
  with assms(1) r num show ?thesis
    by (auto simp: addRewardResultToDB_def WriteRewardResultToDB_def same_rewards_def Let_def ptr_String_def split_def)
qed

lemma import_rows:
  assumes "address_texts E" "hash_texts E" "hash_roundtrip E" "same_rewards V opt exchange"
  shows "\<forall>(stat, h) \<in> set rows. output_stat stat \<Longrightarrow>
    each_line E P V True (map (\<lambda>(stat, h). Join (reward_row E stat h) '','') rows) w =
    save_rows E P opt exchange rows w \<bind> (\<lambda>(_, w). Some (Returned None, w))"
proof (induction rows arbitrary: w)
  case (Cons row rows)
  obtain stat h where row: "row = (stat, h)" by (cases row)
  with Cons.prems have stat: "output_stat stat" by simp
  show ?case
    using Cons parse_row [OF assms(1-3) stat] add_row [OF assms(4) stat]
    by (simp add: row processLine_def split_def)
qed simp

text \<open>
  C37: Importing the output file of a distribution stores what the distribution would have stored
  itself: for every row, in order, the same document is looked up, inserted or updated, under the
  same key (exchange in lower case, same range, token and type). The title line is skipped.
\<close>

theorem import_equals_savedb:
  assumes "address_texts E" "hash_texts E" "hash_roundtrip E" "same_rewards V opt exchange"
    and "\<forall>(stat, h) \<in> set rows. output_stat stat" "isCommentedLine (TrimSpace title)"
    and "ReadFile_Lines E w (iv_inputFileName V) = Inr (title # map (\<lambda>(stat, h). Join (reward_row E stat h) '','') rows)"
  shows "processFile E P V w =
    save_rows E P opt exchange rows (w @ [EvOpenFile (iv_inputFileName V)]) \<bind> (\<lambda>(_, w). Some (Returned None, w))"
proof -
  let ?lines = "map (\<lambda>(stat, h). Join (reward_row E stat h) '','') rows"
  have line: "TrimSpace l = l \<and> content_line l \<and> parse_line E l \<noteq> None" if mem: "l \<in> set ?lines" for l
  proof -
    obtain stat h where l: "l = Join (reward_row E stat h) '',''" "output_stat stat"
      using mem assms(5) by fastforce
    then obtain r where r: "Reward stat = Some r" by (auto simp: output_stat_def)
    have "l \<noteq> []" using parse_row [OF assms(1-3) l(2), of h]
      by (auto simp: l(1) parse_line_def blankOrCommaSep_Split_def split_from.simps)
    with reward_row_line(1,2) [OF assms(1,2) r, of h] parse_row [OF assms(1-3) l(2), of h]
    show ?thesis by (simp add: l(1) content_line_def)
  qed
  have contents: "contents (title # ?lines) = ?lines"
  proof -
    have trim: "map TrimSpace ?lines = ?lines" using line by (intro map_idI) blast
    have keep: "filter content_line ?lines = ?lines" using line by (simp only: filter_id_conv) blast
    have "contents (title # ?lines) = contents ?lines" using assms(6) by (simp add: content_line_def)
    also have "\<dots> = ?lines" unfolding contents_def trim keep by (rule refl)
    finally show ?thesis .
  qed
  have "\<forall>l \<in> set ?lines. parse_line E l \<noteq> None" using line by blast
  then show ?thesis
    unfolding processFile_def verifyFile_def process_lines_contents
    by (simp add: assms(7) contents verify_lines import_rows [OF assms(1-5)] Let_def del: contents_simps)
qed

section \<open>A concrete file\<close>

definition import_job :: "import_vars" where
  "import_job = \<lparr>iv_inputFileName = ''rewards.csv'', iv_dryRun = False, iv_rewardType = ''volume'',
     iv_isLiquidReward = False, iv_isVolumeReward = True, iv_exchange = ''7'', iv_rewardToken = ''9'',
     iv_startHeight = 6600, iv_endHeight = 13200\<rparr>"

definition import_opt :: Opt where
  "import_opt = test_opt\<lparr>o_SaveDB := True, o_byWhat := byVolumeMethodID, o_StartHeight := 6600,
     o_EndHeight := 13200, o_RewardToken := ''9''\<rparr>"

definition wrong_env :: env where
  "wrong_env = base_env\<lparr>ReadFile_Lines := \<lambda>w f. Inr [''#title'', ''5,100'', ''6,a'']\<rparr>"


theorem import_equals_savedb_witness:
  "\<exists>w'. processFile file_env test_params import_job [] = Some (Returned None, w') \<and>
     save_rows file_env test_params import_opt ''7'' test_rows [EvOpenFile ''rewards.csv''] = Some ((), w')"
proof -
  have rows: "reward_row base_env = reward_row file_env"
    by (intro ext) (simp add: reward_row_def file_env_def split: option.split)
  have texts: "address_texts file_env" "hash_texts file_env"
    using base_texts by (simp_all add: address_texts_def hash_texts_def file_env_def)
  have hash: "hash_roundtrip file_env"
    by (simp add: hash_roundtrip_def file_env_def base_env_def decimal_nat_digits)
  moreover have same: "same_rewards import_job import_opt ''7''" by code_simp
  moreover have stats: "\<forall>(stat, h) \<in> set test_rows. output_stat stat" by code_simp
  moreover have "isCommentedLine (TrimSpace ''#title'')" by code_simp
  moreover have "ReadFile_Lines file_env [] (iv_inputFileName import_job) =
      Inr (''#title'' # map (\<lambda>(stat, h). Join (reward_row file_env stat h) '','') test_rows)"
    unfolding rows [symmetric] by (simp add: file_env_def)
  ultimately have eq: "processFile file_env test_params import_job [] =
      save_rows file_env test_params import_opt ''7'' test_rows ([] @ [EvOpenFile (iv_inputFileName import_job)]) \<bind>
        (\<lambda>(_, w). Some (Returned None, w))"
    by (rule import_equals_savedb [OF texts])
  let ?lines = "map (\<lambda>(stat, h). Join (reward_row file_env stat h) '','') test_rows"
  let ?w = "[EvOpenFile ''rewards.csv'']"
  have "parse_line file_env l \<noteq> None" if mem: "l \<in> set ?lines" for l
    using mem stats parse_row [OF texts hash] by fastforce
  then obtain w' where "each_line file_env test_params import_job True ?lines ?w = Some (Returned None, w')"
    using add_lines [of import_job ?lines file_env test_params ?w] by (auto simp: import_job_def)
  then have "save_rows file_env test_params import_opt ''7'' test_rows ?w = Some ((), w')"
    using import_rows [OF texts hash same stats, of test_params ?w] by (auto simp: bind_eq_Some_conv)
  with eq show ?thesis by (simp add: import_job_def)
qed

section \<open>Inserting accounts\<close>

text \<open>The accounts of a file: the valid addresses, each at its first line.\<close>

fun new_accounts :: "env \<Rightarrow> address set \<Rightarrow> string list \<Rightarrow> address list" where
  "new_accounts E seen [] = []"
| "new_accounts E seen (l # ls) =
     (if isCommentedLine l \<or> \<not> IsHexAddress E l \<or> HexToAddress E l \<in> seen then new_accounts E seen ls
      else HexToAddress E l # new_accounts E (insert (HexToAddress E l) seen) ls)"

lemma new_accounts_distinct: "distinct (new_accounts E seen ls) \<and> set (new_accounts E seen ls) \<inter> seen = {}"
  by (induction ls arbitrary: seen) auto

definition inserted :: "insert_vars \<Rightarrow> address list \<Rightarrow> env \<Rightarrow> event list" where
  "inserted V accounts E =
     (if nv_dryRun V then []
      else map (\<lambda>a. let s = ToLower (Address_String E a) in
        EvInsert (if nv_exchange V \<noteq> []
          then DocAccount \<lparr>ma_Key = GetKeyOfExchangeAndAccount (nv_exchange V) s, ma_Exchange = ToLower (nv_exchange V),
            ma_Pairs = nv_pairs V, ma_Account = s\<rparr>
          else DocTokenAccount \<lparr>ta_Key = GetKeyOfTokenAndAccount (nv_token V) s, ta_Token = ToLower (nv_token V),
            ta_Account = s\<rparr>) None) accounts)"

lemma insert_lines_inserts:
  assumes "good_writes E" "nv_exchange V \<noteq> [] \<or> nv_token V \<noteq> []"
  shows "insert_lines E V seen raws w = Some ((), w @ inserted V (new_accounts E seen (map TrimSpace raws)) E)"
proof (induction raws arbitrary: seen w)
  case (Cons r raws)
  let ?a = "HexToAddress E (TrimSpace r)"
  have one: "\<exists>err. addAccountToDB E V (ToLower (Address_String E a)) w = Some (err, w @ inserted V [a] E)" for a w
    using assms by (auto simp: addAccountToDB_def AddAccount_def AddTokenAccount_def db_Insert_def good_writes_def inserted_def Let_def)
  have app: "inserted V (a # as) E = inserted V [a] E @ inserted V as E" for a as
    by (simp add: inserted_def)
  show ?case
  proof (cases "isCommentedLine (TrimSpace r) \<or> \<not> IsHexAddress E (TrimSpace r) \<or> ?a \<in> seen")
    case True
    then show ?thesis by (auto simp: Let_def Cons.IH)
  next
    case False
    obtain err where "addAccountToDB E V (ToLower (Address_String E ?a)) w = Some (err, w @ inserted V [?a] E)"
      using one by blast
    with False show ?thesis
      using app [of ?a "new_accounts E (insert ?a seen) (map TrimSpace raws)"] by (simp add: Let_def Cons.IH)
  qed
qed (simp add: inserted_def)


definition insert_env :: env where
  "insert_env = base_env\<lparr>ReadFile_Lines := \<lambda>w f. Inr [''#accounts'', ''5'', '' 6 '', ''5'']\<rparr>"

definition insert_job :: insert_vars where
  "insert_job = \<lparr>nv_inputFileName = ''accounts'', nv_exchange = ''7'', nv_token = [], nv_pairs = ''ANY-FSN'', nv_dryRun = False\<rparr>"


end
