(* ===== verification/Logger.thy ===== *)
theory Logger
  imports Flags
begin

text \<open>
  \<open>log/logger.go\<close> and \<open>SetLogger\<close> of \<open>cmd/utils/flags.go\<close>: the log output and its set-up. The
  package passes everything on to the third-party package \<open>logrus\<close>; what it does is the list of
  the calls it makes there, next to the variable \<open>JSONFormat\<close>. A value of type \<open>interface{}\<close> is a
  string or another value. Opening the rotated file is a parameter; when it fails the process ends
  (\<open>None\<close>). The models of the other packages leave their log output out.
\<close>

section \<open>Calls of logrus\<close>

type_synonym u32 = "32 word"

datatype 'v log_arg = StrArg string | OtherArg 'v

datatype log_level = PanicLevel | FatalLevel | ErrorLevel | WarnLevel | InfoLevel | DebugLevel | TraceLevel

datatype log_formatter =
    JSONFormatter (TimestampFormat: string)
  | TextFormatter (ForceColors: bool) (DisableColors: bool) (ForceQuote: bool) (FullTimestamp: bool)
      (TimestampFormat: string) (DisableSorting: bool)

text \<open>A rotated file: the pattern of its names, its link, and two durations in nanoseconds.\<close>

datatype log_output = Stdout | RotatedFile string string int int

text \<open>
  \<open>Entry\<close> is a call on the entry with the fields (\<open>Entry.Info(msg)\<close>), with a line end or without;
  the others are the functions of the package (\<open>logrus.Infof\<close>, \<open>logrus.Print\<close>, \<open>logrus.Printf\<close>).
\<close>

datatype 'v logrus_call =
    SetOutput log_output
  | SetLevel u32
  | SetFormatter log_formatter
  | Entry log_level bool "string \<Rightarrow> 'v log_arg option" string
  | Logf log_level string "'v log_arg list"
  | PrintArgs bool "'v log_arg list"
  | PrintFormat string "'v log_arg list"

record 'v logger =
  JSONFormat :: bool
  logrus_calls :: "'v logrus_call list"

definition call_logrus :: "'v logrus_call \<Rightarrow> 'v logger \<Rightarrow> 'v logger" where
  "call_logrus c L = L\<lparr>logrus_calls := logrus_calls L @ [c]\<rparr>"

lemma call_logrus_simps [simp]:
  "logrus_calls (call_logrus c L) = logrus_calls L @ [c]" "JSONFormat (call_logrus c L) = JSONFormat L"
  by (simp_all add: call_logrus_def)

section \<open>Set-up\<close>

definition timestampFormat :: string where "timestampFormat = ''2006-01-02T15:04:05.000''"

text \<open>The level is any number: the conversion to \<open>logrus.Level\<close> does not check it.\<close>

definition SetLogger :: "u32 \<Rightarrow> bool \<Rightarrow> bool \<Rightarrow> 'v logger \<Rightarrow> 'v logger" where
  "SetLogger logLevel jsonFormat colorFormat L =
     (let L = call_logrus (SetOutput Stdout) L;
          L = call_logrus (SetLevel logLevel) L;
          L = L\<lparr>JSONFormat := jsonFormat\<rparr>
      in if JSONFormat L then call_logrus (SetFormatter (JSONFormatter timestampFormat)) L
         else call_logrus (SetFormatter (TextFormatter colorFormat (\<not> colorFormat) True True timestampFormat False)) L)"

text \<open>A number of hours as a \<open>time.Duration\<close>, a signed 64-bit number of nanoseconds that may wrap around.\<close>

definition hours :: "u64 \<Rightarrow> int" where
  "hours n = sint (n * 3600000000000)"

definition SetLogFile ::
  "(string \<Rightarrow> string \<Rightarrow> int \<Rightarrow> int \<Rightarrow> error option) \<Rightarrow> string \<Rightarrow> u64 \<Rightarrow> u64 \<Rightarrow> 'v logger \<Rightarrow> 'v logger option" where
  "SetLogFile rotatelogs_New logFile logRotation logMaxAge L =
     (if logFile = [] then Some L
      else
        let L = (if \<not> JSONFormat L
              then call_logrus (SetFormatter (JSONFormatter timestampFormat)) (L\<lparr>JSONFormat := True\<rparr>) else L);
            pattern = logFile @ ''.'' @ ''%Y%m%d%H''
        in if rotatelogs_New pattern logFile (hours logMaxAge) (hours logRotation) \<noteq> None then None
           else Some (call_logrus (Logf InfoLevel ''log file is %s'' [StrArg logFile])
             (call_logrus (SetOutput (RotatedFile pattern logFile (hours logMaxAge) (hours logRotation))) L)))"

text \<open>\<open>SetLogger\<close> of the package \<open>utils\<close>: from the flags. The level is truncated to 32 bits.\<close>

definition utils_SetLogger ::
  "(string \<Rightarrow> string \<Rightarrow> int \<Rightarrow> int \<Rightarrow> error option) \<Rightarrow> cli_context \<Rightarrow> 'v logger \<Rightarrow> 'v logger option" where
  "utils_SetLogger rotatelogs_New ctx L =
     (let logLevel = cx_Uint64 ctx (fl_Name VerbosityFlag);
          jsonFormat = cx_Bool ctx (fl_Name JSONFormatFlag);
          colorFormat = cx_Bool ctx (fl_Name ColorFormatFlag);
          L = SetLogger (ucast logLevel) jsonFormat colorFormat L;
          logFile = cx_String ctx (fl_Name LogFileFlag)
      in if logFile \<noteq> []
         then SetLogFile rotatelogs_New logFile (cx_Uint64 ctx (fl_Name LogRotationFlag))
           (cx_Uint64 ctx (fl_Name LogMaxAgeFlag)) L
         else Some L)"

section \<open>Fields\<close>

text \<open>
  The loop of \<open>WithFields\<close> over the index \<open>k\<close>: pairs of a key and a value; a key that is no string
  is only reported, and so is a value without a pair, at the debug level.
\<close>

definition key_report :: "'v log_arg \<Rightarrow> 'v logrus_call" where
  "key_report key = Logf DebugLevel ''log field key '%v' is not string'' [key]"

function fields_loop ::
  "'v log_arg list \<Rightarrow> nat \<Rightarrow> (string \<Rightarrow> 'v log_arg option) \<Rightarrow> 'v logger \<Rightarrow> (string \<Rightarrow> 'v log_arg option) \<times> 'v logger" where
  "fields_loop ctx k fs L =
     (if k + 2 \<le> length ctx then
        (case ctx ! k of
           StrArg key \<Rightarrow> fields_loop ctx (k + 2) (fs(key \<mapsto> ctx ! (k + 1))) L
         | OtherArg v \<Rightarrow> fields_loop ctx (k + 2) fs
             (call_logrus (key_report (ctx ! k)) L))
      else (fs, L))"
  by pat_completeness auto
termination by (relation "measure (\<lambda>(ctx, k, fs, L). length ctx - k)") auto

declare fields_loop.simps [simp del]

text \<open>The length in the report is an \<open>int\<close>; \<open>of_length\<close> makes it a value.\<close>

definition WithFields ::
  "(nat \<Rightarrow> 'v) \<Rightarrow> 'v log_arg list \<Rightarrow> 'v logger \<Rightarrow> (string \<Rightarrow> 'v log_arg option) \<times> 'v logger" where
  "WithFields of_length ctx L =
     (let L = (if length ctx mod 2 \<noteq> 0
        then call_logrus (Logf DebugLevel ''log fileds number %v is not even'' [OtherArg (of_length (length ctx))]) L
        else L)
      in fields_loop ctx 0 Map.empty L)"

section \<open>The functions of the package\<close>

text \<open>A call of one of the functions that log.\<close>

datatype 'v log_call =
    log_Trace string "'v log_arg list" | log_Tracef string "'v log_arg list" | log_Traceln string "'v log_arg list"
  | log_Debug string "'v log_arg list" | log_Debugf string "'v log_arg list" | log_Debugln string "'v log_arg list"
  | log_Info string "'v log_arg list" | log_Infof string "'v log_arg list" | log_Infoln string "'v log_arg list"
  | log_Print "'v log_arg list" | log_Printf string "'v log_arg list" | log_Println "'v log_arg list"
  | log_Warn string "'v log_arg list" | log_Warnf string "'v log_arg list" | log_Warnln string "'v log_arg list"
  | log_Error string "'v log_arg list" | log_Errorf string "'v log_arg list" | log_Errorln string "'v log_arg list"
  | log_Fatal string "'v log_arg list" | log_Fatalf string "'v log_arg list" | log_Fatalln string "'v log_arg list"
  | log_Crit string "'v log_arg list" | log_Critf string "'v log_arg list" | log_Critln string "'v log_arg list"
  | log_Panic string "'v log_arg list" | log_Panicf string "'v log_arg list" | log_Panicln string "'v log_arg list"

definition log_entry ::
  "(nat \<Rightarrow> 'v) \<Rightarrow> log_level \<Rightarrow> bool \<Rightarrow> string \<Rightarrow> 'v log_arg list \<Rightarrow> 'v logger \<Rightarrow> 'v logger" where
  "log_entry of_length level ln msg ctx L =
     (let (fs, L) = WithFields of_length ctx L in call_logrus (Entry level ln fs msg) L)"

text \<open>What \<open>logrus\<close> does after a fatal error or a panic, ending the process, is left to it.\<close>

function log_do :: "(nat \<Rightarrow> 'v) \<Rightarrow> 'v log_call \<Rightarrow> 'v logger \<Rightarrow> 'v logger" where
  "log_do n (log_Trace msg ctx) L = log_entry n TraceLevel False msg ctx L"
| "log_do n (log_Tracef format args) L = call_logrus (Logf TraceLevel format args) L"
| "log_do n (log_Traceln msg ctx) L = log_entry n TraceLevel True msg ctx L"
| "log_do n (log_Debug msg ctx) L = log_entry n DebugLevel False msg ctx L"
| "log_do n (log_Debugf format args) L = call_logrus (Logf DebugLevel format args) L"
| "log_do n (log_Debugln msg ctx) L = log_entry n DebugLevel True msg ctx L"
| "log_do n (log_Info msg ctx) L = log_entry n InfoLevel False msg ctx L"
| "log_do n (log_Infof format args) L = call_logrus (Logf InfoLevel format args) L"
| "log_do n (log_Infoln msg ctx) L = log_entry n InfoLevel True msg ctx L"
| "log_do n (log_Print msg) L = call_logrus (PrintArgs False msg) L"
| "log_do n (log_Printf format args) L = call_logrus (PrintFormat format args) L"
| "log_do n (log_Println msg) L = call_logrus (PrintArgs True msg) L"
| "log_do n (log_Warn msg ctx) L = log_entry n WarnLevel False msg ctx L"
| "log_do n (log_Warnf format args) L = call_logrus (Logf WarnLevel format args) L"
| "log_do n (log_Warnln msg ctx) L = log_entry n WarnLevel True msg ctx L"
| "log_do n (log_Error msg ctx) L = log_entry n ErrorLevel False msg ctx L"
| "log_do n (log_Errorf format args) L = call_logrus (Logf ErrorLevel format args) L"
| "log_do n (log_Errorln msg ctx) L = log_entry n ErrorLevel True msg ctx L"
| "log_do n (log_Fatal msg ctx) L = log_entry n FatalLevel False msg ctx L"
| "log_do n (log_Fatalf format args) L = call_logrus (Logf FatalLevel format args) L"
| "log_do n (log_Fatalln msg ctx) L = log_entry n FatalLevel True msg ctx L"
| "log_do n (log_Crit msg ctx) L = log_do n (log_Fatal msg ctx) L"
| "log_do n (log_Critf format args) L = log_do n (log_Fatalf format args) L"
| "log_do n (log_Critln msg ctx) L = log_do n (log_Fatalln msg ctx) L"
| "log_do n (log_Panic msg ctx) L = log_entry n PanicLevel False msg ctx L"
| "log_do n (log_Panicf format args) L = call_logrus (Logf PanicLevel format args) L"
| "log_do n (log_Panicln msg ctx) L = log_entry n PanicLevel True msg ctx L"
  by pat_completeness auto
termination
  by (relation "measure (\<lambda>(n, c, L). case c of log_Crit _ _ \<Rightarrow> 1 | log_Critf _ _ \<Rightarrow> 1 | log_Critln _ _ \<Rightarrow> 1 | _ \<Rightarrow> 0)")
    auto

section \<open>What is logged\<close>

text \<open>The pairs of a list of arguments whose key is a string, and the keys that are none.\<close>

fun log_pairs :: "'v log_arg list \<Rightarrow> (string \<times> 'v log_arg) list" where
  "log_pairs (StrArg key # v # rest) = (key, v) # log_pairs rest"
| "log_pairs (OtherArg u # v # rest) = log_pairs rest"
| "log_pairs _ = []"

fun bad_keys :: "'v log_arg list \<Rightarrow> 'v log_arg list" where
  "bad_keys (StrArg key # v # rest) = bad_keys rest"
| "bad_keys (OtherArg u # v # rest) = OtherArg u # bad_keys rest"
| "bad_keys _ = []"

definition reports :: "(nat \<Rightarrow> 'v) \<Rightarrow> 'v log_arg list \<Rightarrow> 'v logrus_call list" where
  "reports of_length ctx =
     (if length ctx mod 2 \<noteq> 0
      then [Logf DebugLevel ''log fileds number %v is not even'' [OtherArg (of_length (length ctx))]] else [])
     @ map key_report (bad_keys ctx)"

lemma drop_two: "k + 2 \<le> length xs \<Longrightarrow> drop k xs = xs ! k # xs ! (k + 1) # drop (k + 2) xs"
  by (metis Cons_nth_drop_Suc Suc_eq_plus1 add_2_eq_Suc' less_eq_Suc_le less_imp_le_nat order_less_le_trans
      lessI add_Suc_right)

lemma log_pairs_short: "length xs < 2 \<Longrightarrow> log_pairs xs = [] \<and> bad_keys xs = []"
  by (cases xs rule: log_pairs.cases) auto

text \<open>The loop over the index reads the list pair by pair; of equal keys the last one counts.\<close>

lemma fields_loop_eq:
  "fields_loop ctx k fs L =
     (fs ++ map_of (rev (log_pairs (drop k ctx))),
      L\<lparr>logrus_calls := logrus_calls L @ map key_report (bad_keys (drop k ctx))\<rparr>)"
proof (induction ctx k fs L rule: fields_loop.induct)
  case (1 ctx k fs L)
  show ?case
  proof (cases "k + 2 \<le> length ctx")
    case True
    note pair = drop_two [OF True]
    show ?thesis
    proof (cases "ctx ! k")
      case (StrArg key)
      with 1(1) [OF True StrArg] True pair show ?thesis
        by (subst fields_loop.simps) (simp add: map_add_assoc del: fun_upd_apply)
    next
      case (OtherArg v)
      with 1(2) [OF True OtherArg] True pair show ?thesis
        by (subst fields_loop.simps) (simp add: call_logrus_def)
    qed
  next
    case False
    then have "length (drop k ctx) < 2" by simp
    with False log_pairs_short [of "drop k ctx"] show ?thesis by (subst fields_loop.simps) simp
  qed
qed

lemma WithFields_eq:
  "WithFields of_length ctx L =
     (map_of (rev (log_pairs ctx)), L\<lparr>logrus_calls := logrus_calls L @ reports of_length ctx\<rparr>)"
  by (simp add: WithFields_def fields_loop_eq reports_def call_logrus_def)

lemma log_entry_eq:
  "log_entry of_length level ln msg ctx L = L\<lparr>logrus_calls := logrus_calls L @
     reports of_length ctx @ [Entry level ln (map_of (rev (log_pairs ctx))) msg]\<rparr>"
  by (simp add: log_entry_def WithFields_eq call_logrus_def)

text \<open>Arguments that are complete pairs of different keys are logged as they are.\<close>

definition key_values :: "(string \<times> 'v log_arg) list \<Rightarrow> 'v log_arg list" where
  "key_values kvs = concat (map (\<lambda>(key, v). [StrArg key, v]) kvs)"

lemma key_values_pairs [simp]: "log_pairs (key_values kvs) = kvs" "bad_keys (key_values kvs) = []"
  by (induction kvs) (auto simp: key_values_def)

lemma key_values_even [simp]: "length (key_values kvs) = 2 * length kvs"
  by (induction kvs) (auto simp: key_values_def)

lemma log_entry_complete:
  assumes "distinct (map fst kvs)"
  shows "log_entry of_length level ln msg (key_values kvs) L =
    call_logrus (Entry level ln (map_of kvs) msg) L"
proof -
  have "map_of (rev kvs) = map_of kvs"
    using assms by (intro map_of_inject_set [THEN iffD2]) (simp_all add: rev_map [symmetric])
  then show ?thesis by (simp add: log_entry_eq reports_def call_logrus_def)
qed

text \<open>Whatever the arguments, one record is logged, after reports at the debug level.\<close>

lemma reports_debug: "c \<in> set (reports of_length ctx) \<Longrightarrow> \<exists>format args. c = Logf DebugLevel format args"
  by (auto simp: reports_def key_report_def split: if_splits)

definition logs_once :: "'v logger \<Rightarrow> 'v logger \<Rightarrow> bool" where
  "logs_once L L' \<longleftrightarrow> (\<exists>rs c. L' = L\<lparr>logrus_calls := logrus_calls L @ rs @ [c]\<rparr> \<and>
     (\<forall>r \<in> set rs. \<exists>format args. r = Logf DebugLevel format args))"

lemma logs_once_call: "logs_once L (call_logrus c L)"
  unfolding logs_once_def call_logrus_def by (intro exI [of _ "[]"]) auto

lemma logs_once_entry: "logs_once L (log_entry of_length level ln msg ctx L)"
  unfolding logs_once_def log_entry_eq by (blast dest: reports_debug)

lemma log_do_once: "logs_once L (log_do of_length f L)"
  by (cases f) (simp_all add: logs_once_call logs_once_entry)

section \<open>Calls whose arguments are wrong\<close>

text \<open>
  \<open>sendVolumeRewards\<close> (\<open>distribute.go\<close>, line 295) leaves out the key of its first field: the values
  become keys, and the error is not logged at all, nor anything else but the message.
\<close>

lemma send_volume_failed_log:
  "log_do of_length (log_Error ''send volume reward failed''
     [OtherArg start, StrArg ''end'', OtherArg end, StrArg ''rewards'', OtherArg rewards, StrArg ''err'', OtherArg err]) L =
   L\<lparr>logrus_calls := logrus_calls L @
     [Logf DebugLevel ''log fileds number %v is not even'' [OtherArg (of_length 7)],
      key_report (OtherArg start),
      key_report (OtherArg end),
      key_report (OtherArg rewards),
      Entry ErrorLevel False Map.empty ''send volume reward failed'']\<rparr>"
  by (simp add: log_entry_eq reports_def, simp add: numeral_eq_Suc)

text \<open>
  \<open>calcRewards\<close> (\<open>calcrewards.go\<close>, line 57) passes a format to \<open>Fatal\<close> instead of \<open>Fatalf\<close>: the
  message is the format itself, and the wrong type is not logged.
\<close>

lemma calc_wrong_type_log:
  "log_do of_length (log_Fatal ''calcRewards: wrong type %v'' [StrArg calcType]) L =
   L\<lparr>logrus_calls := logrus_calls L @
     [Logf DebugLevel ''log fileds number %v is not even'' [OtherArg (of_length 1)],
      Entry FatalLevel False Map.empty ''calcRewards: wrong type %v'']\<rparr>"
  by (simp add: log_entry_eq reports_def)

section \<open>The set-up from the flags\<close>

text \<open>The formatter and the output in force are those set last.\<close>

fun formatter_in_force :: "'v logrus_call list \<Rightarrow> log_formatter option \<Rightarrow> log_formatter option" where
  "formatter_in_force [] f = f"
| "formatter_in_force (SetFormatter f' # cs) f = formatter_in_force cs (Some f')"
| "formatter_in_force (_ # cs) f = formatter_in_force cs f"

fun output_in_force :: "'v logrus_call list \<Rightarrow> log_output option \<Rightarrow> log_output option" where
  "output_in_force [] out = out"
| "output_in_force (SetOutput out' # cs) out = output_in_force cs (Some out')"
| "output_in_force (_ # cs) out = output_in_force cs out"

lemma formatter_in_force_append [simp]:
  "formatter_in_force (cs @ cs') f = formatter_in_force cs' (formatter_in_force cs f)"
  by (induction cs f rule: formatter_in_force.induct) auto

lemma output_in_force_append [simp]:
  "output_in_force (cs @ cs') out = output_in_force cs' (output_in_force cs out)"
  by (induction cs out rule: output_in_force.induct) auto

text \<open>
  A log file is always written as JSON; without one the output is the standard output, as JSON or
  in colours as the flags say. \<open>JSONFormat\<close> tells the formatter in force.
\<close>

lemma utils_SetLogger_formatter:
  assumes "utils_SetLogger rotatelogs_New ctx L = Some L'"
  shows "JSONFormat L' \<longleftrightarrow> cx_Bool ctx (fl_Name JSONFormatFlag) \<or> cx_String ctx (fl_Name LogFileFlag) \<noteq> []"
    and "formatter_in_force (logrus_calls L') f = Some (if JSONFormat L' then JSONFormatter timestampFormat
      else let color = cx_Bool ctx (fl_Name ColorFormatFlag)
        in TextFormatter color (\<not> color) True True timestampFormat False)"
    and "\<exists>pattern link age rotation. output_in_force (logrus_calls L') out =
      Some (if cx_String ctx (fl_Name LogFileFlag) = [] then Stdout else RotatedFile pattern link age rotation)"
  using assms
  by (auto simp: utils_SetLogger_def SetLogFile_def SetLogger_def Let_def call_logrus_def split: if_splits)

text \<open>Durations of up to 292 years do not wrap around.\<close>

lemma hours_no_wrap:
  assumes "uint n \<le> 2562047"
  shows "hours n = uint n * 3600000000000"
proof -
  have "uint (n * 3600000000000) = uint n * 3600000000000"
    using assms by (subst uint_mult_no_wrap) simp_all
  moreover have "- (2 ^ 63) \<le> uint n * 3600000000000" "uint n * 3600000000000 < 2 ^ 63"
    using assms by (auto intro: order_trans [of _ 0])
  ultimately show ?thesis by (simp add: hours_def sint_uint signed_take_bit_int_eq_self)
qed

lemma hours_of_default_flags: "hours 24 = 86400000000000" "hours 720 = 2592000000000000"
  by (simp_all add: hours_no_wrap)

end
