(* ===== verification/Version.thy ===== *)
theory Version
  imports Go_Strings
begin

text \<open>
  \<open>params/version.go\<close> and \<open>cmd/utils/utils.go\<close>: the version strings and the application they are
  given to. Of the application of the package \<open>cli\<close> the fields that are set here are modelled.
\<close>

section \<open>Version strings\<close>

definition VersionMajor :: int where "VersionMajor = 0"
definition VersionMinor :: int where "VersionMinor = 1"
definition VersionPatch :: int where "VersionPatch = 5"
definition VersionMeta :: string where "VersionMeta = []"
definition versionStable :: string where "versionStable = ''stable''"

definition Version :: string where
  "Version = big_String VersionMajor @ ''.'' @ big_String VersionMinor @ ''.'' @ big_String VersionPatch"

definition VersionWithMeta :: string where
  "VersionWithMeta = (let v = Version in if VersionMeta \<noteq> [] then v @ ''-'' @ VersionMeta else v)"

definition with_commit :: "string \<Rightarrow> string \<Rightarrow> string" where
  "with_commit gitCommit vsn = (if length gitCommit \<ge> 8 then vsn @ ''-'' @ take 8 gitCommit else vsn)"

definition ArchiveVersion :: "string \<Rightarrow> string" where
  "ArchiveVersion gitCommit =
     (let vsn = Version;
          vsn = (if VersionMeta \<noteq> versionStable then vsn @ ''-'' @ VersionMeta else vsn)
      in with_commit gitCommit vsn)"

definition VersionWithCommit :: "string \<Rightarrow> string \<Rightarrow> string" where
  "VersionWithCommit gitCommit gitDate =
     (let vsn = with_commit gitCommit VersionWithMeta
      in if VersionMeta \<noteq> versionStable \<and> gitDate \<noteq> [] then vsn @ ''-'' @ gitDate else vsn)"

section \<open>The application (utils.go)\<close>

text \<open>\<open>filepath.Base\<close>: the last element of a path, without trailing slashes.\<close>

definition filepath_Base :: "string \<Rightarrow> string" where
  "filepath_Base path =
     (if path = [] then ''.''
      else let q = dropWhile (\<lambda>c. c = CHR ''/'') (rev path)
        in if q = [] then ''/'' else rev (takeWhile (\<lambda>c. c \<noteq> CHR ''/'') q))"

record cli_app =
  ap_Name :: string
  ap_Version :: string
  ap_Usage :: string

record app_vars =
  av_clientIdentifier :: string
  av_gitCommit :: string

text \<open>The path of the program is \<open>os.Args[0]\<close>.\<close>

definition NewApp :: "string \<Rightarrow> string \<Rightarrow> string \<Rightarrow> string \<Rightarrow> cli_app \<times> app_vars" where
  "NewApp program identifier gitcommit usage =
     (\<lparr>ap_Name = filepath_Base program, ap_Version = with_commit gitcommit VersionWithMeta, ap_Usage = usage\<rparr>,
      \<lparr>av_clientIdentifier = identifier, av_gitCommit = gitcommit\<rparr>)"

section \<open>The versions of this release\<close>

lemma Version_text: "Version = ''0.1.5''" "VersionWithMeta = ''0.1.5''"
  by (simp_all add: Version_def VersionWithMeta_def VersionMajor_def VersionMinor_def VersionPatch_def
      VersionMeta_def big_String_def digit_char_def nat_digits.simps char_of_def bit_Suc_0_iff)

text \<open>The version of the application is the one with its commit and without a date.\<close>

lemma NewApp_version:
  "ap_Version (fst (NewApp program identifier gitcommit usage)) = VersionWithCommit gitcommit []"
  by (simp add: NewApp_def VersionWithCommit_def)

text \<open>A commit that is too short to be a hash is left out; a longer one is cut to eight characters.\<close>

lemma VersionWithCommit_text:
  "VersionWithCommit gitCommit gitDate =
     ''0.1.5'' @ (if length gitCommit \<ge> 8 then ''-'' @ take 8 gitCommit else [])
       @ (if gitDate \<noteq> [] then ''-'' @ gitDate else [])"
  by (simp add: VersionWithCommit_def with_commit_def Version_text VersionMeta_def versionStable_def)

text \<open>
  An archive gets a dash for the metadata even when there is none: the version ends with it, or two
  dashes stand before the commit, unlike in \<open>VersionWithCommit\<close>.
\<close>

lemma ArchiveVersion_dashes:
  "ArchiveVersion gitCommit =
     (if length gitCommit \<ge> 8 then ''0.1.5--'' @ take 8 gitCommit else ''0.1.5-'')"
  by (simp add: ArchiveVersion_def with_commit_def Version_text VersionMeta_def versionStable_def)

lemma filepath_Base_last:
  assumes "CHR ''/'' \<notin> set name" and "name \<noteq> []"
  shows "filepath_Base (dir @ ''/'' @ name) = name"
proof -
  from assms have "hd (rev name) \<noteq> CHR ''/''" by (metis hd_in_set rev_is_Nil_conv set_rev)
  then have "dropWhile (\<lambda>c. c = CHR ''/'') (rev name @ xs) = rev name @ xs" for xs
    using assms(2) by (cases "rev name") auto
  moreover have "takeWhile (\<lambda>c. c \<noteq> CHR ''/'') (rev name @ CHR ''/'' # xs) = rev name" for xs
    using assms(1) by (simp add: takeWhile_tail) (metis (mono_tags) set_rev takeWhile_eq_all_conv)
  ultimately show ?thesis using assms(2) by (simp add: filepath_Base_def)
qed

end
