(* ===== verification/Findings.thy ===== *)
theory Findings
  imports Runner Command_Safety Sync_Range Import Logger Version
begin

text \<open>
  Where the code does not do what it means to: for each case a lemma about its model, on the
  smallest input that shows it. (Two more are lemmas of other theories:
  \<open>cmd_byVolume_waits_forever\<close> and \<open>addExchanges_params\<close>; the wrong log calls are in \<open>Logger\<close>, the
  version of an archive in \<open>Version\<close>.)
\<close>

section \<open>Rewards\<close>

text \<open>
  The percentages a stake earns are configured and checked, but what is added is the stake itself:
  1000 coins at stake add 1000 percent instead of 20.
\<close>

lemma stake_percents_unused:
  "calcAddPercentOfStaking (stakeCfg\<lparr>sk_Percents := percents\<rparr>) amount = calcAddPercentOfStaking stakeCfg amount"
  by (simp add: calcAddPercentOfStaking_def)

lemma stake_adds_its_threshold:
  "calcAddPercentOfStaking (stakeCfg\<lparr>sk_Points := [100, 1000], sk_Percents := [10, 20]\<rparr>) 1000 = 1000"
  by (simp add: calcAddPercentOfStaking_def)

text \<open>
  The second exchange gets nothing, but the rewards its accounts had before the division stay: 105
  instead of 100 are paid.
\<close>

lemma old_rewards_are_kept:
  "CalcRewardsInBatch [[file_stat 20 3], [file_stat 21 5]] [100, 0] = Some [[file_stat 20 100], [file_stat 21 5]]"
  by code_simp

text \<open>The unit left over by rounding goes to the first exchange, which has no share at all.\<close>

lemma rounding_unit_without_share: "DivideRewards 10 [0, 3, 3, 3] = [1, 3, 3, 3]"
  by code_simp

text \<open>A payment that is held back as dust counts as sent.\<close>

lemma dust_counts_as_sent:
  assumes "SendRewardsTransaction E P opt account reward w = Some (((None, Some errDustReward), opt), w)"
    and "\<not> o_DryRun opt" and "o_BatchCount opt = 0" and "reward > 0"
  shows "sendRewards_loop E P opt outputFile exchange [stat\<lparr>Account := account, Reward := Some reward\<rparr>] before i w =
    Some (((before + reward, None), opt), w)"
  using assms by simp

text \<open>
  The smaller of two samples of an account is to be kept, but the coins of the first one (1000) are
  compared with the liquidity of the second one (200): the second is larger (its coins are 2000), and
  replaces the first (100 liquidity).
\<close>

lemma larger_sample_replaces:
  "add_balance_stat [(a, \<lparr>Account = a, Reward = None, Share = Some 1000, Number = 1\<rparr>)] a 200 2000 2 =
     Some [(a, \<lparr>Account = a, Reward = None, Share = Some 2000, Number = 2\<rparr>)]"
  by (simp add: add_balance_stat_def)

section \<open>Wrapping around\<close>

text \<open>Percentages whose sum wraps around to 100 are accepted, by the options and by the configuration.\<close>

lemma percentage_weights_wrap:
  assumes "o_Weights opt = Some [18446744073709551615, 101]" and "o_WeightIsPercentage opt" and "length (o_Exchanges opt) = 2"
  shows "checkWeights opt = None" and "sum_list (map uint (weights_list opt)) = 2 ^ 64 + 100"
  using assms by (simp_all add: checkWeights_def weights_list_def Let_def)

lemma trade_weights_wrap:
  "checkExchangeConfig base_env
     [\<lparr>ex_Pairs = ''A'', ex_Exchange = ''7'', ex_Token = ''17'', ex_CreationHeight = 1, ex_LiquidWeight = 1, ex_TradeWeight = - 1\<rparr>,
      \<lparr>ex_Pairs = ''B'', ex_Exchange = ''8'', ex_Token = ''18'', ex_CreationHeight = 1, ex_LiquidWeight = 1, ex_TradeWeight = 101\<rparr>]
     (zero_DistributeConfig\<lparr>dc_TradeWeightIsPercentage := True\<rparr>) = None"
  by code_simp

text \<open>A length that wraps around passes the check, and the slice of the data panics.\<close>

lemma unpack_length_wraps:
  assumes "GetUint64 E data 0 32 = (- 32, False)" and "32 \<le> data_len data"
  shows "UnpackABIEncodedString E data 0 = None"
  using assms by (simp add: UnpackABIEncodedString_def not_less)

text \<open>
  Before the first stable cycle the number of cycles wraps around: the runner starts in a cycle that
  begins before the configured start, and off the grid of the cycles.
\<close>

lemma current_cycle_wraps: "cycle_start 100 10 20 105 = Some 84"
  by (simp add: cycle_start_def)

text \<open>An end below the length of a cycle gives a start near the largest height, and passes the check.\<close>

lemma import_range_wraps:
  assumes "\<not> cx_IsSet ctx (fl_Name StartHeightFlag)" and "cx_IsSet ctx (fl_Name EndHeightFlag)"
    and "cx_Uint64 ctx (fl_Name EndHeightFlag) = 100"
  shows "import_range ctx = Some (18446744073709545116, 100)"
  using assms by (simp add: import_range_def cycleLen_def)

section \<open>Checks and files\<close>

text \<open>The error speaks of a weight that is not positive, but zero is none.\<close>

lemma zero_weight_accepted: "flag_weights [0] = Inr [0]"
  by (simp add: flag_weights_def)

text \<open>The files of the output are closed, but remembered, so that they would be written to again.\<close>

lemma deinit_keeps_files: "o_outputFiles (deinit opt) = o_outputFiles opt"
  by (simp add: deinit_def)

section \<open>Queries\<close>

text \<open>
  With time measurement and archive mode the stakes are asked for at the block whose number is the
  end of the cycle, a time.
\<close>

lemma stakes_at_a_timestamp:
  assumes "FindAccountVolumes E P exchange startTime endTime True w = Some (stats, w')" and "stats \<noteq> []"
    and "cf_Stake (config P) \<noteq> None"
  shows "getSingleCycleRewardsFromDB E P totalRewards exchange startTime endTime True True w = do {
    (stats, w) \<leftarrow> weightedByStakeAmount E P stats (Some (SetUint64 endTime)) w';
    stats \<leftarrow> CalcRewards stats totalRewards;
    Some (stats, w) }"
  using assms by (simp add: getSingleCycleRewardsFromDB_def)

text \<open>A factory whose node never answers has no tokens, although the call is one of those that wait.\<close>

lemma unanswered_factory_is_empty:
  assumes "CallContract E factory (FromHex E ''0x9f181b5e'') None w = Some (Inl err, w')"
    and "of_bytes (GetData E [] 0 32) = 0"
  shows "LoopGetFactoryTokenCount E factory w = Some (0, w')"
  using assms by (simp add: LoopGetFactoryTokenCount_def answer_def big_Uint64_def)

text \<open>One document for a range of one height counts as its block, whichever block it is.\<close>

lemma any_block_counts:
  assumes "Find_Blocks E w height height = Inr [mb]" and "\<not> overwrite G" and "uint height + 10000 < 2 ^ 64"
  shows "syncRange E G height height msgs w = Some (msgs, w @ [EvFind tbBlocks []])"
proof -
  have "range_end height height = height"
    using range_end_bounds [of height height] assms(3) by (auto intro: word_uint_eqI antisym)
  moreover have "\<not> height + 1 \<le> height"
    using assms(3) by (simp add: word_le_def uint_add_no_wrap)
  ultimately show ?thesis
    using assms(1,2) by (subst syncRange.simps) (simp add: FindBlocksInRange_def syncRange.simps [of E G "height + 1"])
qed

end
